(* ===== verification/Prelude.thy ===== *)
theory Prelude
  imports
    Main
    "HOL-Library.State_Monad"
    "HOL-Library.Word"
    "HOL-Library.Multiset"
    "HOL-Library.List_Lexorder"
    "HOL-Library.Char_ord"
begin

text \<open>
  The vocabulary every component theory shares.

  A Go function that talks to the Kubernetes API, the event recorder or the clock is a
  computation of the library's state monad over an arbitrary world \<open>'w\<close>.  An \<open>error\<close>
  result is an ordinary value, as in Go: \<open>goError option\<close> for a function that returns only
  an error, \<open>goError + 'a\<close> for \<open>(a, err)\<close> whose first component is unused when
  \<open>err\<close> is not nil.  A run-time panic is the value \<open>Panic\<close>.

  \<open>simulates\<close> relates a computation over one world to a computation over another
  through an abstraction function; it is compositional, so a whole handler is transferred from
  a reference API server to any server that behaves like it.
\<close>

named_theorems run_simps \<open>evaluation of computations\<close>
named_theorems sim_intros \<open>introduction rules for simulation\<close>
named_theorems always_intros \<open>introduction rules for results in every world\<close>

section \<open>Errors, panics, results\<close>

text \<open>
  What the code observes of a Go \<open>error\<close>: the verdict of \<open>apierrors.IsNotFound\<close> and the
  text printed by \<open>%s\<close>.  \<open>fmt.Errorf\<close> and \<open>errors.New\<close> give errors that
  \<open>IsNotFound\<close> rejects.
\<close>

datatype goError = GoError (isNotFound: bool) (errorText: string)

definition errorf :: "string \<Rightarrow> goError" where
  "errorf msg = GoError False msg"

datatype 'a outcome = Panic | Value 'a

type_synonym ('w, 'a) go = "('w, 'a) state"

abbreviation ret :: "'a \<Rightarrow> ('w, 'a) go" where
  "ret \<equiv> State_Monad.return"

text \<open>
  A Go slice whose nil-ness is observable (through \<open>reflect.DeepEqual\<close>): \<open>None\<close> is nil,
  \<open>Some []\<close> the empty non-nil slice.  Slices that the code only ranges over, appends to
  or measures are plain lists.
\<close>

type_synonym 'a slice = "'a list option"

text \<open>A Go \<open>map[string]string\<close>; ranging over one map to fill another is \<open>++\<close>.\<close>

type_synonym stringMap = "string \<rightharpoonup> string"

section \<open>Running computations\<close>

declare run_state_return [run_simps]
declare run_state_bind [run_simps]

lemma run_case_sum [run_simps]:
  "run_state (case x of Inl a \<Rightarrow> f a | Inr b \<Rightarrow> g b) w =
     (case x of Inl a \<Rightarrow> run_state (f a) w | Inr b \<Rightarrow> run_state (g b) w)"
  by (cases x) simp_all

lemma run_case_option [run_simps]:
  "run_state (case x of None \<Rightarrow> f | Some b \<Rightarrow> g b) w =
     (case x of None \<Rightarrow> run_state f w | Some b \<Rightarrow> run_state (g b) w)"
  by (cases x) simp_all

lemma run_case_outcome [run_simps]:
  "run_state (case x of Panic \<Rightarrow> f | Value b \<Rightarrow> g b) w =
     (case x of Panic \<Rightarrow> run_state f w | Value b \<Rightarrow> run_state (g b) w)"
  by (cases x) simp_all

lemma run_case_prod [run_simps]:
  "run_state (case x of (a, b) \<Rightarrow> f a b) w = (case x of (a, b) \<Rightarrow> run_state (f a b) w)"
  by (cases x) simp

lemma run_if [run_simps]:
  "run_state (if b then m else n) w = (if b then run_state m w else run_state n w)"
  by simp

lemma run_let [run_simps]:
  "run_state (let x = t in f x) w = (let x = t in run_state (f x) w)"
  by (simp add: Let_def)

section \<open>Simulation\<close>

definition simulates :: "('w \<Rightarrow> 'c) \<Rightarrow> ('w, 'a) go \<Rightarrow> ('c, 'a) go \<Rightarrow> bool" where
  "simulates \<alpha> m m' \<longleftrightarrow>
     (\<forall>w. run_state m' (\<alpha> w) = (fst (run_state m w), \<alpha> (snd (run_state m w))))"

lemma simulatesD:
  "simulates \<alpha> m m' \<Longrightarrow> run_state m w = (a, w') \<Longrightarrow> run_state m' (\<alpha> w) = (a, \<alpha> w')"
  by (simp add: simulates_def)

lemma simulates_run:
  "simulates \<alpha> m m' \<Longrightarrow>
     fst (run_state m w) = fst (run_state m' (\<alpha> w)) \<and>
     \<alpha> (snd (run_state m w)) = snd (run_state m' (\<alpha> w))"
  by (simp add: simulates_def)

lemma simulates_refl: "simulates (\<lambda>w. w) m m"
  by (simp add: simulates_def)

lemma simulates_ret [sim_intros]: "simulates \<alpha> (ret a) (ret a)"
  by (simp add: simulates_def)

lemma simulates_bind [sim_intros]:
  assumes "simulates \<alpha> m m'" and "\<And>a. simulates \<alpha> (k a) (k' a)"
  shows "simulates \<alpha> (Monad_Syntax.bind m k) (Monad_Syntax.bind m' k')"
  using assms by (auto simp: simulates_def split: prod.splits)

lemma simulates_sum [sim_intros]:
  assumes "\<And>a. simulates \<alpha> (f a) (f' a)" and "\<And>b. simulates \<alpha> (g b) (g' b)"
  shows "simulates \<alpha> (case x of Inl a \<Rightarrow> f a | Inr b \<Rightarrow> g b)
                      (case x of Inl a \<Rightarrow> f' a | Inr b \<Rightarrow> g' b)"
  using assms by (cases x) simp_all

lemma simulates_option [sim_intros]:
  assumes "simulates \<alpha> f f'" and "\<And>b. simulates \<alpha> (g b) (g' b)"
  shows "simulates \<alpha> (case x of None \<Rightarrow> f | Some b \<Rightarrow> g b)
                      (case x of None \<Rightarrow> f' | Some b \<Rightarrow> g' b)"
  using assms by (cases x) simp_all

lemma simulates_outcome [sim_intros]:
  assumes "simulates \<alpha> f f'" and "\<And>b. simulates \<alpha> (g b) (g' b)"
  shows "simulates \<alpha> (case x of Panic \<Rightarrow> f | Value b \<Rightarrow> g b)
                      (case x of Panic \<Rightarrow> f' | Value b \<Rightarrow> g' b)"
  using assms by (cases x) simp_all

lemma simulates_list [sim_intros]:
  assumes "simulates \<alpha> f f'" and "\<And>b bs. simulates \<alpha> (g b bs) (g' b bs)"
  shows "simulates \<alpha> (case x of [] \<Rightarrow> f | b # bs \<Rightarrow> g b bs)
                      (case x of [] \<Rightarrow> f' | b # bs \<Rightarrow> g' b bs)"
  using assms by (cases x) simp_all

lemma simulates_prod [sim_intros]:
  assumes "\<And>a b. simulates \<alpha> (f a b) (f' a b)"
  shows "simulates \<alpha> (case x of (a, b) \<Rightarrow> f a b) (case x of (a, b) \<Rightarrow> f' a b)"
  using assms by (cases x) simp

lemma simulates_if [sim_intros]:
  assumes "simulates \<alpha> m m'" and "simulates \<alpha> n n'"
  shows "simulates \<alpha> (if b then m else n) (if b then m' else n')"
  using assms by simp

lemma simulates_let [sim_intros]:
  assumes "\<And>x. simulates \<alpha> (f x) (f' x)"
  shows "simulates \<alpha> (let x = t in f x) (let x = t in f' x)"
  using assms by (simp add: Let_def)

section \<open>Results in every world\<close>

text \<open>\<open>always Q m\<close>: whatever the world does, the result of \<open>m\<close> satisfies \<open>Q\<close>.\<close>

definition always :: "('a \<Rightarrow> bool) \<Rightarrow> ('w, 'a) go \<Rightarrow> bool" where
  "always Q m \<longleftrightarrow> (\<forall>w. Q (fst (run_state m w)))"

lemma alwaysD: "always Q m \<Longrightarrow> Q (fst (run_state m w))"
  by (simp add: always_def)

lemma always_True [simp]: "always (\<lambda>_. True) m"
  by (simp add: always_def)

lemma always_ret [simp]: "always Q (ret a) \<longleftrightarrow> Q a"
  by (simp add: always_def)

lemma always_bind:
  assumes "always P m" and "\<And>a. P a \<Longrightarrow> always Q (k a)"
  shows "always Q (Monad_Syntax.bind m k)"
  unfolding always_def
proof
  fix w
  obtain a w' where m: "run_state m w = (a, w')" by (cases "run_state m w")
  with assms(1) have "P a" by (metis alwaysD fst_conv)
  then have "always Q (k a)" by (rule assms(2))
  then have "Q (fst (run_state (k a) w'))" by (rule alwaysD)
  then show "Q (fst (run_state (Monad_Syntax.bind m k) w))" by (simp add: m)
qed

text \<open>The common case, in which only the continuation decides.\<close>

lemma always_bind_any [always_intros]:
  assumes "\<And>a. always Q (k a)"
  shows "always Q (Monad_Syntax.bind m k)"
  using always_bind [OF always_True assms] .

lemma always_sum [always_intros]:
  assumes "\<And>a. x = Inl a \<Longrightarrow> always Q (f a)" and "\<And>b. x = Inr b \<Longrightarrow> always Q (g b)"
  shows "always Q (case x of Inl a \<Rightarrow> f a | Inr b \<Rightarrow> g b)"
  using assms by (cases x) simp_all

lemma always_option [always_intros]:
  assumes "x = None \<Longrightarrow> always Q f" and "\<And>b. x = Some b \<Longrightarrow> always Q (g b)"
  shows "always Q (case x of None \<Rightarrow> f | Some b \<Rightarrow> g b)"
  using assms by (cases x) simp_all

lemma always_outcome [always_intros]:
  assumes "x = Panic \<Longrightarrow> always Q f" and "\<And>b. x = Value b \<Longrightarrow> always Q (g b)"
  shows "always Q (case x of Panic \<Rightarrow> f | Value b \<Rightarrow> g b)"
  using assms by (cases x) simp_all

lemma always_list [always_intros]:
  assumes "x = [] \<Longrightarrow> always Q f" and "\<And>b bs. x = b # bs \<Longrightarrow> always Q (g b bs)"
  shows "always Q (case x of [] \<Rightarrow> f | b # bs \<Rightarrow> g b bs)"
  using assms by (cases x) simp_all

lemma always_prod [always_intros]:
  assumes "\<And>a b. x = (a, b) \<Longrightarrow> always Q (f a b)"
  shows "always Q (case x of (a, b) \<Rightarrow> f a b)"
  using assms by (cases x) simp

lemma always_if [always_intros]:
  assumes "b \<Longrightarrow> always Q m" and "\<not> b \<Longrightarrow> always Q n"
  shows "always Q (if b then m else n)"
  using assms by simp

lemma always_let [always_intros]:
  assumes "always Q (f t)"
  shows "always Q (let x = t in f x)"
  using assms by simp


section \<open>Runs within a relation\<close>

text \<open>
  \<open>steers R Q m\<close>: every run of \<open>m\<close> moves the world along \<open>R\<close> and has a result in
  \<open>Q\<close>.  For a preorder \<open>R\<close> the rules are compositional.
\<close>

named_theorems steers_intros \<open>introduction rules for runs within a relation\<close>

definition steers :: "('w \<Rightarrow> 'w \<Rightarrow> bool) \<Rightarrow> ('a \<Rightarrow> bool) \<Rightarrow> ('w, 'a) go \<Rightarrow> bool" where
  "steers R Q m \<longleftrightarrow> (\<forall>w. R w (snd (run_state m w)) \<and> Q (fst (run_state m w)))"

definition preorderly :: "('w \<Rightarrow> 'w \<Rightarrow> bool) \<Rightarrow> bool" where
  "preorderly R \<longleftrightarrow> (\<forall>w. R w w) \<and> (\<forall>u v w. R u v \<longrightarrow> R v w \<longrightarrow> R u w)"

lemma steersD: "steers R Q m \<Longrightarrow> run_state m w = (a, w') \<Longrightarrow> R w w' \<and> Q a"
  by (auto simp: steers_def dest: spec [of _ w])

lemma steers_ret: "preorderly R \<Longrightarrow> Q a \<Longrightarrow> steers R Q (ret a)"
  by (simp add: steers_def preorderly_def)

lemma steers_bind:
  assumes "preorderly R" and "steers R P m" and "\<And>a. P a \<Longrightarrow> steers R Q (k a)"
  shows "steers R Q (Monad_Syntax.bind m k)"
  unfolding steers_def
proof
  fix w
  obtain a w1 where m: "run_state m w = (a, w1)" by (cases "run_state m w")
  have 1: "R w w1" "P a" using steersD [OF assms(2) m] by simp_all
  obtain b w2 where k: "run_state (k a) w1 = (b, w2)" by (cases "run_state (k a) w1")
  have "R w1 w2" "Q b" using steersD [OF assms(3) [OF 1(2)] k] by simp_all
  with 1 assms(1) have "R w w2" unfolding preorderly_def by blast
  with \<open>Q b\<close> show "R w (snd (run_state (Monad_Syntax.bind m k) w)) \<and>
      Q (fst (run_state (Monad_Syntax.bind m k) w))"
    by (simp add: m k)
qed

lemma steers_weaken: "steers R P m \<Longrightarrow> (\<And>a. P a \<Longrightarrow> Q a) \<Longrightarrow> steers R Q m"
  by (simp add: steers_def)

lemma steers_sum [steers_intros]:
  assumes "\<And>a. x = Inl a \<Longrightarrow> steers R Q (f a)" and "\<And>b. x = Inr b \<Longrightarrow> steers R Q (g b)"
  shows "steers R Q (case x of Inl a \<Rightarrow> f a | Inr b \<Rightarrow> g b)"
  using assms by (cases x) simp_all

lemma steers_option [steers_intros]:
  assumes "x = None \<Longrightarrow> steers R Q f" and "\<And>b. x = Some b \<Longrightarrow> steers R Q (g b)"
  shows "steers R Q (case x of None \<Rightarrow> f | Some b \<Rightarrow> g b)"
  using assms by (cases x) simp_all

lemma steers_outcome [steers_intros]:
  assumes "x = Panic \<Longrightarrow> steers R Q f" and "\<And>b. x = Value b \<Longrightarrow> steers R Q (g b)"
  shows "steers R Q (case x of Panic \<Rightarrow> f | Value b \<Rightarrow> g b)"
  using assms by (cases x) simp_all

lemma steers_list [steers_intros]:
  assumes "x = [] \<Longrightarrow> steers R Q f" and "\<And>b bs. x = b # bs \<Longrightarrow> steers R Q (g b bs)"
  shows "steers R Q (case x of [] \<Rightarrow> f | b # bs \<Rightarrow> g b bs)"
  using assms by (cases x) simp_all

lemma steers_prod [steers_intros]:
  assumes "\<And>a b. x = (a, b) \<Longrightarrow> steers R Q (f a b)"
  shows "steers R Q (case x of (a, b) \<Rightarrow> f a b)"
  using assms by (cases x) simp

lemma steers_if [steers_intros]:
  assumes "b \<Longrightarrow> steers R Q m" and "\<not> b \<Longrightarrow> steers R Q n"
  shows "steers R Q (if b then m else n)"
  using assms by simp

lemma steers_let [steers_intros]: "steers R Q (f t) \<Longrightarrow> steers R Q (let x = t in f x)"
  by simp

end
