(* ===== verification/Go_Strings.thy ===== *)
theory Go_Strings
  imports Prelude
begin

text \<open>
  The string routines of Go's standard library that the operator uses: the verbs
  \<open>%d\<close> of \<open>fmt.Sprintf\<close>, \<open>strings.Join\<close>, \<open>strings.Split\<close> with a one-byte
  separator, and \<open>sort.Strings\<close>.  A Go string is a byte sequence, here a \<open>char list\<close>
  (a \<open>char\<close> is a byte), so the library's lexicographic order is Go's.

  The facts the components rely on: decimal printing can be read back, hence is injective;
  splitting a joined list gives the list back when no element holds the separator.
\<close>

section \<open>Decimal printing\<close>

definition digitChar :: "nat \<Rightarrow> char" where
  "digitChar d = char_of (48 + d)"

fun utoa :: "nat \<Rightarrow> string" where
  "utoa n = (if n < 10 then [digitChar n] else utoa (n div 10) @ [digitChar (n mod 10)])"

declare utoa.simps [simp del]

definition itoa :: "int \<Rightarrow> string" where
  "itoa i = (if i < 0 then CHR ''-'' # utoa (nat (- i)) else utoa (nat i))"

text \<open>Reading a decimal numeral back.\<close>

definition readDecimal :: "string \<Rightarrow> nat" where
  "readDecimal s = foldl (\<lambda>acc c. 10 * acc + (of_char c - 48)) 0 s"

lemma of_char_digitChar: "d < 10 \<Longrightarrow> (of_char (digitChar d) :: nat) = 48 + d"
  by (simp add: digitChar_def)

lemma readDecimal_utoa [simp]: "readDecimal (utoa n) = n"
proof (induction n rule: utoa.induct)
  case (1 n)
  then show ?case
    by (subst utoa.simps) (auto simp: readDecimal_def of_char_digitChar)
qed

lemma utoa_inject [simp]: "utoa m = utoa n \<longleftrightarrow> m = n"
  by (metis readDecimal_utoa)

lemma utoa_digits: "set (utoa n) \<subseteq> digitChar ` {..<10}"
proof (induction n rule: utoa.induct)
  case (1 n)
  then show ?case by (subst utoa.simps) auto
qed

lemma digitChar_not_dash: "d < 10 \<Longrightarrow> digitChar d \<noteq> CHR ''-''"
  using of_char_digitChar [of d] by force

lemma dash_notin_utoa: "CHR ''-'' \<notin> set (utoa n)"
proof
  assume "CHR ''-'' \<in> set (utoa n)"
  then obtain d where "d < 10" and d: "CHR ''-'' = digitChar d"
    using utoa_digits [of n] by blast
  then have "digitChar d \<noteq> CHR ''-''" by (intro digitChar_not_dash)
  then show False using d [symmetric] by (rule notE)
qed

lemma itoa_inject [simp]: "itoa i = itoa j \<longleftrightarrow> i = j"
proof -
  have "CHR ''-'' # xs \<noteq> utoa n" for xs n
    using dash_notin_utoa [of n] by (metis list.set_intros(1))
  then show ?thesis by (auto simp: itoa_def dest: sym)
qed

section \<open>strings.Join and strings.Split\<close>

fun joinStrings :: "string \<Rightarrow> string list \<Rightarrow> string" where
  "joinStrings sep [] = []"
| "joinStrings sep [x] = x"
| "joinStrings sep (x # y # xs) = x @ sep @ joinStrings sep (y # xs)"

fun splitString :: "char \<Rightarrow> string \<Rightarrow> string list" where
  "splitString c [] = [[]]"
| "splitString c (x # xs) =
     (if x = c then [] # splitString c xs
      else (case splitString c xs of [] \<Rightarrow> [[x]] | y # ys \<Rightarrow> (x # y) # ys))"

lemma splitString_nonempty [simp]: "splitString c s \<noteq> []"
  by (induction s) (auto split: list.splits)

lemma splitString_no_sep: "c \<notin> set s \<Longrightarrow> splitString c s = [s]"
  by (induction s) auto

lemma splitString_append_sep:
  "c \<notin> set s \<Longrightarrow> splitString c (s @ c # t) = s # splitString c t"
  by (induction s) auto

lemma length_splitString: "length (splitString c s) = Suc (count_list s c)"
  by (induction s) (auto split: list.splits)

lemma splitString_pieces: "p \<in> set (splitString c s) \<Longrightarrow> c \<notin> set p"
proof (induction s arbitrary: p)
  case (Cons x s)
  then show ?case by (cases "splitString c s") (auto split: if_splits)
qed simp

lemma joinStrings_Cons:
  "xs \<noteq> [] \<Longrightarrow> joinStrings sep (x # xs) = x @ sep @ joinStrings sep xs"
  by (cases xs) simp_all

lemma joinStrings_push: "joinStrings sep ((x # y) # ys) = x # joinStrings sep (y # ys)"
  by (cases ys) simp_all

lemma join_split [simp]: "joinStrings [c] (splitString c s) = s"
proof (induction s)
  case (Cons x s)
  then show ?case
    by (cases "splitString c s" rule: list.exhaust)
       (auto simp: joinStrings_Cons joinStrings_push)
qed simp

lemma split_join:
  "xs \<noteq> [] \<Longrightarrow> \<forall>x \<in> set xs. c \<notin> set x \<Longrightarrow> splitString c (joinStrings [c] xs) = xs"
proof (induction "[c]" xs rule: joinStrings.induct)
  case (3 x y xs)
  then show ?case by (simp add: splitString_append_sep)
qed (simp_all add: splitString_no_sep)

text \<open>The second element of a split, as \<open>strings.Split(s, c)[1]\<close>; \<open>None\<close> is the panic.\<close>

definition nth_checked :: "'a list \<Rightarrow> nat \<Rightarrow> 'a option" where
  "nth_checked xs i = (if i < length xs then Some (xs ! i) else None)"

lemma nth_checked_simps [simp]:
  "nth_checked [] i = None"
  "nth_checked (x # xs) 0 = Some x"
  "nth_checked (x # xs) (Suc i) = nth_checked xs i"
  by (simp_all add: nth_checked_def)

section \<open>sort.Strings and sort.Ints\<close>

text \<open>
  On a linear order all sorting algorithms agree, so both are the library's \<open>sort\<close>.
\<close>

definition sortStrings :: "string list \<Rightarrow> string list" where
  "sortStrings xs = sort xs"

definition sortInts :: "int list \<Rightarrow> int list" where
  "sortInts xs = sort xs"

lemma set_sortStrings [simp]: "set (sortStrings xs) = set xs"
  by (simp add: sortStrings_def)

lemma sortStrings_Nil_iff [simp]: "sortStrings xs = [] \<longleftrightarrow> xs = []"
  by (metis set_empty set_sortStrings)

lemma sortStrings_eq_iff: "sortStrings xs = sortStrings ys \<longleftrightarrow> mset xs = mset ys"
  unfolding sortStrings_def by (metis mset_sort properties_for_sort sorted_sort)

end
