(* ===== verification/Api_Types.thy ===== *)
theory Api_Types
  imports Prelude
begin

text \<open>
  The data of the operator: the two custom resources of \<open>api/v1\<close> (VillipProxy and
  VillipRules) and the Kubernetes objects the reconcilers build and read (Deployment, Service,
  ConfigMap, Condition).  Kubernetes structs carry the fields that the source names, plus the
  fields \<open>reflect.DeepEqual\<close> compares in a \<open>ContainerPort\<close> and a
  \<open>ServicePort\<close>; the remaining fields of an object read from the API server are
  neither read nor written by the code and travel unchanged.

  Widths are Go's: \<open>uint16\<close> is \<open>16 word\<close>, \<open>int32\<close> is \<open>32 word\<close>, a pointer
  field is an \<open>option\<close> with \<open>None\<close> for nil.
\<close>

section \<open>The group and version of the resources\<close>

record groupVersion =
  gvGroup :: string
  gvVersion :: string

definition groupVersionV1 :: groupVersion where
  "groupVersionV1 = \<lparr>gvGroup = ''villip.carmier.fr'', gvVersion = ''v1''\<rparr>"

lemma groupVersionV1_sel [simp]:
  "gvGroup groupVersionV1 = ''villip.carmier.fr''" "gvVersion groupVersionV1 = ''v1''"
  by (simp_all add: groupVersionV1_def)

section \<open>Object metadata\<close>

record ownerReference =
  ownerAPIVersion :: string
  ownerKind :: string
  ownerName :: string
  ownerController :: "bool option"

record objectMeta =
  metaName :: string
  metaNamespace :: string
  metaResourceVersion :: nat
  metaLabels :: stringMap
  metaAnnotations :: stringMap
  metaFinalizers :: "string list"
  metaDeletionTimestamp :: "int option"
  metaOwnerReferences :: "ownerReference list"

text \<open>The zero value of \<open>metav1.ObjectMeta\<close>, from which composite literals start.\<close>

definition emptyMeta :: objectMeta where
  "emptyMeta =
     \<lparr>metaName = '''', metaNamespace = '''', metaResourceVersion = 0,
      metaLabels = Map.empty, metaAnnotations = Map.empty, metaFinalizers = [],
      metaDeletionTimestamp = None, metaOwnerReferences = []\<rparr>"

record namespacedName =
  nnNamespace :: string
  nnName :: string

definition keyOf :: "objectMeta \<Rightarrow> namespacedName" where
  "keyOf m = \<lparr>nnNamespace = metaNamespace m, nnName = metaName m\<rparr>"

datatype conditionStatus = ConditionTrue | ConditionFalse | ConditionUnknown

text \<open>\<open>metav1.Condition\<close>; a zero \<open>lastTransitionTime\<close> is \<open>None\<close>.\<close>

record condition =
  conditionType :: string
  conditionStatus :: conditionStatus
  conditionReason :: string
  conditionMessage :: string
  conditionTransition :: "int option"

definition mkCondition :: "string \<Rightarrow> conditionStatus \<Rightarrow> string \<Rightarrow> string \<Rightarrow> condition" where
  "mkCondition t s r m =
     \<lparr>conditionType = t, conditionStatus = s, conditionReason = r, conditionMessage = m,
      conditionTransition = None\<rparr>"

section \<open>VillipProxy\<close>

record villipProxyRuleset =
  matchLabels :: stringMap

record villipProxyTarget =
  targetNamespace :: string
  targetName :: string
  targetPort :: "16 word"
  targetUri :: string

record villipImage =
  imageName :: string
  imageTag :: string

record villipProxySpec =
  specDebug :: bool
  specImage :: villipImage
  specPorts :: "16 word list"
  specRuleset :: "villipProxyRuleset list"
  specTarget :: villipProxyTarget
  specSize :: "32 word"

record villipProxyStatus =
  proxyConditions :: "condition list"

record villipProxy =
  proxyMeta :: objectMeta
  proxySpec :: villipProxySpec
  proxyStatus :: villipProxyStatus

section \<open>VillipRules\<close>

text \<open>
  The filter types come from the villip module, which is not part of the repository; their
  fields are those of the generated schema \<open>config/crd/bases\<close>.
\<close>

record cdump =
  dumpFolder :: string
  dumpUrls :: "string list"

record creplacement =
  replaceFrom :: string
  replaceTo :: string
  replaceUrls :: "string list"

record cheader =
  headerAdd :: bool
  headerForce :: bool
  headerName :: string
  headerUuid :: bool
  headerValue :: string

record caction =
  actionHeader :: "cheader list"
  actionReplace :: "creplacement list"

record ctokenAction =
  tokenAction :: string
  tokenHeader :: string
  tokenValue :: string

record villipRulesSpec =
  ruleContentTypes :: "string list"
  ruleDump :: cdump
  ruleForce :: bool
  ruleInsecure :: bool
  rulePort :: "64 word"
  rulePrefix :: "creplacement list"
  rulePriority :: "8 word"
  ruleReplace :: "creplacement list"
  ruleRequest :: caction
  ruleResponse :: caction
  ruleRestricted :: "string list"
  ruleStatus :: "string list"
  ruleToken :: "ctokenAction list"
  ruleType :: string

record villipRulesStatus =
  rulesConditions :: "condition list"
  lastSum :: string

record villipRules =
  rulesMeta :: objectMeta
  rulesSpec :: villipRulesSpec
  rulesStatus :: villipRulesStatus

section \<open>Workload objects\<close>

record containerPort =
  cportName :: string
  cportHostPort :: "32 word"
  cportContainerPort :: "32 word"
  cportProtocol :: string
  cportHostIP :: string

datatype intOrString = IntVal "32 word" | StrVal string

record servicePort =
  sportName :: string
  sportProtocol :: string
  sportAppProtocol :: "string option"
  sportPort :: "32 word"
  sportTargetPort :: intOrString
  sportNodePort :: "32 word"

record volumeMount =
  mountName :: string
  mountPath :: string

text \<open>A volume whose source, if any, is a ConfigMap: the name it refers to.\<close>

record volume =
  volumeName :: string
  volumeConfigMap :: "string option"

record envVar =
  envName :: string
  envValue :: string

record containerSecurityContext =
  ctxRunAsNonRoot :: "bool option"
  ctxRunAsUser :: "64 word option"
  ctxAllowPrivilegeEscalation :: "bool option"
  ctxCapabilitiesDrop :: "string list"

record probe =
  probeHttpPort :: intOrString
  probeInitialDelaySeconds :: "32 word"
  probePeriodSeconds :: "32 word"

record container =
  containerImage :: string
  containerName :: string
  containerPullPolicy :: string
  containerSecurity :: "containerSecurityContext option"
  containerEnv :: "envVar list"
  containerPorts :: "containerPort slice"
  containerMounts :: "volumeMount list"
  containerLiveness :: "probe option"
  containerReadiness :: "probe option"

record podSpec =
  podRunAsNonRoot :: "bool option"
  podSeccomp :: "string option"
  podVolumes :: "volume list"
  podContainers :: "container list"

record deploymentSpec =
  deploymentReplicas :: "32 word option"
  deploymentMatchLabels :: stringMap
  templateMeta :: objectMeta
  templateSpec :: podSpec

record deployment =
  deploymentMeta :: objectMeta
  deploymentSpec :: deploymentSpec

record serviceSpec =
  servicePorts :: "servicePort slice"
  serviceSelector :: stringMap

record service =
  serviceMeta :: objectMeta
  serviceSpec :: serviceSpec

record configMap =
  configMapMeta :: objectMeta
  configMapData :: stringMap

section \<open>Reconcile results\<close>

text \<open>\<open>time.Duration\<close> counts nanoseconds.\<close>

record reconcileResult =
  requeue :: bool
  requeueAfter :: int

definition noRequeue :: reconcileResult where
  "noRequeue = \<lparr>requeue = False, requeueAfter = 0\<rparr>"

definition requeueMinute :: reconcileResult where
  "requeueMinute = \<lparr>requeue = False, requeueAfter = 60 * 1000000000\<rparr>"

lemma requeueMinute_noRequeue [simp]:
  "requeueMinute \<noteq> noRequeue" "noRequeue \<noteq> requeueMinute"
  by (simp_all add: requeueMinute_def noRequeue_def)

lemma keyOf_sel [simp]:
  "nnNamespace (keyOf m) = metaNamespace m" "nnName (keyOf m) = metaName m"
  by (simp_all add: keyOf_def)

end
