(* ===== verification/Reconciler.thy ===== *)
theory Reconciler
  imports Go_Strings Api_Types
begin

text \<open>
  The parameters of the model: everything the operator calls that is not part of its
  repository.  \<open>lib\<close> holds the pure helpers of apimachinery, controller-runtime and yaml;
  \<open>'w reconciler\<close> is the receiver \<open>r\<close> of the reconcilers' methods, that is the embedded
  \<open>client.Client\<close>, the event recorder and the clock, as computations over a world
  \<open>'w\<close>, together with those helpers (\<open>Scheme\<close> is only passed on to
  \<open>SetControllerReference\<close>).  None of them is defined here; the properties name what they
  assume of them.

  A call \<open>r.Update(ctx, obj)\<close> overwrites \<open>obj\<close> with the server's answer, so an
  update or create returns either an error, with \<open>obj\<close> as it was, or the new object.
\<close>

datatype controllerOwner = ProxyOwner villipProxy | RulesOwner villipRules

record lib =
  intstrFromInt :: "int \<Rightarrow> intOrString"
  setStatusConditionAt :: "int \<Rightarrow> condition list \<Rightarrow> condition \<Rightarrow> condition list"
  containsFinalizer :: "string list \<Rightarrow> string \<Rightarrow> bool"
  controllerutilAddFinalizer :: "string list \<Rightarrow> string \<Rightarrow> string list \<times> bool"
  controllerutilRemoveFinalizer :: "string list \<Rightarrow> string \<Rightarrow> string list \<times> bool"
  setControllerReference :: "controllerOwner \<Rightarrow> objectMeta \<Rightarrow> goError + objectMeta"
  getControllerOf :: "objectMeta \<Rightarrow> ownerReference option"
  groupVersionString :: "string \<Rightarrow> string \<Rightarrow> string"
  yamlMarshal :: "villipRulesSpec \<Rightarrow> goError + string"

record rawPatch =
  patchType :: string
  patchData :: string

record 'w reconciler =
  lib :: lib
  apiGetProxy :: "namespacedName \<Rightarrow> ('w, goError + villipProxy) go"
  apiUpdateProxy :: "villipProxy \<Rightarrow> ('w, goError + villipProxy) go"
  apiUpdateProxyStatus :: "villipProxy \<Rightarrow> ('w, goError + villipProxy) go"
  apiGetRules :: "namespacedName \<Rightarrow> ('w, goError + villipRules) go"
  apiUpdateRules :: "villipRules \<Rightarrow> ('w, goError + villipRules) go"
  apiUpdateRulesStatus :: "villipRules \<Rightarrow> ('w, goError + villipRules) go"
  apiPatchRules :: "villipRules \<Rightarrow> rawPatch \<Rightarrow> ('w, goError + villipRules) go"
  apiGetDeployment :: "namespacedName \<Rightarrow> ('w, goError + deployment) go"
  apiCreateDeployment :: "deployment \<Rightarrow> ('w, goError + deployment) go"
  apiUpdateDeployment :: "deployment \<Rightarrow> ('w, goError + deployment) go"
  apiListDeployments :: "string \<Rightarrow> string \<Rightarrow> ('w, goError + deployment list) go"
  apiGetService :: "namespacedName \<Rightarrow> ('w, goError + service) go"
  apiCreateService :: "service \<Rightarrow> ('w, goError + service) go"
  apiUpdateService :: "service \<Rightarrow> ('w, goError + service) go"
  apiGetConfigMap :: "namespacedName \<Rightarrow> ('w, goError + configMap) go"
  apiCreateConfigMap :: "configMap \<Rightarrow> ('w, goError + configMap) go"
  apiUpdateConfigMap :: "configMap \<Rightarrow> ('w, goError + configMap) go"
  apiListConfigMaps :: "string \<Rightarrow> stringMap \<Rightarrow> ('w, goError + configMap list) go"
  recordEvent :: "namespacedName \<Rightarrow> string \<Rightarrow> string \<Rightarrow> string \<Rightarrow> ('w, unit) go"
  timeNow :: "('w, int) go"
  timeNowString :: "('w, string) go"

section \<open>The names both controllers share\<close>

text \<open>
  Both controllers use the same finalizer and the same two condition types.
\<close>

definition villipproxyFinalizer :: string where
  "villipproxyFinalizer = ''villip.carmier.fr/finalizer''"

definition villiprulesFinalizer :: string where
  "villiprulesFinalizer = ''villip.carmier.fr/finalizer''"

definition typeAvailableVillipProxy :: string where
  "typeAvailableVillipProxy = ''Available''"

definition typeDegradedVillipProxy :: string where
  "typeDegradedVillipProxy = ''Degraded''"

definition typeAvailableVillipRules :: string where
  "typeAvailableVillipRules = ''Available''"

definition typeDegradedVillipRules :: string where
  "typeDegradedVillipRules = ''Degraded''"

text \<open>The annotation that ties a Deployment to the ConfigMaps it mounts.\<close>

definition confAnnotation :: string where
  "confAnnotation = ''villip.carmier.fr/conf''"

section \<open>meta.SetStatusCondition on the two resources\<close>

definition setProxyCondition :: "'w reconciler \<Rightarrow> villipProxy \<Rightarrow> condition \<Rightarrow> ('w, villipProxy) go" where
  "setProxyCondition r p c = do {
     t \<leftarrow> timeNow r;
     ret (p\<lparr>proxyStatus := (proxyStatus p)\<lparr>proxyConditions :=
            setStatusConditionAt (lib r) t (proxyConditions (proxyStatus p)) c\<rparr>\<rparr>)
   }"

definition setRulesCondition :: "'w reconciler \<Rightarrow> villipRules \<Rightarrow> condition \<Rightarrow> ('w, villipRules) go" where
  "setRulesCondition r p c = do {
     t \<leftarrow> timeNow r;
     ret (p\<lparr>rulesStatus := (rulesStatus p)\<lparr>rulesConditions :=
            setStatusConditionAt (lib r) t (rulesConditions (rulesStatus p)) c\<rparr>\<rparr>)
   }"

text \<open>
  The step every error path of the proxy controller shares: set a condition and write the
  status; \<open>None\<close> is success, and the proxy is the object afterwards.
\<close>

definition setProxyStatus ::
  "'w reconciler \<Rightarrow> villipProxy \<Rightarrow> condition \<Rightarrow> ('w, goError option \<times> villipProxy) go" where
  "setProxyStatus r p c = do {
     p \<leftarrow> setProxyCondition r p c;
     res \<leftarrow> apiUpdateProxyStatus r p;
     (case res of
        Inl err \<Rightarrow> ret (Some err, p)
      | Inr p' \<Rightarrow> ret (None, p'))
   }"

definition setRulesStatus ::
  "'w reconciler \<Rightarrow> villipRules \<Rightarrow> condition \<Rightarrow> ('w, goError option \<times> villipRules) go" where
  "setRulesStatus r p c = do {
     p \<leftarrow> setRulesCondition r p c;
     res \<leftarrow> apiUpdateRulesStatus r p;
     (case res of
        Inl err \<Rightarrow> ret (Some err, p)
      | Inr p' \<Rightarrow> ret (None, p'))
   }"

end
