(* ===== verification/Proxy_Ports.thy ===== *)
theory Proxy_Ports
  imports Reconciler
begin

text \<open>
  The ports of a proxy (\<open>sortedPortsOfVillipProxy\<close>, \<open>portsForVillipProxyService\<close>
  and \<open>portsForVillipProxyDeployment\<close>).  Both renderings start from the sorted port list;
  what they need of it is the locale \<open>port_order\<close>, interpreted on
  \<open>sortedPortsOfVillipProxy\<close>: the order in which a user writes the ports does not matter,
  and no port is lost or duplicated.
\<close>

fun sortedPortsOfVillipProxy :: "16 word list \<Rightarrow> int list" where
  "sortedPortsOfVillipProxy ports = sortInts (map uint ports)"

definition servicePortFor :: "lib \<Rightarrow> int \<Rightarrow> servicePort" where
  "servicePortFor l p =
     \<lparr>sportName = ''port'' @ itoa p, sportProtocol = ''TCP'', sportAppProtocol = None,
      sportPort = word_of_int p, sportTargetPort = intstrFromInt l p, sportNodePort = 0\<rparr>"

definition portsForVillipProxyService :: "lib \<Rightarrow> 16 word list \<Rightarrow> servicePort slice" where
  "portsForVillipProxyService l pports =
     Some (foldl (\<lambda>ports p. ports @ [servicePortFor l p]) [] (sortedPortsOfVillipProxy pports))"

definition containerPortFor :: "int \<Rightarrow> containerPort" where
  "containerPortFor p =
     \<lparr>cportName = '''', cportHostPort = 0, cportContainerPort = word_of_int p,
      cportProtocol = ''TCP'', cportHostIP = ''''\<rparr>"

definition portsForVillipProxyDeployment :: "16 word list \<Rightarrow> containerPort slice" where
  "portsForVillipProxyDeployment pports =
     Some (foldl (\<lambda>ports p. ports @ [containerPortFor p]) [] (sortedPortsOfVillipProxy pports))"

section \<open>The append loop\<close>

lemma foldl_snoc: "foldl (\<lambda>ys x. ys @ [f x]) acc xs = acc @ map f xs"
  by (induction xs arbitrary: acc) simp_all

lemma portsForVillipProxyService_eq:
  "portsForVillipProxyService l ps = Some (map (servicePortFor l) (sortedPortsOfVillipProxy ps))"
  by (simp add: portsForVillipProxyService_def foldl_snoc)

lemma portsForVillipProxyDeployment_eq:
  "portsForVillipProxyDeployment ps = Some (map containerPortFor (sortedPortsOfVillipProxy ps))"
  by (simp add: portsForVillipProxyDeployment_def foldl_snoc)

section \<open>The contract of the port order\<close>

locale port_order =
  fixes order :: "16 word list \<Rightarrow> int list"
  assumes order_mset: "mset (order ps) = mset (map uint ps)"
    and order_canonical: "mset ps = mset qs \<Longrightarrow> order ps = order qs"
begin

lemma order_set: "set (order ps) = uint ` set ps"
  using arg_cong [OF order_mset [of ps], of set_mset] by simp

lemma order_length: "length (order ps) = length ps"
  using arg_cong [OF order_mset [of ps], of size] by simp

lemma order_bounds: "p \<in> set (order ps) \<Longrightarrow> 0 \<le> p \<and> p < 65536"
  using unsigned_less [where 'a = int and 'b = 16] by (auto simp: order_set)

lemma order_eq_iff: "order ps = order qs \<longleftrightarrow> mset ps = mset qs"
proof
  assume "order ps = order qs"
  then have "image_mset uint (mset ps) = image_mset uint (mset qs)"
    by (metis order_mset mset_map)
  then show "mset ps = mset qs"
    by (rule multiset.inj_map_strong [rotated]) (simp add: unsigned_word_eqI)
qed (rule order_canonical)

lemma order_distinct: "distinct (order ps) \<longleftrightarrow> distinct ps"
proof -
  have "distinct (order ps) \<longleftrightarrow> distinct (map uint ps)"
    by (rule mset_eq_imp_distinct_iff) (rule order_mset)
  then show ?thesis by (auto simp: distinct_map inj_on_def intro: unsigned_word_eqI)
qed

text \<open>
  Rendering the ordered ports with any function that is injective on port numbers is a
  faithful picture of the port multiset.
\<close>

lemma render_eq_iff:
  assumes "inj_on f {0..<65536}"
  shows "map f (order ps) = map f (order qs) \<longleftrightarrow> mset ps = mset qs"
proof
  assume eq: "map f (order ps) = map f (order qs)"
  have "set (order rs) \<subseteq> {0..<65536}" for rs
    using order_bounds [of _ rs] by fastforce
  then have "inj_on f (set (order ps) \<union> set (order qs))"
    using inj_on_subset [OF assms] by simp
  with eq have "order ps = order qs" by (rule map_inj_on)
  then show "mset ps = mset qs" by (simp add: order_eq_iff)
next
  assume "mset ps = mset qs"
  then show "map f (order ps) = map f (order qs)" by (rule arg_cong [OF order_canonical])
qed

end

lemma sorted_sortedPortsOfVillipProxy: "sorted (sortedPortsOfVillipProxy ps)"
  by (simp add: sortInts_def)

interpretation ports: port_order sortedPortsOfVillipProxy
proof
  show "mset (sortedPortsOfVillipProxy ps) = mset (map uint ps)" for ps
    by (simp add: sortInts_def)
  show "sortedPortsOfVillipProxy ps = sortedPortsOfVillipProxy qs" if "mset ps = mset qs" for ps qs
  proof -
    from that have "mset (map uint ps) = mset (map uint qs)" by simp
    then show ?thesis by (simp add: sortInts_def properties_for_sort)
  qed
qed

section \<open>Rendered ports\<close>

lemma word_of_port_inject:
  "0 \<le> p \<Longrightarrow> p < 65536 \<Longrightarrow> 0 \<le> q \<Longrightarrow> q < 65536 \<Longrightarrow>
     (word_of_int p :: 32 word) = word_of_int q \<longleftrightarrow> p = q"
proof
  assume b: "0 \<le> p" "p < 65536" "0 \<le> q" "q < 65536"
    and eq: "(word_of_int p :: 32 word) = word_of_int q"
  have p: "uint (word_of_int p :: 32 word) = p" using b(1,2) by (simp add: uint_word_of_int)
  have q: "uint (word_of_int q :: 32 word) = q" using b(3,4) by (simp add: uint_word_of_int)
  from arg_cong [OF eq, of uint] show "p = q" unfolding p q .
qed simp

lemma inj_containerPortFor: "inj_on containerPortFor {0..<65536}"
  by (auto simp: inj_on_def containerPortFor_def word_of_port_inject)

lemma inj_servicePortFor: "inj_on (servicePortFor l) {0..<65536}"
  by (auto simp: inj_on_def servicePortFor_def)

lemma inj_servicePortName: "inj (\<lambda>p. sportName (servicePortFor l p))"
  by (auto simp: inj_on_def servicePortFor_def)

declare sortedPortsOfVillipProxy.simps [simp del]

end
