(* ===== verification/Proxy_Deployment.thy ===== *)
theory Proxy_Deployment
  imports Proxy_Ports
begin

text \<open>
  \<open>internal/controller/villipproxy_controller deployments.go\<close>: the Deployment of a proxy.
  The ruleset selectors are resolved to ConfigMaps, whose sorted names are written into the
  annotation \<open>villip.carmier.fr/conf\<close> (\<open>mountsForVillipProxy\<close>) and compared with it
  on the next pass (\<open>isRulesetsChanged\<close>).
\<close>

section \<open>Pure parts\<close>

definition imageForVillipProxy :: "villipProxy \<Rightarrow> string" where
  "imageForVillipProxy proxy =
     imageName (specImage (proxySpec proxy)) @ '':'' @ imageTag (specImage (proxySpec proxy))"

definition labelsForVillipProxy :: "villipProxy \<Rightarrow> stringMap outcome" where
  "labelsForVillipProxy proxy =
     (case nth_checked (splitString (CHR '':'') (imageForVillipProxy proxy)) 1 of
        None \<Rightarrow> Panic
      | Some tag \<Rightarrow>
          Value ([''app.kubernetes.io/name'' \<mapsto> metaName (proxyMeta proxy),
                  ''app.kubernetes.io/version'' \<mapsto> tag,
                  ''app.kubernetes.io/managed-by'' \<mapsto> ''VillipProxyController'']
                 ++ metaLabels (proxyMeta proxy)))"

definition targetForVillipProxy :: "villipProxyTarget \<Rightarrow> string" where
  "targetForVillipProxy ptarget =
     ''http://'' @ targetName ptarget @ ''.'' @ targetNamespace ptarget @ ''.:'' @
     utoa (unat (targetPort ptarget)) @ targetUri ptarget"

section \<open>Resolving rulesets\<close>

definition mountFor :: "string \<Rightarrow> volumeMount" where
  "mountFor name = \<lparr>mountName = name, mountPath = ''/conf/'' @ name\<rparr>"

definition volumeFor :: "string \<Rightarrow> volume" where
  "volumeFor name = \<lparr>volumeName = name, volumeConfigMap = Some name\<rparr>"

text \<open>The inner loop, one selected ConfigMap after the other.\<close>

fun mountItems ::
  "volumeMount list \<times> volume list \<times> string list \<Rightarrow> configMap list \<Rightarrow>
     volumeMount list \<times> volume list \<times> string list" where
  "mountItems (vmounts, volumes, cmNames) [] = (vmounts, volumes, cmNames)"
| "mountItems (vmounts, volumes, cmNames) (cm # cms) =
     mountItems (vmounts @ [mountFor (metaName (configMapMeta cm))],
                 volumes @ [volumeFor (metaName (configMapMeta cm))],
                 cmNames @ [metaName (configMapMeta cm)]) cms"

text \<open>The outer loop over the rulesets, which returns early when a list call fails.\<close>

primrec mountRulesets ::
  "'w reconciler \<Rightarrow> string \<Rightarrow> villipProxyRuleset list \<Rightarrow>
     volumeMount list \<times> volume list \<times> string list \<Rightarrow>
     ('w, goError option \<times> volumeMount list \<times> volume list \<times> string list) go" where
  "mountRulesets r namespace [] acc = ret (None, acc)"
| "mountRulesets r namespace (ruleset # rulesets) acc = do {
     res \<leftarrow> apiListConfigMaps r namespace (matchLabels ruleset);
     (case res of
        Inl err \<Rightarrow> ret (Some err, acc)
      | Inr items \<Rightarrow> mountRulesets r namespace rulesets (mountItems acc items))
   }"

definition mountsForVillipProxy ::
  "'w reconciler \<Rightarrow> villipProxyRuleset list \<Rightarrow> string \<Rightarrow>
     ('w, volumeMount list \<times> volume list \<times> stringMap \<times> goError option) go" where
  "mountsForVillipProxy r rulesets namespace = do {
     (err, vmounts, volumes, cmNames) \<leftarrow> mountRulesets r namespace rulesets ([], [], []);
     (case err of
        Some e \<Rightarrow> ret (vmounts, volumes, Map.empty, Some e)
      | None \<Rightarrow>
          ret (vmounts, volumes,
               [confAnnotation \<mapsto> joinStrings '','' (sortStrings cmNames)], None))
   }"

primrec collectNames ::
  "'w reconciler \<Rightarrow> string \<Rightarrow> villipProxyRuleset list \<Rightarrow> string list \<Rightarrow>
     ('w, goError + string list) go" where
  "collectNames r namespace [] cmNames = ret (Inr cmNames)"
| "collectNames r namespace (ruleset # rulesets) cmNames = do {
     res \<leftarrow> apiListConfigMaps r namespace (matchLabels ruleset);
     (case res of
        Inl err \<Rightarrow> ret (Inl err)
      | Inr items \<Rightarrow>
          collectNames r namespace rulesets
            (cmNames @ map (\<lambda>cm. metaName (configMapMeta cm)) items))
   }"

definition isRulesetsChanged ::
  "'w reconciler \<Rightarrow> villipProxy \<Rightarrow> deployment \<Rightarrow> ('w, bool \<times> goError option) go" where
  "isRulesetsChanged r proxy dep = do {
     res \<leftarrow> collectNames r (metaNamespace (proxyMeta proxy)) (specRuleset (proxySpec proxy)) [];
     (case res of
        Inl err \<Rightarrow> ret (False, Some err)
      | Inr cmNames \<Rightarrow>
          (let selected = joinStrings '','' (sortStrings cmNames) in
           case metaAnnotations (deploymentMeta dep) confAnnotation of
             Some annotation \<Rightarrow> ret (annotation \<noteq> selected, None)
           | None \<Rightarrow> ret (False, None)))
   }"

section \<open>Building the Deployment\<close>

definition probeFor :: "lib \<Rightarrow> probe" where
  "probeFor l =
     \<lparr>probeHttpPort = intstrFromInt l 9000, probeInitialDelaySeconds = 10,
      probePeriodSeconds = 2\<rparr>"

definition villipContainer ::
  "lib \<Rightarrow> villipProxy \<Rightarrow> volumeMount list \<Rightarrow> container" where
  "villipContainer l proxy vmounts =
     \<lparr>containerImage = imageForVillipProxy proxy,
      containerName = ''villip'',
      containerPullPolicy = ''IfNotPresent'',
      containerSecurity = Some
        \<lparr>ctxRunAsNonRoot = Some True, ctxRunAsUser = Some 1001,
         ctxAllowPrivilegeEscalation = Some False, ctxCapabilitiesDrop = [''ALL'']\<rparr>,
      containerEnv =
        [\<lparr>envName = ''VILLIP_FOLDER'', envValue = ''/conf''\<rparr>,
         \<lparr>envName = ''VILLIP_FOLDER_RECURSE'', envValue = ''1''\<rparr>,
         \<lparr>envName = ''VILLIP_URL'', envValue = targetForVillipProxy (specTarget (proxySpec proxy))\<rparr>]
        @ (if specDebug (proxySpec proxy)
           then [\<lparr>envName = ''VILLIP_DEBUG'', envValue = ''1''\<rparr>] else []),
      containerPorts = portsForVillipProxyDeployment (specPorts (proxySpec proxy)),
      containerMounts = vmounts,
      containerLiveness = Some (probeFor l),
      containerReadiness = Some (probeFor l)\<rparr>"

definition deploymentObject ::
  "lib \<Rightarrow> villipProxy \<Rightarrow> stringMap \<Rightarrow> volumeMount list \<Rightarrow> volume list \<Rightarrow> stringMap \<Rightarrow> deployment" where
  "deploymentObject l proxy ls vmounts volumes annotations =
     \<lparr>deploymentMeta = emptyMeta
        \<lparr>metaName := metaName (proxyMeta proxy), metaNamespace := metaNamespace (proxyMeta proxy),
         metaLabels := ls, metaAnnotations := annotations\<rparr>,
      deploymentSpec =
        \<lparr>deploymentReplicas = Some (specSize (proxySpec proxy)),
         deploymentMatchLabels = ls,
         templateMeta = emptyMeta\<lparr>metaLabels := ls\<rparr>,
         templateSpec =
           \<lparr>podRunAsNonRoot = Some True, podSeccomp = Some ''RuntimeDefault'',
            podVolumes = volumes, podContainers = [villipContainer l proxy vmounts]\<rparr>\<rparr>\<rparr>"

definition deploymentForVillipProxy ::
  "'w reconciler \<Rightarrow> villipProxy \<Rightarrow> ('w, (goError + deployment) outcome) go" where
  "deploymentForVillipProxy r proxy =
     (case labelsForVillipProxy proxy of
        Panic \<Rightarrow> ret Panic
      | Value ls \<Rightarrow> do {
          (vmounts, volumes, annotations, err) \<leftarrow>
            mountsForVillipProxy r (specRuleset (proxySpec proxy)) (metaNamespace (proxyMeta proxy));
          (case err of
             Some e \<Rightarrow> ret (Value (Inl e))
           | None \<Rightarrow>
               (let dep = deploymentObject (lib r) proxy ls vmounts volumes annotations in
                case setControllerReference (lib r) (ProxyOwner proxy) (deploymentMeta dep) of
                  Inl e \<Rightarrow> ret (Value (Inl e))
                | Inr m \<Rightarrow> ret (Value (Inr (dep\<lparr>deploymentMeta := m\<rparr>)))))
        })"

section \<open>Creating and updating\<close>

definition createDeploymentFailure :: "villipProxy \<Rightarrow> goError \<Rightarrow> condition" where
  "createDeploymentFailure p err =
     mkCondition typeAvailableVillipProxy ConditionFalse ''Reconciling''
       (''Failed to create Deployment for the custom resource ('' @ metaName (proxyMeta p) @
        ''): ('' @ errorText err @ '')'')"

definition createDeployment ::
  "'w reconciler \<Rightarrow> villipProxy \<Rightarrow> ('w, (reconcileResult \<times> goError option) outcome) go" where
  "createDeployment r villipproxy = do {
     built \<leftarrow> deploymentForVillipProxy r villipproxy;
     (case built of
        Panic \<Rightarrow> ret Panic
      | Value (Inl err) \<Rightarrow> do {
          (serr, _) \<leftarrow> setProxyStatus r villipproxy (createDeploymentFailure villipproxy err);
          (case serr of
             Some e \<Rightarrow> ret (Value (noRequeue, Some e))
           | None \<Rightarrow> ret (Value (noRequeue, Some err)))
        }
      | Value (Inr dep) \<Rightarrow> do {
          res \<leftarrow> apiCreateDeployment r dep;
          (case res of
             Inl err \<Rightarrow> do {
               (serr, _) \<leftarrow> setProxyStatus r villipproxy
                 ((createDeploymentFailure villipproxy err)\<lparr>conditionType := typeAvailableVillipRules\<rparr>);
               (case serr of
                  Some e \<Rightarrow> ret (Value (noRequeue, Some e))
                | None \<Rightarrow> ret (Value (noRequeue, Some err)))
             }
           | Inr _ \<Rightarrow> ret (Value (requeueMinute, None)))
        })
   }"

text \<open>
  \<open>deploymentUpdate\<close>: the error result, the proxy (re-fetched on the error path) and the
  Deployment (the server's answer on success).  When the update fails but the failure could be
  recorded in the status, the result is nil.
\<close>

definition updateDeploymentFailure :: "villipProxy \<Rightarrow> goError \<Rightarrow> condition" where
  "updateDeploymentFailure p err =
     mkCondition typeAvailableVillipProxy ConditionFalse ''Reconciling''
       (''Failed to update the deployment for custom resource ('' @ metaName (proxyMeta p) @
        ''): ('' @ errorText err @ '')'')"

definition deploymentUpdate ::
  "'w reconciler \<Rightarrow> namespacedName \<Rightarrow> villipProxy \<Rightarrow> deployment \<Rightarrow>
     ('w, goError option \<times> villipProxy \<times> deployment) go" where
  "deploymentUpdate r req villipproxy dep = do {
     res \<leftarrow> apiUpdateDeployment r dep;
     (case res of
        Inr dep' \<Rightarrow> ret (None, villipproxy, dep')
      | Inl err \<Rightarrow> do {
          fetched \<leftarrow> apiGetProxy r req;
          (case fetched of
             Inl err' \<Rightarrow> ret (Some err', villipproxy, dep)
           | Inr p \<Rightarrow> do {
               (serr, p') \<leftarrow> setProxyStatus r p (updateDeploymentFailure p err);
               ret (serr, p', dep)
             })
        })
   }"

end
