(* ===== verification/Proxy_Service.thy ===== *)
theory Proxy_Service
  imports Proxy_Ports
begin

text \<open>
  \<open>internal/controller/villipproxy_controller service.go\<close>: the Service of a proxy, its
  creation and its update.
\<close>

definition serviceObject :: "lib \<Rightarrow> villipProxy \<Rightarrow> service" where
  "serviceObject l proxy =
     \<lparr>serviceMeta = emptyMeta
        \<lparr>metaName := metaName (proxyMeta proxy), metaNamespace := metaNamespace (proxyMeta proxy),
         metaLabels := Map.empty ++ metaLabels (proxyMeta proxy)\<rparr>,
      serviceSpec =
        \<lparr>servicePorts = portsForVillipProxyService l (specPorts (proxySpec proxy)),
         serviceSelector = [''villip'' \<mapsto> metaName (proxyMeta proxy)]\<rparr>\<rparr>"

definition serviceForVillipProxy :: "'w reconciler \<Rightarrow> villipProxy \<Rightarrow> goError + service" where
  "serviceForVillipProxy r proxy =
     (let srv = serviceObject (lib r) proxy in
      case setControllerReference (lib r) (ProxyOwner proxy) (serviceMeta srv) of
        Inl e \<Rightarrow> Inl e
      | Inr m \<Rightarrow> Inr (srv\<lparr>serviceMeta := m\<rparr>))"

definition createServiceFailure :: "villipProxy \<Rightarrow> goError \<Rightarrow> condition" where
  "createServiceFailure p err =
     mkCondition typeAvailableVillipProxy ConditionFalse ''Reconciling''
       (''Failed to create Service for the custom resource ('' @ metaName (proxyMeta p) @
        ''): ('' @ errorText err @ '')'')"

definition createService ::
  "'w reconciler \<Rightarrow> villipProxy \<Rightarrow> ('w, reconcileResult \<times> goError option) go" where
  "createService r villipproxy =
     (case serviceForVillipProxy r villipproxy of
        Inl err \<Rightarrow> do {
          (serr, _) \<leftarrow> setProxyStatus r villipproxy (createServiceFailure villipproxy err);
          (case serr of
             Some e \<Rightarrow> ret (noRequeue, Some e)
           | None \<Rightarrow> ret (noRequeue, Some err))
        }
      | Inr svc \<Rightarrow> do {
          res \<leftarrow> apiCreateService r svc;
          (case res of
             Inl err \<Rightarrow> ret (noRequeue, Some err)
           | Inr _ \<Rightarrow> ret (requeueMinute, None))
        })"

text \<open>\<open>serviceUpdate\<close>, with the results of \<open>deploymentUpdate\<close>.\<close>

definition updateServiceFailure :: "villipProxy \<Rightarrow> goError \<Rightarrow> condition" where
  "updateServiceFailure p err =
     mkCondition typeAvailableVillipProxy ConditionFalse ''Reconciling''
       (''Failed to update the Service for custom resource ('' @ metaName (proxyMeta p) @
        ''): ('' @ errorText err @ '')'')"

definition serviceUpdate ::
  "'w reconciler \<Rightarrow> namespacedName \<Rightarrow> villipProxy \<Rightarrow> service \<Rightarrow>
     ('w, goError option \<times> villipProxy \<times> service) go" where
  "serviceUpdate r req villipproxy svc = do {
     res \<leftarrow> apiUpdateService r svc;
     (case res of
        Inr svc' \<Rightarrow> ret (None, villipproxy, svc')
      | Inl err \<Rightarrow> do {
          fetched \<leftarrow> apiGetProxy r req;
          (case fetched of
             Inl err' \<Rightarrow> ret (Some err', villipproxy, svc)
           | Inr p \<Rightarrow> do {
               (serr, p') \<leftarrow> setProxyStatus r p (updateServiceFailure p err);
               ret (serr, p', svc)
             })
        })
   }"

end
