(* ===== verification/Proxy_Controller.thy ===== *)
theory Proxy_Controller
  imports Proxy_Deployment Proxy_Service
begin

text \<open>
  \<open>internal/controller/villipproxy_controller.go\<close> and
  \<open>villipproxy_controller steps.go\<close>: one pass of the VillipProxy reconciler and its steps.
  A pass is a cascade of guards; each guard that fires performs one step and returns.
\<close>

section \<open>Steps\<close>

definition initProxyStatus ::
  "'w reconciler \<Rightarrow> villipProxy \<Rightarrow> ('w, reconcileResult \<times> goError option) go" where
  "initProxyStatus r villipproxy = do {
     (serr, _) \<leftarrow> setProxyStatus r villipproxy
       (mkCondition typeAvailableVillipProxy ConditionUnknown ''Reconciling''
          ''Starting reconciliation'');
     (case serr of
        Some err \<Rightarrow> ret (noRequeue, Some err)
      | None \<Rightarrow> ret (requeueMinute, None))
   }"

definition addProxyFinalizer ::
  "'w reconciler \<Rightarrow> villipProxy \<Rightarrow> ('w, reconcileResult \<times> goError option) go" where
  "addProxyFinalizer r villipproxy =
     (case controllerutilAddFinalizer (lib r) (metaFinalizers (proxyMeta villipproxy))
             villipproxyFinalizer of
        (fs, ok) \<Rightarrow>
          if \<not> ok then ret (noRequeue, Some (errorf ''finalizer for VillipProxy was not added''))
          else do {
            res \<leftarrow> apiUpdateProxy r
              (villipproxy\<lparr>proxyMeta := (proxyMeta villipproxy)\<lparr>metaFinalizers := fs\<rparr>\<rparr>);
            (case res of
               Inl err \<Rightarrow> ret (noRequeue, Some err)
             | Inr _ \<Rightarrow> ret (requeueMinute, None))
          })"

definition doFinalizerOperationsForVillipProxy :: "'w reconciler \<Rightarrow> villipProxy \<Rightarrow> ('w, unit) go" where
  "doFinalizerOperationsForVillipProxy r cr =
     recordEvent r (keyOf (proxyMeta cr)) ''Warning'' ''Deleting''
       (''Custom Resource '' @ metaName (proxyMeta cr) @
        '' is being deleted from the namespace '' @ metaNamespace (proxyMeta cr))"

definition villipProxyMarkedToBeDeleted ::
  "'w reconciler \<Rightarrow> villipProxy \<Rightarrow> namespacedName \<Rightarrow> ('w, goError option) go" where
  "villipProxyMarkedToBeDeleted r villipproxy req =
     (if containsFinalizer (lib r) (metaFinalizers (proxyMeta villipproxy)) villipproxyFinalizer
      then do {
        (serr, p) \<leftarrow> setProxyStatus r villipproxy
          (mkCondition typeDegradedVillipProxy ConditionUnknown ''Finalizing''
             (''Performing finalizer operations for the custom resource: '' @
              metaName (proxyMeta villipproxy) @ '' ''));
        (case serr of
           Some err \<Rightarrow> ret (Some err)
         | None \<Rightarrow> do {
             doFinalizerOperationsForVillipProxy r p;
             fetched \<leftarrow> apiGetProxy r req;
             (case fetched of
                Inl err \<Rightarrow> ret (Some err)
              | Inr p \<Rightarrow> do {
                  (serr, p) \<leftarrow> setProxyStatus r p
                    (mkCondition typeDegradedVillipProxy ConditionTrue ''Finalizing''
                       (''Finalizer operations for custom resource '' @ metaName (proxyMeta p) @
                        '' name were successfully accomplished''));
                  (case serr of
                     Some err \<Rightarrow> ret (Some err)
                   | None \<Rightarrow>
                       (case controllerutilRemoveFinalizer (lib r) (metaFinalizers (proxyMeta p))
                               villipproxyFinalizer of
                          (fs, ok) \<Rightarrow>
                            if \<not> ok
                            then ret (Some (errorf ''finalizer for VillipProxy was not removed''))
                            else do {
                              res \<leftarrow> apiUpdateProxy r
                                (p\<lparr>proxyMeta := (proxyMeta p)\<lparr>metaFinalizers := fs\<rparr>\<rparr>);
                              (case res of
                                 Inl err \<Rightarrow> ret (Some err)
                               | Inr _ \<Rightarrow> ret None)
                            }))
                })
           })
      }
      else ret None)"

text \<open>
  The two fields \<open>ManagePortChange\<close> writes.  \<open>None\<close> as the first component of its
  result is the nil \<open>*Result\<close>: the ports are aligned and the pass goes on.
\<close>

definition setFirstContainer :: "(container \<Rightarrow> container) \<Rightarrow> deployment \<Rightarrow> deployment" where
  "setFirstContainer f dep =
     (let spec = deploymentSpec dep; pod = templateSpec spec in
      dep\<lparr>deploymentSpec := spec\<lparr>templateSpec := pod\<lparr>podContainers :=
        (case podContainers pod of [] \<Rightarrow> [] | c # cs \<Rightarrow> f c # cs)\<rparr>\<rparr>\<rparr>)"

definition setServicePorts :: "servicePort slice \<Rightarrow> service \<Rightarrow> service" where
  "setServicePorts ports svc = svc\<lparr>serviceSpec := (serviceSpec svc)\<lparr>servicePorts := ports\<rparr>\<rparr>"

definition managePortChange ::
  "'w reconciler \<Rightarrow> villipProxy \<Rightarrow> namespacedName \<Rightarrow> deployment \<Rightarrow> service \<Rightarrow>
     ('w, (reconcileResult option \<times> goError option) outcome) go" where
  "managePortChange r villipproxy req found sfound =
     (case podContainers (templateSpec (deploymentSpec found)) of
        [] \<Rightarrow> ret Panic
      | c # cs \<Rightarrow>
          (let depports = portsForVillipProxyDeployment (specPorts (proxySpec villipproxy));
               depportsChanged = (depports \<noteq> containerPorts c);
               svcports = portsForVillipProxyService (lib r) (specPorts (proxySpec villipproxy));
               svcportsChanged = (svcports \<noteq> servicePorts (serviceSpec sfound))
           in if depportsChanged \<or> svcportsChanged
              then do {
                (derr, p) \<leftarrow>
                  (if depportsChanged then do {
                     (e, p, _) \<leftarrow> deploymentUpdate r req villipproxy
                       (setFirstContainer (\<lambda>c. c\<lparr>containerPorts := depports\<rparr>) found);
                     ret (e, p)
                   } else ret (None, villipproxy));
                (case derr of
                   Some err \<Rightarrow> ret (Value (Some noRequeue, Some err))
                 | None \<Rightarrow>
                     if svcportsChanged then do {
                       (e, _) \<leftarrow> serviceUpdate r req p (setServicePorts svcports sfound);
                       (case e of
                          Some err \<Rightarrow> ret (Value (Some noRequeue, Some err))
                        | None \<Rightarrow> ret (Value (Some requeueMinute, None)))
                     } else ret (Value (Some requeueMinute, None)))
              }
              else ret (Value (None, None))))"

section \<open>One pass\<close>

definition proxyAvailable :: "villipProxy \<Rightarrow> 32 word \<Rightarrow> condition" where
  "proxyAvailable p n =
     mkCondition typeAvailableVillipProxy ConditionTrue ''Reconciling''
       (''Deployment for custom resource ('' @ metaName (proxyMeta p) @ '') with '' @
        itoa (sint n) @ '' replicas created successfully'')"

text \<open>The part of the pass after the rulesets are known to be unchanged: service, ports, status.\<close>

definition reconcileProxyService ::
  "'w reconciler \<Rightarrow> namespacedName \<Rightarrow> villipProxy \<Rightarrow> deployment \<Rightarrow>
     ('w, (reconcileResult \<times> goError option) outcome) go" where
  "reconcileProxyService r req villipproxy found = do {
     res \<leftarrow> apiGetService r (keyOf (proxyMeta villipproxy));
     (case res of
        Inl err \<Rightarrow>
          if isNotFound err then do {
            x \<leftarrow> createService r villipproxy;
            ret (Value x)
          } else ret (Value (noRequeue, Some err))
      | Inr sfound \<Rightarrow> do {
          managed \<leftarrow> managePortChange r villipproxy req found sfound;
          (case managed of
             Panic \<Rightarrow> ret Panic
           | Value m \<Rightarrow>
               (case m of
                  (Some result, err) \<Rightarrow> ret (Value (result, err))
                | (None, _) \<Rightarrow> do {
                    (serr, _) \<leftarrow> setProxyStatus r villipproxy
                      (proxyAvailable villipproxy (specSize (proxySpec villipproxy)));
                    (case serr of
                       Some err \<Rightarrow> ret (Value (noRequeue, Some err))
                     | None \<Rightarrow> ret (Value (noRequeue, None)))
                  }))
        })
   }"

text \<open>
  The ruleset part: an error while checking is only logged, and so is an error while
  resolving the mounts again.
\<close>

definition setMounts ::
  "volumeMount list \<Rightarrow> volume list \<Rightarrow> stringMap \<Rightarrow> deployment \<Rightarrow> deployment" where
  "setMounts vmounts volumes annotations dep =
     (let dep = dep\<lparr>deploymentMeta := (deploymentMeta dep)\<lparr>metaAnnotations := annotations\<rparr>\<rparr>;
          spec = deploymentSpec dep;
          dep = dep\<lparr>deploymentSpec := spec\<lparr>templateSpec :=
                  (templateSpec spec)\<lparr>podVolumes := volumes\<rparr>\<rparr>\<rparr>
      in setFirstContainer (\<lambda>c. c\<lparr>containerMounts := vmounts\<rparr>) dep)"

definition reconcileProxyRulesets ::
  "'w reconciler \<Rightarrow> namespacedName \<Rightarrow> villipProxy \<Rightarrow> deployment \<Rightarrow>
     ('w, (reconcileResult \<times> goError option) outcome) go" where
  "reconcileProxyRulesets r req villipproxy found = do {
     (rulesetsChanged, _) \<leftarrow> isRulesetsChanged r villipproxy found;
     (if rulesetsChanged then do {
        (vmounts, volumes, annotations, _) \<leftarrow>
          mountsForVillipProxy r (specRuleset (proxySpec villipproxy))
            (metaNamespace (proxyMeta villipproxy));
        (if podContainers (templateSpec (deploymentSpec found)) = [] then ret Panic
         else do {
           (err, _) \<leftarrow> deploymentUpdate r req villipproxy
             (setMounts vmounts volumes annotations found);
           (case err of
              Some e \<Rightarrow> ret (Value (noRequeue, Some e))
            | None \<Rightarrow> ret (Value (requeueMinute, None)))
         })
      }
      else reconcileProxyService r req villipproxy found)
   }"

definition setReplicas :: "32 word \<Rightarrow> deployment \<Rightarrow> deployment" where
  "setReplicas n dep =
     dep\<lparr>deploymentSpec := (deploymentSpec dep)\<lparr>deploymentReplicas := Some n\<rparr>\<rparr>"

definition reconcileProxyDeployment ::
  "'w reconciler \<Rightarrow> namespacedName \<Rightarrow> villipProxy \<Rightarrow>
     ('w, (reconcileResult \<times> goError option) outcome) go" where
  "reconcileProxyDeployment r req villipproxy = do {
     res \<leftarrow> apiGetDeployment r (keyOf (proxyMeta villipproxy));
     (case res of
        Inl err \<Rightarrow>
          if isNotFound err then createDeployment r villipproxy
          else ret (Value (noRequeue, Some err))
      | Inr found \<Rightarrow>
          (let size = specSize (proxySpec villipproxy) in
           case deploymentReplicas (deploymentSpec found) of
             None \<Rightarrow> ret Panic
           | Some replicas \<Rightarrow>
               if replicas \<noteq> size then do {
                 (err, _) \<leftarrow> deploymentUpdate r req villipproxy (setReplicas size found);
                 (case err of
                    Some e \<Rightarrow> ret (Value (noRequeue, Some e))
                  | None \<Rightarrow> ret (Value (requeueMinute, None)))
               }
               else reconcileProxyRulesets r req villipproxy found))
   }"

definition reconcileProxy ::
  "'w reconciler \<Rightarrow> namespacedName \<Rightarrow> ('w, (reconcileResult \<times> goError option) outcome) go" where
  "reconcileProxy r req = do {
     res \<leftarrow> apiGetProxy r req;
     (case res of
        Inl err \<Rightarrow>
          if isNotFound err then ret (Value (noRequeue, None))
          else ret (Value (noRequeue, Some err))
      | Inr villipproxy \<Rightarrow>
          if proxyConditions (proxyStatus villipproxy) = [] then do {
            x \<leftarrow> initProxyStatus r villipproxy;
            ret (Value x)
          }
          else if \<not> containsFinalizer (lib r) (metaFinalizers (proxyMeta villipproxy))
                    villipproxyFinalizer then do {
            x \<leftarrow> addProxyFinalizer r villipproxy;
            ret (Value x)
          }
          else if metaDeletionTimestamp (proxyMeta villipproxy) \<noteq> None then do {
            err \<leftarrow> villipProxyMarkedToBeDeleted r villipproxy req;
            ret (Value (noRequeue, err))
          }
          else reconcileProxyDeployment r req villipproxy)
   }"

section \<open>What the field updates leave alone\<close>

lemma setReplicas_sel [simp]:
  "deploymentMeta (setReplicas m d) = deploymentMeta d"
  "deploymentReplicas (deploymentSpec (setReplicas m d)) = Some m"
  by (simp_all add: setReplicas_def)

lemma setMounts_sel [simp]:
  "metaAnnotations (deploymentMeta (setMounts vm vol ann d)) = ann"
  "keyOf (deploymentMeta (setMounts vm vol ann d)) = keyOf (deploymentMeta d)"
  "metaResourceVersion (deploymentMeta (setMounts vm vol ann d)) = metaResourceVersion (deploymentMeta d)"
  "deploymentReplicas (deploymentSpec (setMounts vm vol ann d)) = deploymentReplicas (deploymentSpec d)"
  by (simp_all add: setMounts_def setFirstContainer_def Let_def keyOf_def)

lemma setFirstContainer_sel [simp]:
  "deploymentMeta (setFirstContainer f d) = deploymentMeta d"
  "deploymentReplicas (deploymentSpec (setFirstContainer f d)) = deploymentReplicas (deploymentSpec d)"
  by (simp_all add: setFirstContainer_def Let_def)

lemma setServicePorts_sel [simp]:
  "serviceMeta (setServicePorts ps s) = serviceMeta s"
  "servicePorts (serviceSpec (setServicePorts ps s)) = ps"
  by (simp_all add: setServicePorts_def)

end
