(* ===== verification/Sha256.thy ===== *)
theory Sha256
  imports Prelude
begin

text \<open>
  The two routines of Go's standard library behind \<open>sumVillipRulesData\<close>:
  \<open>crypto/sha256\<close> (FIPS 180-4, over bytes and 32-bit words) and
  \<open>encoding/hex\<close>.  The checksum that the VillipRules controller compares and stores is
  their composition, defined in \<open>Rules_Checksum\<close>.

  Facts: padding fills whole blocks, the digest has 32 bytes, hexadecimal printing uses two
  lower-case digits and is injective, and the constants are the fractional parts of the cube
  and square roots that the standard defines them by.
\<close>

unbundle bit_operations_syntax

section \<open>SHA-256\<close>

type_synonym word32 = "32 word"

definition rotr32 :: "nat \<Rightarrow> word32 \<Rightarrow> word32" where
  "rotr32 n x = drop_bit n x OR push_bit (32 - n) x"

definition shaCh :: "word32 \<Rightarrow> word32 \<Rightarrow> word32 \<Rightarrow> word32" where
  "shaCh x y z = (x AND y) XOR (NOT x AND z)"

definition shaMaj :: "word32 \<Rightarrow> word32 \<Rightarrow> word32 \<Rightarrow> word32" where
  "shaMaj x y z = (x AND y) XOR (x AND z) XOR (y AND z)"

definition bigSigma0 :: "word32 \<Rightarrow> word32" where
  "bigSigma0 x = rotr32 2 x XOR rotr32 13 x XOR rotr32 22 x"

definition bigSigma1 :: "word32 \<Rightarrow> word32" where
  "bigSigma1 x = rotr32 6 x XOR rotr32 11 x XOR rotr32 25 x"

definition smallSigma0 :: "word32 \<Rightarrow> word32" where
  "smallSigma0 x = rotr32 7 x XOR rotr32 18 x XOR drop_bit 3 x"

definition smallSigma1 :: "word32 \<Rightarrow> word32" where
  "smallSigma1 x = rotr32 17 x XOR rotr32 19 x XOR drop_bit 10 x"

text \<open>
  The 64 round constants, in decimal: the first 32 bits of the fractional parts of the cube
  roots of the first 64 primes (checked in \<open>shaK_cube_roots\<close>).
\<close>

definition shaK :: "word32 list" where
  "shaK =
    [1116352408, 1899447441, 3049323471, 3921009573, 961987163, 1508970993,
     2453635748, 2870763221, 3624381080, 310598401, 607225278, 1426881987,
     1925078388, 2162078206, 2614888103, 3248222580, 3835390401, 4022224774,
     264347078, 604807628, 770255983, 1249150122, 1555081692, 1996064986,
     2554220882, 2821834349, 2952996808, 3210313671, 3336571891, 3584528711,
     113926993, 338241895, 666307205, 773529912, 1294757372, 1396182291,
     1695183700, 1986661051, 2177026350, 2456956037, 2730485921, 2820302411,
     3259730800, 3345764771, 3516065817, 3600352804, 4094571909, 275423344,
     430227734, 506948616, 659060556, 883997877, 958139571, 1322822218,
     1537002063, 1747873779, 1955562222, 2024104815, 2227730452, 2361852424,
     2428436474, 2756734187, 3204031479, 3329325298]"

text \<open>The eight working variables a, b, c, d, e, f, g, h.\<close>

datatype shaState = ShaState word32 word32 word32 word32 word32 word32 word32 word32

definition shaInit :: shaState where
  "shaInit = ShaState 1779033703 3144134277 1013904242 2773480762
    1359893119 2600822924 528734635 1541459225"

fun shaRound :: "shaState \<Rightarrow> word32 \<times> word32 \<Rightarrow> shaState" where
  "shaRound (ShaState a b c d e f g h) (k, w) =
     (let t1 = h + bigSigma1 e + shaCh e f g + k + w;
          t2 = bigSigma0 a + shaMaj a b c
      in ShaState (t1 + t2) a b c (d + t1) e f g)"

fun shaAdd :: "shaState \<Rightarrow> shaState \<Rightarrow> shaState" where
  "shaAdd (ShaState a b c d e f g h) (ShaState a' b' c' d' e' f' g' h') =
     ShaState (a + a') (b + b') (c + c') (d + d') (e + e') (f + f') (g + g') (h + h')"

text \<open>
  The message schedule, newest word first: the next word is computed from the words 2, 7, 15
  and 16 places back.
\<close>

definition nextWord :: "word32 list \<Rightarrow> word32" where
  "nextWord ws = smallSigma1 (ws ! 1) + ws ! 6 + smallSigma0 (ws ! 14) + ws ! 15"

primrec extendSchedule :: "nat \<Rightarrow> word32 list \<Rightarrow> word32 list" where
  "extendSchedule 0 ws = ws"
| "extendSchedule (Suc n) ws = extendSchedule n (nextWord ws # ws)"

definition shaSchedule :: "word32 list \<Rightarrow> word32 list" where
  "shaSchedule block = rev (extendSchedule 48 (rev block))"

definition shaBlock :: "shaState \<Rightarrow> word32 list \<Rightarrow> shaState" where
  "shaBlock s block = shaAdd (foldl shaRound s (zip shaK (shaSchedule block))) s"

text \<open>Big-endian packing and padding.\<close>

definition packBytes :: "8 word \<Rightarrow> 8 word \<Rightarrow> 8 word \<Rightarrow> 8 word \<Rightarrow> word32" where
  "packBytes a b c d =
     push_bit 24 (ucast a) OR push_bit 16 (ucast b) OR push_bit 8 (ucast c) OR ucast d"

definition unpackWord :: "word32 \<Rightarrow> 8 word list" where
  "unpackWord w = [ucast (drop_bit 24 w), ucast (drop_bit 16 w), ucast (drop_bit 8 w), ucast w]"

fun packWords :: "8 word list \<Rightarrow> word32 list" where
  "packWords (a # b # c # d # bs) = packBytes a b c d # packWords bs"
| "packWords _ = []"

definition lengthField :: "nat \<Rightarrow> 8 word list" where
  "lengthField n =
     (let bits = of_nat (8 * n) :: 64 word
      in map (\<lambda>i. ucast (drop_bit (8 * (7 - i)) bits)) [0, 1, 2, 3, 4, 5, 6, 7])"

definition shaPad :: "8 word list \<Rightarrow> 8 word list" where
  "shaPad msg =
     msg @ 0x80 # replicate ((119 - length msg mod 64) mod 64) 0 @ lengthField (length msg)"

fun shaBlocks :: "nat \<Rightarrow> shaState \<Rightarrow> word32 list \<Rightarrow> shaState" where
  "shaBlocks 0 s ws = s"
| "shaBlocks (Suc n) s ws = shaBlocks n (shaBlock s (take 16 ws)) (drop 16 ws)"

fun shaDigest :: "shaState \<Rightarrow> 8 word list" where
  "shaDigest (ShaState a b c d e f g h) = concat (map unpackWord [a, b, c, d, e, f, g, h])"

definition sha256 :: "8 word list \<Rightarrow> 8 word list" where
  "sha256 msg =
     (let ws = packWords (shaPad msg) in shaDigest (shaBlocks (length ws div 16) shaInit ws))"

section \<open>encoding/hex\<close>

definition hexDigit :: "nat \<Rightarrow> char" where
  "hexDigit n = char_of (if n < 10 then 48 + n else 87 + n)"

definition hexByte :: "8 word \<Rightarrow> string" where
  "hexByte b = [hexDigit (unat b div 16), hexDigit (unat b mod 16)]"

definition hexEncode :: "8 word list \<Rightarrow> string" where
  "hexEncode bs = concat (map hexByte bs)"

definition bytesOf :: "string \<Rightarrow> 8 word list" where
  "bytesOf s = map of_char s"

section \<open>Facts\<close>

lemma length_shaDigest [simp]: "length (shaDigest s) = 32"
  by (cases s) (simp add: unpackWord_def)

lemma length_sha256 [simp]: "length (sha256 msg) = 32"
  by (simp add: sha256_def Let_def)

text \<open>Padding fills whole blocks, so no byte of the padded message is dropped.\<close>

lemma pad_to_block: "((n::nat) + (9 + (119 - n mod 64) mod 64)) mod 64 = 0"
proof -
  define q r where "q = n div 64" and "r = n mod 64"
  then have n: "n = 64 * q + r" and r: "r < 64" by simp_all
  show ?thesis
  proof (cases "r \<le> 55")
    case True
    then have "119 - r = 55 - r + 64" and "55 - r < 64" by simp_all
    then have "(119 - r) mod 64 = 55 - r" by (metis mod_add_self2 mod_less)
    with True have "n + (9 + (119 - r) mod 64) = 64 * (q + 1)" by (simp add: n)
    then show ?thesis unfolding r_def by (simp only: mod_mult_self1_is_0)
  next
    case False
    then have "(119 - r) mod 64 = 119 - r" by simp
    with r have "n + (9 + (119 - r) mod 64) = 64 * (q + 2)" by (simp add: n)
    then show ?thesis unfolding r_def by (simp only: mod_mult_self1_is_0)
  qed
qed

lemma length_shaPad: "length (shaPad msg) mod 64 = 0"
proof -
  have "length (shaPad msg) = length msg + (9 + (119 - length msg mod 64) mod 64)"
    by (simp add: shaPad_def lengthField_def Let_def)
  then show ?thesis by (simp only: pad_to_block)
qed

lemma length_packWords: "length (packWords bs) = length bs div 4"
  by (induction bs rule: packWords.induct) auto

lemma length_hexEncode [simp]: "length (hexEncode bs) = 2 * length bs"
  by (induction bs) (simp_all add: hexEncode_def hexByte_def)

lemma of_char_hexDigit:
  "n < 16 \<Longrightarrow> (of_char (hexDigit n) :: nat) = (if n < 10 then 48 + n else 87 + n)"
  by (simp add: hexDigit_def)

lemma hexDigit_inject: "m < 16 \<Longrightarrow> n < 16 \<Longrightarrow> hexDigit m = hexDigit n \<longleftrightarrow> m = n"
proof
  assume "m < 16" "n < 16" "hexDigit m = hexDigit n"
  then have "(if m < 10 then 48 + m else 87 + m) = (if n < 10 then 48 + n else 87 + n)"
    by (simp only: of_char_hexDigit [symmetric])
  then show "m = n" by (simp split: if_splits)
qed simp

lemma hexByte_inject [simp]: "hexByte a = hexByte b \<longleftrightarrow> a = b"
proof
  assume eq: "hexByte a = hexByte b"
  have small: "unat c div 16 < 16" for c :: "8 word"
    using unsigned_less [of c, where 'a = nat] by (simp add: less_mult_imp_div_less)
  have "unat a div 16 = unat b div 16" and "unat a mod 16 = unat b mod 16"
    using eq small by (simp_all add: hexByte_def hexDigit_inject)
  then have "unat a = unat b" by (metis mult_div_mod_eq)
  then show "a = b" by (rule unsigned_word_eqI)
qed simp

lemma hexEncode_Cons: "hexEncode (b # bs) = hexByte b @ hexEncode bs"
  by (simp add: hexEncode_def)

lemma length_hexByte [simp]: "length (hexByte b) = 2"
  by (simp add: hexByte_def)

lemma hexEncode_inject [simp]: "hexEncode as = hexEncode bs \<longleftrightarrow> as = bs"
proof
  assume "hexEncode as = hexEncode bs"
  then show "as = bs"
  proof (induction as arbitrary: bs)
    case Nil
    then have "length (hexEncode bs) = length (hexEncode [])" by simp
    then show ?case by simp
  next
    case (Cons a as)
    from Cons.prems have "length (hexEncode (a # as)) = length (hexEncode bs)" by simp
    then obtain b bs' where bs: "bs = b # bs'" by (cases bs) simp_all
    from Cons.prems have "hexByte a = hexByte b \<and> hexEncode as = hexEncode bs'"
      by (simp add: bs hexEncode_Cons)
    with Cons.IH [of bs'] show ?case by (simp add: bs)
  qed
qed simp


lemma hexDigit_table: "map hexDigit [0..<16] = ''0123456789abcdef''"
  by code_simp

lemma hexDigit_range: "n < 16 \<Longrightarrow> hexDigit n \<in> set ''0123456789abcdef''"
  unfolding hexDigit_table [symmetric] by simp

lemma hexEncode_digits: "set (hexEncode bs) \<subseteq> set ''0123456789abcdef''"
proof -
  have "set (hexByte b) \<subseteq> set ''0123456789abcdef''" for b
  proof -
    have "unat b div 16 < 16"
      using unsigned_less [of b, where 'a = nat] by (simp add: less_mult_imp_div_less)
    then have "hexDigit (unat b div 16) \<in> set ''0123456789abcdef''" by (rule hexDigit_range)
    moreover have "hexDigit (unat b mod 16) \<in> set ''0123456789abcdef''" by (rule hexDigit_range) simp
    ultimately show ?thesis unfolding hexByte_def by (simp only: list.set insert_subset empty_subsetI simp_thms)
  qed
  then have "set (concat (map hexByte bs)) \<subseteq> set ''0123456789abcdef''"
    unfolding set_concat set_map by blast
  then show ?thesis unfolding hexEncode_def .
qed

text \<open>The constants are the numbers of the standard.\<close>

definition firstPrimes :: "int list" where
  "firstPrimes =
    [2, 3, 5, 7, 11, 13, 17, 19, 23, 29, 31, 37, 41, 43, 47, 53,
     59, 61, 67, 71, 73, 79, 83, 89, 97, 101, 103, 107, 109, 113, 127, 131,
     137, 139, 149, 151, 157, 163, 167, 173, 179, 181, 191, 193, 197, 199, 211, 223,
     227, 229, 233, 239, 241, 251, 257, 263, 269, 271, 277, 281, 283, 293, 307, 311]"

definition isRootFraction :: "nat \<Rightarrow> int \<Rightarrow> int \<Rightarrow> bool" where
  "isRootFraction e p k \<longleftrightarrow>
     list_ex (\<lambda>m. (m * 2 ^ 32 + k) ^ e \<le> p * 2 ^ (32 * e) \<and> p * 2 ^ (32 * e) < (m * 2 ^ 32 + k + 1) ^ e) [1, 2, 3, 4, 5, 6, 7]"

lemma shaK_cube_roots:
  "list_all2 (\<lambda>p k. isRootFraction 3 p (uint k)) firstPrimes shaK"
  by code_simp

lemma shaInit_square_roots:
  "case shaInit of ShaState a b c d e f g h \<Rightarrow>
     list_all2 (\<lambda>p k. isRootFraction 2 p (uint k)) [2, 3, 5, 7, 11, 13, 17, 19] [a, b, c, d, e, f, g, h]"
  by code_simp

end
