(* ===== verification/Rules_Checksum.thy ===== *)
theory Rules_Checksum
  imports Sha256
begin

text \<open>
  \<open>sumVillipRulesData\<close>: the hexadecimal SHA-256 of a document.  The reconciler compares the
  checksum of the rule with that of the ConfigMap instead of the documents themselves; the
  locale \<open>checksum\<close> is what it needs for that, interpreted on \<open>sumVillipRulesData\<close>.
\<close>

text \<open>Copying a string reader into a hasher cannot fail, so the error branch is never taken.\<close>

definition sumVillipRulesData :: "string \<Rightarrow> goError + string" where
  "sumVillipRulesData data = Inr (hexEncode (sha256 (bytesOf data)))"

locale checksum =
  fixes sum :: "string \<Rightarrow> goError + string"
  assumes sum_total: "\<exists>s. sum d = Inr s"
    and sum_length: "sum d = Inr s \<Longrightarrow> length s = 64"
begin

lemma sum_not_Inl: "sum d \<noteq> Inl e"
  using sum_total [of d] by auto

text \<open>Different checksums are a proof that the documents differ.\<close>

lemma sum_differ: "sum c = Inr s \<Longrightarrow> sum d = Inr t \<Longrightarrow> s \<noteq> t \<Longrightarrow> c \<noteq> d"
  by auto

text \<open>The zero value of a status never equals a checksum.\<close>

lemma sum_nonempty: "sum d = Inr s \<Longrightarrow> s \<noteq> []"
  using sum_length [of d s] by auto

end

interpretation rulesSum: checksum sumVillipRulesData
  by unfold_locales (auto simp: sumVillipRulesData_def)

end
