(* ===== verification/Rules_Controller.thy ===== *)
theory Rules_Controller
  imports Reconciler Rules_Checksum
begin

text \<open>
  \<open>internal/controller/villiprules_controller.go\<close>, \<open>villiprules_controller configmap.go\<close>
  and \<open>villiprules_controller steps.go\<close>: the VillipRules reconciler.  A rule is rendered to
  YAML into a ConfigMap of the same name; when the ConfigMap no longer has the checksum of the
  rendered rule it is rewritten, and the Deployments that mount it are rolled out.
\<close>

section \<open>Steps\<close>

definition initRulesStatus ::
  "'w reconciler \<Rightarrow> villipRules \<Rightarrow> ('w, reconcileResult \<times> goError option) go" where
  "initRulesStatus r villiprules = do {
     (serr, _) \<leftarrow> setRulesStatus r villiprules
       (mkCondition typeAvailableVillipRules ConditionUnknown ''Reconciling''
          ''Starting reconciliation'');
     (case serr of
        Some err \<Rightarrow> ret (noRequeue, Some err)
      | None \<Rightarrow> ret (requeueMinute, None))
   }"

definition addRulesFinalizer ::
  "'w reconciler \<Rightarrow> villipRules \<Rightarrow> ('w, reconcileResult \<times> goError option) go" where
  "addRulesFinalizer r villiprules =
     (case controllerutilAddFinalizer (lib r) (metaFinalizers (rulesMeta villiprules))
             villiprulesFinalizer of
        (fs, ok) \<Rightarrow>
          if \<not> ok then ret (noRequeue, Some (errorf ''finalizer for VillipRules was not added''))
          else do {
            res \<leftarrow> apiUpdateRules r
              (villiprules\<lparr>rulesMeta := (rulesMeta villiprules)\<lparr>metaFinalizers := fs\<rparr>\<rparr>);
            (case res of
               Inl err \<Rightarrow> ret (noRequeue, Some err)
             | Inr _ \<Rightarrow> ret (requeueMinute, None))
          })"

definition doFinalizerOperationsForVillipRules :: "'w reconciler \<Rightarrow> villipRules \<Rightarrow> ('w, unit) go" where
  "doFinalizerOperationsForVillipRules r cr =
     recordEvent r (keyOf (rulesMeta cr)) ''Warning'' ''Deleting''
       (''Custom Resource '' @ metaName (rulesMeta cr) @
        '' is being deleted from the namespace '' @ metaNamespace (rulesMeta cr))"

text \<open>
  The JSON patch of the removal loop, and the loop: one patch per index of the finalizer list
  as it was before the first patch.
\<close>

definition removeFinalizerPatch :: "nat \<Rightarrow> rawPatch" where
  "removeFinalizerPatch i =
     \<lparr>patchType = ''application/json-patch+json'',
      patchData = ''[{\"op\": \"remove\", \"path\": \"/metadata/finalizers/'' @ utoa i @ ''\"}]''\<rparr>"

primrec patchFinalizers ::
  "'w reconciler \<Rightarrow> nat list \<Rightarrow> villipRules \<Rightarrow> ('w, goError option) go" where
  "patchFinalizers r [] villiprules = ret None"
| "patchFinalizers r (i # is) villiprules = do {
     res \<leftarrow> apiPatchRules r villiprules (removeFinalizerPatch i);
     (case res of
        Inl err \<Rightarrow> ret (Some err)
      | Inr patched \<Rightarrow> patchFinalizers r is patched)
   }"

definition villipRulesMarkedToBeDeleted ::
  "'w reconciler \<Rightarrow> villipRules \<Rightarrow> namespacedName \<Rightarrow> ('w, goError option) go" where
  "villipRulesMarkedToBeDeleted r villiprules req =
     (if containsFinalizer (lib r) (metaFinalizers (rulesMeta villiprules)) villiprulesFinalizer
      then do {
        doFinalizerOperationsForVillipRules r villiprules;
        fetched \<leftarrow> apiGetRules r req;
        (case fetched of
           Inl err \<Rightarrow> ret (Some err)
         | Inr p \<Rightarrow> patchFinalizers r [0..<length (metaFinalizers (rulesMeta p))] p)
      }
      else ret None)"

section \<open>The ConfigMap\<close>

definition configMapKey :: "villipRules \<Rightarrow> string" where
  "configMapKey rule = metaName (rulesMeta rule) @ ''.yml''"

definition configMapForVillipRule :: "'w reconciler \<Rightarrow> villipRules \<Rightarrow> goError + configMap" where
  "configMapForVillipRule r rule =
     (case yamlMarshal (lib r) (rulesSpec rule) of
        Inl err \<Rightarrow> Inl err
      | Inr data \<Rightarrow>
          (let cm = \<lparr>configMapMeta = emptyMeta
                       \<lparr>metaName := metaName (rulesMeta rule),
                        metaNamespace := metaNamespace (rulesMeta rule),
                        metaLabels := Map.empty ++ metaLabels (rulesMeta rule)\<rparr>,
                     configMapData = [configMapKey rule \<mapsto> data]\<rparr>
           in case setControllerReference (lib r) (RulesOwner rule) (configMapMeta cm) of
                Inl err \<Rightarrow> Inl err
              | Inr m \<Rightarrow> Inr (cm\<lparr>configMapMeta := m\<rparr>)))"

text \<open>A missing key of a Go map reads as the empty string.\<close>

definition dataAt :: "stringMap \<Rightarrow> string \<Rightarrow> string" where
  "dataAt d k = (case d k of None \<Rightarrow> '''' | Some v \<Rightarrow> v)"

definition createConfigMapFailure :: "villipRules \<Rightarrow> goError \<Rightarrow> condition" where
  "createConfigMapFailure rule err =
     mkCondition typeAvailableVillipRules ConditionFalse ''Reconciling''
       (''Failed to create Configmap for the custom resource ('' @ metaName (rulesMeta rule) @
        ''): ('' @ errorText err @ '')'')"

definition createConfigMap ::
  "'w reconciler \<Rightarrow> villipRules \<Rightarrow> ('w, reconcileResult \<times> goError option) go" where
  "createConfigMap r rule =
     (case configMapForVillipRule r rule of
        Inl err \<Rightarrow> ret (noRequeue, Some err)
      | Inr cm \<Rightarrow>
         (case sumVillipRulesData (dataAt (configMapData cm) (configMapKey rule)) of
            Inl err \<Rightarrow> ret (noRequeue, Some err)
          | Inr s \<Rightarrow> do {
              res \<leftarrow> apiCreateConfigMap r cm;
              (case res of
                 Inl err \<Rightarrow> do {
                   (serr, _) \<leftarrow> setRulesStatus r rule (createConfigMapFailure rule err);
                   (case serr of
                      Some e \<Rightarrow> ret (noRequeue, Some e)
                    | None \<Rightarrow> ret (noRequeue, Some err))
                 }
               | Inr cm \<Rightarrow>
                   (case setControllerReference (lib r) (RulesOwner rule) (configMapMeta cm) of
                      Inl err \<Rightarrow> ret (noRequeue, Some err)
                    | Inr _ \<Rightarrow> do {
                        (serr, _) \<leftarrow> setRulesStatus r
                          (rule\<lparr>rulesStatus := (rulesStatus rule)\<lparr>lastSum := s\<rparr>\<rparr>)
                          (mkCondition typeAvailableVillipRules ConditionTrue ''Reconciled''
                             ''ConfigMap created'');
                        (case serr of
                           Some err \<Rightarrow> ret (noRequeue, Some err)
                         | None \<Rightarrow> ret (noRequeue, None))
                      }))
            }))"

section \<open>Rolling out the dependent proxies\<close>

definition setReloadedAt :: "string \<Rightarrow> deployment \<Rightarrow> deployment" where
  "setReloadedAt now dep =
     dep\<lparr>deploymentSpec := (deploymentSpec dep)\<lparr>templateMeta :=
       (templateMeta (deploymentSpec dep))\<lparr>metaAnnotations :=
         [''villip-operator/config-reloaded-at'' \<mapsto> now]\<rparr>\<rparr>\<rparr>"

text \<open>
  The inner loop over the names in the annotation.  An update error is only logged; the loop
  goes on with the Deployment as it was sent.
\<close>

primrec rolloutNames ::
  "'w reconciler \<Rightarrow> string \<Rightarrow> string list \<Rightarrow> deployment \<Rightarrow> ('w, unit) go" where
  "rolloutNames r name [] dep = ret ()"
| "rolloutNames r name (ruleset # rulesets) dep =
     (if ruleset = name then do {
        now \<leftarrow> timeNowString r;
        res \<leftarrow> apiUpdateDeployment r (setReloadedAt now dep);
        rolloutNames r name rulesets
          (case res of Inl _ \<Rightarrow> setReloadedAt now dep | Inr dep' \<Rightarrow> dep')
      }
      else rolloutNames r name rulesets dep)"

primrec rolloutDeployments ::
  "'w reconciler \<Rightarrow> string \<Rightarrow> deployment list \<Rightarrow> ('w, unit) go" where
  "rolloutDeployments r name [] = ret ()"
| "rolloutDeployments r name (dep # deps) = do {
     (case metaAnnotations (deploymentMeta dep) confAnnotation of
        None \<Rightarrow> ret ()
      | Some dependOn \<Rightarrow> rolloutNames r name (splitString (CHR '','') dependOn) dep);
     rolloutDeployments r name deps
   }"

definition rolloutDependentProxies ::
  "'w reconciler \<Rightarrow> string \<Rightarrow> string \<Rightarrow> ('w, goError option) go" where
  "rolloutDependentProxies r namespace name = do {
     res \<leftarrow> apiListDeployments r namespace
       ''app.kubernetes.io/managed-by=VillipProxyController'';
     (case res of
        Inl err \<Rightarrow> ret (Some err)
      | Inr items \<Rightarrow> do {
          rolloutDeployments r name items;
          ret None
        })
   }"

section \<open>Updating the ConfigMap\<close>

definition updateConfigMapFailure :: "villipRules \<Rightarrow> goError \<Rightarrow> condition" where
  "updateConfigMapFailure rule err =
     mkCondition typeAvailableVillipRules ConditionFalse ''Updating''
       (''Failed to update the data for the custom resource ('' @ metaName (rulesMeta rule) @
        ''): ('' @ errorText err @ '')'')"

text \<open>
  The tail after the ConfigMap was sent: it runs whether or not the update succeeded, as the
  source has no return after recording the failure.
\<close>

definition finishConfigMapUpdate ::
  "'w reconciler \<Rightarrow> villipRules \<Rightarrow> string \<Rightarrow> ('w, reconcileResult \<times> goError option) go" where
  "finishConfigMapUpdate r rule sumRule = do {
     (serr, p) \<leftarrow> setRulesStatus r
       (if lastSum (rulesStatus rule) \<noteq> sumRule
        then rule\<lparr>rulesStatus := (rulesStatus rule)\<lparr>lastSum := sumRule\<rparr>\<rparr> else rule)
       (mkCondition typeAvailableVillipRules ConditionTrue ''Reconciled'' ''ConfigMap updated'');
     (case serr of
        Some err \<Rightarrow> ret (noRequeue, Some err)
      | None \<Rightarrow> do {
          rerr \<leftarrow> rolloutDependentProxies r (metaNamespace (rulesMeta p)) (metaName (rulesMeta p));
          (case rerr of
             Some err \<Rightarrow> ret (noRequeue, Some err)
           | None \<Rightarrow> ret (requeueMinute, None))
        })
   }"

definition updateConfigMap ::
  "'w reconciler \<Rightarrow> namespacedName \<Rightarrow> villipRules \<Rightarrow> configMap \<Rightarrow> string \<Rightarrow>
     ('w, reconcileResult \<times> goError option) go" where
  "updateConfigMap r req rule found sumRule = do {
     (serr, rule) \<leftarrow> setRulesStatus r rule
       (mkCondition typeDegradedVillipRules ConditionFalse ''Updating''
          (''Update the data for the custom resource ('' @ metaName (rulesMeta rule) @ '')''));
     (case serr of
        Some err \<Rightarrow> ret (noRequeue, Some err)
      | None \<Rightarrow> do {
          res \<leftarrow> apiUpdateConfigMap r found;
          (case res of
             Inr _ \<Rightarrow> finishConfigMapUpdate r rule sumRule
           | Inl err \<Rightarrow> do {
               fetched \<leftarrow> apiGetRules r req;
               (case fetched of
                  Inl err' \<Rightarrow> ret (noRequeue, Some err')
                | Inr rule \<Rightarrow> do {
                    (serr, rule) \<leftarrow> setRulesStatus r rule (updateConfigMapFailure rule err);
                    (case serr of
                       Some e \<Rightarrow> ret (noRequeue, Some e)
                     | None \<Rightarrow> finishConfigMapUpdate r rule sumRule)
                  })
             })
        })
   }"

section \<open>One pass\<close>

text \<open>The comparison of an existing ConfigMap with the rule.\<close>

definition reconcileRulesData ::
  "'w reconciler \<Rightarrow> namespacedName \<Rightarrow> villipRules \<Rightarrow> configMap \<Rightarrow>
     ('w, reconcileResult \<times> goError option) go" where
  "reconcileRulesData r req rule found =
     (case yamlMarshal (lib r) (rulesSpec rule) of
        Inl err \<Rightarrow> ret (noRequeue, Some err)
      | Inr data \<Rightarrow>
         (case sumVillipRulesData data of
            Inl err \<Rightarrow> ret (noRequeue, Some err)
          | Inr sumRule \<Rightarrow>
             (case sumVillipRulesData (dataAt (configMapData found) (configMapKey rule)) of
                Inl err \<Rightarrow> ret (noRequeue, Some err)
              | Inr sumFound \<Rightarrow>
                  if sumFound \<noteq> sumRule
                  then updateConfigMap r req rule
                         (found\<lparr>configMapData := [configMapKey rule \<mapsto> data]\<rparr>) sumRule
                  else ret (requeueMinute, None))))"

definition reconcileRules ::
  "'w reconciler \<Rightarrow> namespacedName \<Rightarrow> ('w, reconcileResult \<times> goError option) go" where
  "reconcileRules r req = do {
     res \<leftarrow> apiGetRules r req;
     (case res of
        Inl err \<Rightarrow>
          if isNotFound err then ret (noRequeue, None) else ret (noRequeue, Some err)
      | Inr rule \<Rightarrow>
          if rulesConditions (rulesStatus rule) = [] then initRulesStatus r rule
          else if \<not> containsFinalizer (lib r) (metaFinalizers (rulesMeta rule)) villiprulesFinalizer
          then addRulesFinalizer r rule
          else if metaDeletionTimestamp (rulesMeta rule) \<noteq> None then do {
            err \<leftarrow> villipRulesMarkedToBeDeleted r rule req;
            ret (noRequeue, err)
          }
          else do {
            found \<leftarrow> apiGetConfigMap r (keyOf (rulesMeta rule));
            (case found of
               Inl err \<Rightarrow>
                 if isNotFound err then createConfigMap r rule else ret (noRequeue, Some err)
             | Inr cm \<Rightarrow> reconcileRulesData r req rule cm)
          })
   }"

section \<open>The owner index\<close>

text \<open>\<open>None\<close> is the nil slice: the ConfigMap is not indexed.\<close>

definition ownerKey :: string where
  "ownerKey = ''.metadata.controller''"

definition apiGVStr :: "lib \<Rightarrow> string" where
  "apiGVStr l = groupVersionString l (gvGroup groupVersionV1) (gvVersion groupVersionV1)"

definition indexConfigMapOwner :: "lib \<Rightarrow> configMap \<Rightarrow> string slice" where
  "indexConfigMapOwner l cm =
     (case getControllerOf l (configMapMeta cm) of
        None \<Rightarrow> None
      | Some owner \<Rightarrow>
          if ownerAPIVersion owner \<noteq> apiGVStr l \<or> ownerKind owner \<noteq> ''VillipRule'' then None
          else Some [ownerName owner])"

end
