(* ===== verification/Cluster_Store.thy ===== *)
theory Cluster_Store
  imports Proxy_Controller Rules_Controller
begin

text \<open>
  The assumptions on the world outside the repository, stated as data.

  \<open>libLaws\<close> are the documented laws of the pure helpers.  \<open>storeReconciler\<close> is an
  executable reference for the documented behaviour of the API server seen through the client:
  objects are found by namespace and name; an update carries the resource version it was read
  at and fails with a conflict otherwise; the status subresource and the main resource are
  written separately; an object that is being deleted takes no new finalizer and goes away with
  its last one; the selector of a Deployment is immutable; empty lists do not survive the JSON encoding (they come back as nil); admission
  is an arbitrary policy.  Any request may fail instead of being served: \<open>clFaults\<close> is the
  schedule of those failures, so a statement for every cluster is a statement for every way in
  which requests fail.

  \<open>behavesLike\<close> says that a client \<open>r\<close> over a world \<open>'w\<close> is such a server, seen
  through an abstraction function.  It is a hypothesis of the properties that need a server;
  the reconcilers themselves are defined for every client.
\<close>

section \<open>Laws of the helpers\<close>

definition conditionOf :: "string \<Rightarrow> condition list \<Rightarrow> condition option" where
  "conditionOf t cs = find (\<lambda>c. conditionType c = t) cs"

definition sameVerdict :: "condition \<Rightarrow> condition \<Rightarrow> bool" where
  "sameVerdict c d \<longleftrightarrow>
     conditionType c = conditionType d \<and> conditionStatus c = conditionStatus d \<and>
     conditionReason c = conditionReason d \<and> conditionMessage c = conditionMessage d"

definition setStatusConditionLaw :: "lib \<Rightarrow> bool" where
  "setStatusConditionLaw l \<longleftrightarrow>
     (\<forall>t cs c.
        (\<exists>d. conditionOf (conditionType c) (setStatusConditionAt l t cs c) = Some d \<and> sameVerdict d c) \<and>
        (\<forall>u. u \<noteq> conditionType c \<longrightarrow>
           conditionOf u (setStatusConditionAt l t cs c) = conditionOf u cs))"

definition finalizerLaws :: "lib \<Rightarrow> bool" where
  "finalizerLaws l \<longleftrightarrow>
     (\<forall>fs f. containsFinalizer l fs f = (f \<in> set fs)) \<and>
     (\<forall>fs f. controllerutilAddFinalizer l fs f =
               (if f \<in> set fs then (fs, False) else (fs @ [f], True))) \<and>
     (\<forall>fs f. controllerutilRemoveFinalizer l fs f = (filter (\<lambda>x. x \<noteq> f) fs, f \<in> set fs))"

definition ownerMeta :: "controllerOwner \<Rightarrow> objectMeta" where
  "ownerMeta ob = (case ob of ProxyOwner p \<Rightarrow> proxyMeta p | RulesOwner p \<Rightarrow> rulesMeta p)"

text \<open>The kind under which the Go type of the owner is registered in the scheme.\<close>

definition ownerKindOf :: "controllerOwner \<Rightarrow> string" where
  "ownerKindOf ob = (case ob of ProxyOwner p \<Rightarrow> ''VillipProxy'' | RulesOwner p \<Rightarrow> ''VillipRules'')"

text \<open>
  \<open>SetControllerReference\<close> on an object of the owner's namespace that has no owner yet
  succeeds and records a controller reference to the owner; \<open>GetControllerOf\<close> finds it.
  Setting the same owner a second time succeeds and changes nothing.
\<close>

definition controllerReferenceLaws :: "lib \<Rightarrow> bool" where
  "controllerReferenceLaws l \<longleftrightarrow>
     (\<forall>ob m. metaOwnerReferences m = [] \<and> metaNamespace m = metaNamespace (ownerMeta ob) \<longrightarrow>
        (\<exists>ref. setControllerReference l ob m = Inr (m\<lparr>metaOwnerReferences := [ref]\<rparr>) \<and>
               ownerKind ref = ownerKindOf ob \<and>
               ownerName ref = metaName (ownerMeta ob) \<and>
               ownerAPIVersion ref = groupVersionString l ''villip.carmier.fr'' ''v1'' \<and>
               ownerController ref = Some True)) \<and>
     (\<forall>ob m m'. setControllerReference l ob m = Inr m' \<longrightarrow>
        setControllerReference l ob m' = Inr m') \<and>
     (\<forall>m ref. metaOwnerReferences m = [ref] \<and> ownerController ref = Some True \<longrightarrow>
        getControllerOf l m = Some ref)"

definition libLaws :: "lib \<Rightarrow> bool" where
  "libLaws l \<longleftrightarrow> setStatusConditionLaw l \<and> finalizerLaws l \<and> controllerReferenceLaws l"

lemma libLaws_finalizer [simp]:
  assumes "libLaws l"
  shows "containsFinalizer l fs f \<longleftrightarrow> f \<in> set fs"
    and "controllerutilAddFinalizer l fs f = (if f \<in> set fs then (fs, False) else (fs @ [f], True))"
    and "controllerutilRemoveFinalizer l fs f = (filter (\<lambda>x. x \<noteq> f) fs, f \<in> set fs)"
  using assms by (auto simp: libLaws_def finalizerLaws_def)

lemma libLaws_set_same:
  assumes "libLaws l"
  obtains d where "conditionOf (conditionType c) (setStatusConditionAt l t cs c) = Some d"
    and "sameVerdict d c"
  using assms unfolding libLaws_def setStatusConditionLaw_def by blast

lemma libLaws_set_other:
  assumes "libLaws l" and "u \<noteq> conditionType c"
  shows "conditionOf u (setStatusConditionAt l t cs c) = conditionOf u cs"
  using assms unfolding libLaws_def setStatusConditionLaw_def by blast

lemma libLaws_set_nonempty [simp]:
  assumes "libLaws l"
  shows "setStatusConditionAt l t cs c \<noteq> []"
proof
  assume "setStatusConditionAt l t cs c = []"
  then show False using libLaws_set_same [OF assms, of c t cs] by (metis conditionOf_def find.simps(1) option.distinct(1))
qed

lemma libLaws_owner:
  assumes "libLaws l" and "metaOwnerReferences m = []"
    and "metaNamespace m = metaNamespace (ownerMeta ob)"
  obtains ref where "setControllerReference l ob m = Inr (m\<lparr>metaOwnerReferences := [ref]\<rparr>)"
    and "ownerKind ref = ownerKindOf ob" and "ownerName ref = metaName (ownerMeta ob)"
    and "ownerAPIVersion ref = groupVersionString l ''villip.carmier.fr'' ''v1''"
    and "ownerController ref = Some True"
  using assms unfolding libLaws_def controllerReferenceLaws_def by blast

lemma libLaws_owner_again:
  "libLaws l \<Longrightarrow> setControllerReference l ob m = Inr m' \<Longrightarrow> setControllerReference l ob m' = Inr m'"
  unfolding libLaws_def controllerReferenceLaws_def by blast

lemma libLaws_controllerOf:
  "libLaws l \<Longrightarrow> metaOwnerReferences m = [ref] \<Longrightarrow> ownerController ref = Some True \<Longrightarrow>
     getControllerOf l m = Some ref"
  unfolding libLaws_def controllerReferenceLaws_def by blast

section \<open>The reference server\<close>

record cluster =
  clProxies :: "villipProxy list"
  clRules :: "villipRules list"
  clDeployments :: "deployment list"
  clServices :: "service list"
  clConfigMaps :: "configMap list"
  clFaults :: "goError option list"
  clClock :: nat
  clEvents :: "(namespacedName \<times> string \<times> string \<times> string) list"

text \<open>
  What the server decides by itself: admission, label selectors given as text, the texts of its
  errors, and the readings of the clock (\<open>clClock\<close> counts them).
\<close>

datatype failure = NotFoundFailure | ConflictFailure | ExistsFailure | InvalidFailure

record policy =
  admitDeployment :: "deployment \<Rightarrow> goError option"
  admitService :: "service \<Rightarrow> goError option"
  selectDeployment :: "string \<Rightarrow> deployment \<Rightarrow> bool"
  failureText :: "failure \<Rightarrow> string \<Rightarrow> namespacedName \<Rightarrow> string"
  clockTime :: "nat \<Rightarrow> int"
  clockString :: "nat \<Rightarrow> string"

definition errNotFound :: "policy \<Rightarrow> string \<Rightarrow> namespacedName \<Rightarrow> goError" where
  "errNotFound pol kind n = GoError True (failureText pol NotFoundFailure kind n)"

definition errConflict :: "policy \<Rightarrow> string \<Rightarrow> namespacedName \<Rightarrow> goError" where
  "errConflict pol kind n = GoError False (failureText pol ConflictFailure kind n)"

definition errExists :: "policy \<Rightarrow> string \<Rightarrow> namespacedName \<Rightarrow> goError" where
  "errExists pol kind n = GoError False (failureText pol ExistsFailure kind n)"

definition errInvalid :: "policy \<Rightarrow> string \<Rightarrow> namespacedName \<Rightarrow> goError" where
  "errInvalid pol kind n = GoError False (failureText pol InvalidFailure kind n)"

subsection \<open>Object lists\<close>

definition findObj :: "('a \<Rightarrow> objectMeta) \<Rightarrow> namespacedName \<Rightarrow> 'a list \<Rightarrow> 'a option" where
  "findObj meta n xs = find (\<lambda>x. keyOf (meta x) = n) xs"

definition replaceObj :: "('a \<Rightarrow> objectMeta) \<Rightarrow> 'a \<Rightarrow> 'a list \<Rightarrow> 'a list" where
  "replaceObj meta x xs = map (\<lambda>y. if keyOf (meta y) = keyOf (meta x) then x else y) xs"

definition removeObj :: "('a \<Rightarrow> objectMeta) \<Rightarrow> namespacedName \<Rightarrow> 'a list \<Rightarrow> 'a list" where
  "removeObj meta n xs = filter (\<lambda>y. keyOf (meta y) \<noteq> n) xs"

text \<open>A write of a new version of an object: it goes away when its last finalizer does.\<close>

definition finalized :: "objectMeta \<Rightarrow> bool" where
  "finalized m \<longleftrightarrow> metaDeletionTimestamp m \<noteq> None \<and> metaFinalizers m = []"

definition writeObj :: "('a \<Rightarrow> objectMeta) \<Rightarrow> 'a \<Rightarrow> 'a list \<Rightarrow> 'a list" where
  "writeObj meta x xs =
     (if finalized (meta x) then removeObj meta (keyOf (meta x)) xs else replaceObj meta x xs)"

definition nextVersion :: "objectMeta \<Rightarrow> objectMeta \<Rightarrow> objectMeta" where
  "nextVersion old m =
     m\<lparr>metaResourceVersion := Suc (metaResourceVersion old),
       metaDeletionTimestamp := metaDeletionTimestamp old\<rparr>"

text \<open>The checks every update goes through before admission.\<close>

definition updateError :: "policy \<Rightarrow> string \<Rightarrow> objectMeta \<Rightarrow> objectMeta \<Rightarrow> goError option" where
  "updateError pol kind old m =
     (if metaResourceVersion m \<noteq> metaResourceVersion old then Some (errConflict pol kind (keyOf old))
      else if metaDeletionTimestamp old \<noteq> None \<and> \<not> set (metaFinalizers m) \<subseteq> set (metaFinalizers old)
      then Some (errInvalid pol kind (keyOf old)) else None)"

subsection \<open>Requests\<close>

definition serve :: "(cluster \<Rightarrow> (goError + 'a) \<times> cluster) \<Rightarrow> (cluster, goError + 'a) go" where
  "serve f = State (\<lambda>c.
     case clFaults c of
       [] \<Rightarrow> f c
     | None # fs \<Rightarrow> f (c\<lparr>clFaults := fs\<rparr>)
     | Some e # fs \<Rightarrow> (Inl e, c\<lparr>clFaults := fs\<rparr>))"

definition found :: "policy \<Rightarrow> string \<Rightarrow> namespacedName \<Rightarrow> 'a option \<Rightarrow> goError + 'a" where
  "found pol kind n x = (case x of None \<Rightarrow> Inl (errNotFound pol kind n) | Some y \<Rightarrow> Inr y)"

text \<open>What a list field becomes on its way through JSON.\<close>

fun jsonList :: "'a slice \<Rightarrow> 'a slice" where
  "jsonList (Some []) = None"
| "jsonList xs = xs"

definition encodeDeployment :: "deployment \<Rightarrow> deployment" where
  "encodeDeployment d =
     (let spec = deploymentSpec d; pod = templateSpec spec in
      d\<lparr>deploymentSpec := spec\<lparr>templateSpec := pod\<lparr>podContainers :=
        map (\<lambda>c. c\<lparr>containerPorts := jsonList (containerPorts c)\<rparr>) (podContainers pod)\<rparr>\<rparr>\<rparr>)"

definition encodeService :: "service \<Rightarrow> service" where
  "encodeService s =
     s\<lparr>serviceSpec := (serviceSpec s)\<lparr>servicePorts := jsonList (servicePorts (serviceSpec s))\<rparr>\<rparr>"

definition storeUpdateProxy :: "policy \<Rightarrow> (villipProxy \<Rightarrow> villipProxy \<Rightarrow> villipProxy) \<Rightarrow> villipProxy \<Rightarrow> cluster \<Rightarrow> (goError + villipProxy) \<times> cluster" where
  "storeUpdateProxy pol merge p c =
     (case findObj proxyMeta (keyOf (proxyMeta p)) (clProxies c) of
        None \<Rightarrow> (Inl (errNotFound pol ''VillipProxy'' (keyOf (proxyMeta p))), c)
      | Some old \<Rightarrow>
          (let m = merge old p in
           case updateError pol ''VillipProxy'' (proxyMeta old) ((proxyMeta m)\<lparr>metaResourceVersion := metaResourceVersion (proxyMeta p)\<rparr>) of
             Some e \<Rightarrow> (Inl e, c)
           | None \<Rightarrow>
               (let new = m\<lparr>proxyMeta := nextVersion (proxyMeta old) (proxyMeta m)\<rparr>
                in (Inr new, c\<lparr>clProxies := writeObj proxyMeta new (clProxies c)\<rparr>))))"

definition storeUpdateRules :: "policy \<Rightarrow> (villipRules \<Rightarrow> villipRules \<Rightarrow> villipRules) \<Rightarrow> villipRules \<Rightarrow> cluster \<Rightarrow> (goError + villipRules) \<times> cluster" where
  "storeUpdateRules pol merge p c =
     (case findObj rulesMeta (keyOf (rulesMeta p)) (clRules c) of
        None \<Rightarrow> (Inl (errNotFound pol ''VillipRules'' (keyOf (rulesMeta p))), c)
      | Some old \<Rightarrow>
          (let m = merge old p in
           case updateError pol ''VillipRules'' (rulesMeta old) ((rulesMeta m)\<lparr>metaResourceVersion := metaResourceVersion (rulesMeta p)\<rparr>) of
             Some e \<Rightarrow> (Inl e, c)
           | None \<Rightarrow>
               (let new = m\<lparr>rulesMeta := nextVersion (rulesMeta old) (rulesMeta m)\<rparr>
                in (Inr new, c\<lparr>clRules := writeObj rulesMeta new (clRules c)\<rparr>))))"

text \<open>
  The JSON patch document that removes entry \<open>i\<close> of the finalizer list.  Removing a path
  that does not exist is an error (RFC 6902).
\<close>

definition finalizerRemoval :: "nat \<Rightarrow> string" where
  "finalizerRemoval i = ''[{\"op\": \"remove\", \"path\": \"/metadata/finalizers/'' @ utoa i @ ''\"}]''"

definition storePatchRules :: "policy \<Rightarrow> villipRules \<Rightarrow> rawPatch \<Rightarrow> cluster \<Rightarrow> (goError + villipRules) \<times> cluster" where
  "storePatchRules pol p patch c =
     (case findObj rulesMeta (keyOf (rulesMeta p)) (clRules c) of
        None \<Rightarrow> (Inl (errNotFound pol ''VillipRules'' (keyOf (rulesMeta p))), c)
      | Some old \<Rightarrow>
          (let fs = metaFinalizers (rulesMeta old) in
           case find (\<lambda>i. patchData patch = finalizerRemoval i) [0..<length fs] of
             None \<Rightarrow> (Inl (errInvalid pol ''VillipRules'' (keyOf (rulesMeta p))), c)
           | Some i \<Rightarrow>
               (let new = old\<lparr>rulesMeta := nextVersion (rulesMeta old)
                                ((rulesMeta old)\<lparr>metaFinalizers := take i fs @ drop (Suc i) fs\<rparr>)\<rparr>
                in (Inr new, c\<lparr>clRules := writeObj rulesMeta new (clRules c)\<rparr>))))"

definition storeCreateDeployment :: "policy \<Rightarrow> deployment \<Rightarrow> cluster \<Rightarrow> (goError + deployment) \<times> cluster" where
  "storeCreateDeployment pol d c =
     (let new = encodeDeployment d in
      case (findObj deploymentMeta (keyOf (deploymentMeta d)) (clDeployments c), admitDeployment pol new) of
        (Some _, _) \<Rightarrow> (Inl (errExists pol ''Deployment'' (keyOf (deploymentMeta d))), c)
      | (None, Some e) \<Rightarrow> (Inl e, c)
      | (None, None) \<Rightarrow> (Inr new, c\<lparr>clDeployments := clDeployments c @ [new]\<rparr>))"

definition storeUpdateDeployment :: "policy \<Rightarrow> deployment \<Rightarrow> cluster \<Rightarrow> (goError + deployment) \<times> cluster" where
  "storeUpdateDeployment pol d c =
     (case findObj deploymentMeta (keyOf (deploymentMeta d)) (clDeployments c) of
        None \<Rightarrow> (Inl (errNotFound pol ''Deployment'' (keyOf (deploymentMeta d))), c)
      | Some old \<Rightarrow>
          (let new = (encodeDeployment d)\<lparr>deploymentMeta :=
                        nextVersion (deploymentMeta old) (deploymentMeta d)\<rparr> in
           case updateError pol ''Deployment'' (deploymentMeta old) (deploymentMeta d) of
             Some e \<Rightarrow> (Inl e, c)
           | None \<Rightarrow>
               if deploymentMatchLabels (deploymentSpec d) \<noteq> deploymentMatchLabels (deploymentSpec old)
               then (Inl (errInvalid pol ''Deployment'' (keyOf (deploymentMeta d))), c)
               else (case admitDeployment pol new of
                  Some e \<Rightarrow> (Inl e, c)
                | None \<Rightarrow>
                    (Inr new, c\<lparr>clDeployments := writeObj deploymentMeta new (clDeployments c)\<rparr>))))"

definition storeCreateService :: "policy \<Rightarrow> service \<Rightarrow> cluster \<Rightarrow> (goError + service) \<times> cluster" where
  "storeCreateService pol s c =
     (let new = encodeService s in
      case (findObj serviceMeta (keyOf (serviceMeta s)) (clServices c), admitService pol new) of
        (Some _, _) \<Rightarrow> (Inl (errExists pol ''Service'' (keyOf (serviceMeta s))), c)
      | (None, Some e) \<Rightarrow> (Inl e, c)
      | (None, None) \<Rightarrow> (Inr new, c\<lparr>clServices := clServices c @ [new]\<rparr>))"

definition storeUpdateService :: "policy \<Rightarrow> service \<Rightarrow> cluster \<Rightarrow> (goError + service) \<times> cluster" where
  "storeUpdateService pol s c =
     (case findObj serviceMeta (keyOf (serviceMeta s)) (clServices c) of
        None \<Rightarrow> (Inl (errNotFound pol ''Service'' (keyOf (serviceMeta s))), c)
      | Some old \<Rightarrow>
          (let new = (encodeService s)\<lparr>serviceMeta := nextVersion (serviceMeta old) (serviceMeta s)\<rparr> in
           case updateError pol ''Service'' (serviceMeta old) (serviceMeta s) of
             Some e \<Rightarrow> (Inl e, c)
           | None \<Rightarrow>
               (case admitService pol new of
                  Some e \<Rightarrow> (Inl e, c)
                | None \<Rightarrow> (Inr new, c\<lparr>clServices := writeObj serviceMeta new (clServices c)\<rparr>))))"

definition storeCreateConfigMap :: "policy \<Rightarrow> configMap \<Rightarrow> cluster \<Rightarrow> (goError + configMap) \<times> cluster" where
  "storeCreateConfigMap pol m c =
     (case findObj configMapMeta (keyOf (configMapMeta m)) (clConfigMaps c) of
        Some _ \<Rightarrow> (Inl (errExists pol ''ConfigMap'' (keyOf (configMapMeta m))), c)
      | None \<Rightarrow> (Inr m, c\<lparr>clConfigMaps := clConfigMaps c @ [m]\<rparr>))"

definition storeUpdateConfigMap :: "policy \<Rightarrow> configMap \<Rightarrow> cluster \<Rightarrow> (goError + configMap) \<times> cluster" where
  "storeUpdateConfigMap pol m c =
     (case findObj configMapMeta (keyOf (configMapMeta m)) (clConfigMaps c) of
        None \<Rightarrow> (Inl (errNotFound pol ''ConfigMap'' (keyOf (configMapMeta m))), c)
      | Some old \<Rightarrow>
          (let new = m\<lparr>configMapMeta := nextVersion (configMapMeta old) (configMapMeta m)\<rparr> in
           case updateError pol ''ConfigMap'' (configMapMeta old) (configMapMeta m) of
             Some e \<Rightarrow> (Inl e, c)
           | None \<Rightarrow> (Inr new, c\<lparr>clConfigMaps := writeObj configMapMeta new (clConfigMaps c)\<rparr>)))"

text \<open>The ConfigMaps of a namespace that carry all the given labels.\<close>

definition selectConfigMaps :: "string \<Rightarrow> stringMap \<Rightarrow> configMap list \<Rightarrow> configMap list" where
  "selectConfigMaps ns sel cms =
     filter (\<lambda>m. metaNamespace (configMapMeta m) = ns \<and> sel \<subseteq>\<^sub>m metaLabels (configMapMeta m)) cms"

definition selectDeployments :: "policy \<Rightarrow> string \<Rightarrow> string \<Rightarrow> deployment list \<Rightarrow> deployment list" where
  "selectDeployments pol ns sel ds =
     filter (\<lambda>d. metaNamespace (deploymentMeta d) = ns \<and> selectDeployment pol sel d) ds"

definition storeReconciler :: "policy \<Rightarrow> lib \<Rightarrow> cluster reconciler" where
  "storeReconciler pol l =
     \<lparr>lib = l,
      apiGetProxy = (\<lambda>n. serve (\<lambda>c. (found pol ''VillipProxy'' n (findObj proxyMeta n (clProxies c)), c))),
      apiUpdateProxy = (\<lambda>p. serve (storeUpdateProxy pol (\<lambda>old p. p\<lparr>proxyStatus := proxyStatus old\<rparr>) p)),
      apiUpdateProxyStatus = (\<lambda>p. serve (storeUpdateProxy pol (\<lambda>old p. old\<lparr>proxyStatus := proxyStatus p\<rparr>) p)),
      apiGetRules = (\<lambda>n. serve (\<lambda>c. (found pol ''VillipRules'' n (findObj rulesMeta n (clRules c)), c))),
      apiUpdateRules = (\<lambda>p. serve (storeUpdateRules pol (\<lambda>old p. p\<lparr>rulesStatus := rulesStatus old\<rparr>) p)),
      apiUpdateRulesStatus = (\<lambda>p. serve (storeUpdateRules pol (\<lambda>old p. old\<lparr>rulesStatus := rulesStatus p\<rparr>) p)),
      apiPatchRules = (\<lambda>p patch. serve (storePatchRules pol p patch)),
      apiGetDeployment = (\<lambda>n. serve (\<lambda>c. (found pol ''Deployment'' n (findObj deploymentMeta n (clDeployments c)), c))),
      apiCreateDeployment = (\<lambda>d. serve (storeCreateDeployment pol d)),
      apiUpdateDeployment = (\<lambda>d. serve (storeUpdateDeployment pol d)),
      apiListDeployments = (\<lambda>ns sel. serve (\<lambda>c. (Inr (selectDeployments pol ns sel (clDeployments c)), c))),
      apiGetService = (\<lambda>n. serve (\<lambda>c. (found pol ''Service'' n (findObj serviceMeta n (clServices c)), c))),
      apiCreateService = (\<lambda>s. serve (storeCreateService pol s)),
      apiUpdateService = (\<lambda>s. serve (storeUpdateService pol s)),
      apiGetConfigMap = (\<lambda>n. serve (\<lambda>c. (found pol ''ConfigMap'' n (findObj configMapMeta n (clConfigMaps c)), c))),
      apiCreateConfigMap = (\<lambda>m. serve (storeCreateConfigMap pol m)),
      apiUpdateConfigMap = (\<lambda>m. serve (storeUpdateConfigMap pol m)),
      apiListConfigMaps = (\<lambda>ns sel. serve (\<lambda>c. (Inr (selectConfigMaps ns sel (clConfigMaps c)), c))),
      recordEvent = (\<lambda>n t rs m. State (\<lambda>c. ((), c\<lparr>clEvents := clEvents c @ [(n, t, rs, m)]\<rparr>))),
      timeNow = State (\<lambda>c. (clockTime pol (clClock c), c\<lparr>clClock := Suc (clClock c)\<rparr>)),
      timeNowString = State (\<lambda>c. (clockString pol (clClock c), c\<lparr>clClock := Suc (clClock c)\<rparr>))\<rparr>"

section \<open>Clients that behave like the reference\<close>

text \<open>
  \<open>refines\<close>: seen through \<open>\<alpha>\<close>, every call of the client \<open>r\<close> has the result and the
  effect of the same call of the client \<open>r'\<close>.
\<close>

definition refines :: "('w \<Rightarrow> 'v) \<Rightarrow> 'w reconciler \<Rightarrow> 'v reconciler \<Rightarrow> bool" where
  "refines \<alpha> r r' \<longleftrightarrow>
     lib r' = lib r \<and>
     (\<forall>n. simulates \<alpha> (apiGetProxy r n) (apiGetProxy r' n)) \<and>
     (\<forall>p. simulates \<alpha> (apiUpdateProxy r p) (apiUpdateProxy r' p)) \<and>
     (\<forall>p. simulates \<alpha> (apiUpdateProxyStatus r p) (apiUpdateProxyStatus r' p)) \<and>
     (\<forall>n. simulates \<alpha> (apiGetRules r n) (apiGetRules r' n)) \<and>
     (\<forall>p. simulates \<alpha> (apiUpdateRules r p) (apiUpdateRules r' p)) \<and>
     (\<forall>p. simulates \<alpha> (apiUpdateRulesStatus r p) (apiUpdateRulesStatus r' p)) \<and>
     (\<forall>p x. simulates \<alpha> (apiPatchRules r p x) (apiPatchRules r' p x)) \<and>
     (\<forall>n. simulates \<alpha> (apiGetDeployment r n) (apiGetDeployment r' n)) \<and>
     (\<forall>d. simulates \<alpha> (apiCreateDeployment r d) (apiCreateDeployment r' d)) \<and>
     (\<forall>d. simulates \<alpha> (apiUpdateDeployment r d) (apiUpdateDeployment r' d)) \<and>
     (\<forall>n l. simulates \<alpha> (apiListDeployments r n l) (apiListDeployments r' n l)) \<and>
     (\<forall>n. simulates \<alpha> (apiGetService r n) (apiGetService r' n)) \<and>
     (\<forall>d. simulates \<alpha> (apiCreateService r d) (apiCreateService r' d)) \<and>
     (\<forall>d. simulates \<alpha> (apiUpdateService r d) (apiUpdateService r' d)) \<and>
     (\<forall>n. simulates \<alpha> (apiGetConfigMap r n) (apiGetConfigMap r' n)) \<and>
     (\<forall>d. simulates \<alpha> (apiCreateConfigMap r d) (apiCreateConfigMap r' d)) \<and>
     (\<forall>d. simulates \<alpha> (apiUpdateConfigMap r d) (apiUpdateConfigMap r' d)) \<and>
     (\<forall>n l. simulates \<alpha> (apiListConfigMaps r n l) (apiListConfigMaps r' n l)) \<and>
     (\<forall>n t x m. simulates \<alpha> (recordEvent r n t x m) (recordEvent r' n t x m)) \<and>
     simulates \<alpha> (timeNow r) (timeNow r') \<and>
     simulates \<alpha> (timeNowString r) (timeNowString r')"

definition behavesLike :: "('w \<Rightarrow> cluster) \<Rightarrow> policy \<Rightarrow> 'w reconciler \<Rightarrow> bool" where
  "behavesLike \<alpha> pol r \<longleftrightarrow> refines \<alpha> r (storeReconciler pol (lib r))"

lemma refines_refl: "refines (\<lambda>w. w) r r"
  by (simp add: refines_def simulates_refl)

lemma behavesLike_store: "behavesLike (\<lambda>c. c) pol (storeReconciler pol l)"
  using refines_refl [of "storeReconciler pol l"] by (simp add: behavesLike_def storeReconciler_def)

end
