(* ===== verification/Store_Transfer.thy ===== *)
theory Store_Transfer
  imports Cluster_Store
begin

text \<open>
  Transfer: a pass of either reconciler over a client that refines another has the same result
  as the pass over the other, and leaves a world that abstracts to the same world.  One lemma per
  operation, each by the compositional rules of \<open>simulates\<close>.  The last section has the form the
  properties use: the client behaves like the reference server.
\<close>

named_theorems transfer_rules

lemma store_lib [simp]: "lib (storeReconciler pol l) = l"
  by (simp add: storeReconciler_def)

lemma refines_lib: "refines \<alpha> r r' \<Longrightarrow> lib r' = lib r"
  by (simp add: refines_def)

lemma refines_calls [transfer_rules]:
  assumes "refines \<alpha> r r'"
  shows "simulates \<alpha> (apiGetProxy r n) (apiGetProxy r' n)"
    and "simulates \<alpha> (apiUpdateProxy r p) (apiUpdateProxy r' p)"
    and "simulates \<alpha> (apiUpdateProxyStatus r p) (apiUpdateProxyStatus r' p)"
    and "simulates \<alpha> (apiGetRules r n) (apiGetRules r' n)"
    and "simulates \<alpha> (apiUpdateRules r q) (apiUpdateRules r' q)"
    and "simulates \<alpha> (apiUpdateRulesStatus r q) (apiUpdateRulesStatus r' q)"
    and "simulates \<alpha> (apiPatchRules r q x) (apiPatchRules r' q x)"
    and "simulates \<alpha> (apiGetDeployment r n) (apiGetDeployment r' n)"
    and "simulates \<alpha> (apiCreateDeployment r d) (apiCreateDeployment r' d)"
    and "simulates \<alpha> (apiUpdateDeployment r d) (apiUpdateDeployment r' d)"
    and "simulates \<alpha> (apiListDeployments r ns s) (apiListDeployments r' ns s)"
    and "simulates \<alpha> (apiGetService r n) (apiGetService r' n)"
    and "simulates \<alpha> (apiCreateService r v) (apiCreateService r' v)"
    and "simulates \<alpha> (apiUpdateService r v) (apiUpdateService r' v)"
    and "simulates \<alpha> (apiGetConfigMap r n) (apiGetConfigMap r' n)"
    and "simulates \<alpha> (apiCreateConfigMap r m) (apiCreateConfigMap r' m)"
    and "simulates \<alpha> (apiUpdateConfigMap r m) (apiUpdateConfigMap r' m)"
    and "simulates \<alpha> (apiListConfigMaps r ns sel) (apiListConfigMaps r' ns sel)"
    and "simulates \<alpha> (recordEvent r n t y z) (recordEvent r' n t y z)"
    and "simulates \<alpha> (timeNow r) (timeNow r')"
    and "simulates \<alpha> (timeNowString r) (timeNowString r')"
  using assms unfolding refines_def by simp_all

section \<open>The proxy reconciler\<close>

lemma refines_setProxyStatus [transfer_rules]:
  assumes "refines \<alpha> r r'"
  shows "simulates \<alpha> (setProxyStatus r p c) (setProxyStatus r' p c)"
  unfolding setProxyStatus_def setProxyCondition_def refines_lib [OF assms]
  by (intro sim_intros transfer_rules assms)

lemma refines_deploymentUpdate [transfer_rules]:
  assumes "refines \<alpha> r r'"
  shows "simulates \<alpha> (deploymentUpdate r req p d) (deploymentUpdate r' req p d)"
  unfolding deploymentUpdate_def by (intro sim_intros transfer_rules assms)

lemma refines_serviceUpdate [transfer_rules]:
  assumes "refines \<alpha> r r'"
  shows "simulates \<alpha> (serviceUpdate r req p d) (serviceUpdate r' req p d)"
  unfolding serviceUpdate_def by (intro sim_intros transfer_rules assms)

lemma refines_mountRulesets [transfer_rules]:
  assumes "refines \<alpha> r r'"
  shows "simulates \<alpha> (mountRulesets r ns rss acc) (mountRulesets r' ns rss acc)"
proof (induction rss arbitrary: acc)
  case Nil
  show ?case unfolding mountRulesets.simps by (rule simulates_ret)
next
  case (Cons x xs)
  show ?case unfolding mountRulesets.simps by (intro sim_intros transfer_rules assms Cons.IH)
qed

lemma refines_collectNames [transfer_rules]:
  assumes "refines \<alpha> r r'"
  shows "simulates \<alpha> (collectNames r ns rss acc) (collectNames r' ns rss acc)"
proof (induction rss arbitrary: acc)
  case Nil
  show ?case unfolding collectNames.simps by (rule simulates_ret)
next
  case (Cons x xs)
  show ?case unfolding collectNames.simps by (intro sim_intros transfer_rules assms Cons.IH)
qed

lemma refines_mountsForVillipProxy [transfer_rules]:
  assumes "refines \<alpha> r r'"
  shows "simulates \<alpha> (mountsForVillipProxy r rss ns) (mountsForVillipProxy r' rss ns)"
  unfolding mountsForVillipProxy_def by (intro sim_intros transfer_rules assms)

lemma refines_isRulesetsChanged [transfer_rules]:
  assumes "refines \<alpha> r r'"
  shows "simulates \<alpha> (isRulesetsChanged r p d) (isRulesetsChanged r' p d)"
  unfolding isRulesetsChanged_def by (intro sim_intros transfer_rules assms)

lemma refines_deploymentForVillipProxy [transfer_rules]:
  assumes "refines \<alpha> r r'"
  shows "simulates \<alpha> (deploymentForVillipProxy r p) (deploymentForVillipProxy r' p)"
  unfolding deploymentForVillipProxy_def refines_lib [OF assms] by (intro sim_intros transfer_rules assms)

lemma refines_createDeployment [transfer_rules]:
  assumes "refines \<alpha> r r'"
  shows "simulates \<alpha> (createDeployment r p) (createDeployment r' p)"
  unfolding createDeployment_def by (intro sim_intros transfer_rules assms)

lemma refines_createService [transfer_rules]:
  assumes "refines \<alpha> r r'"
  shows "simulates \<alpha> (createService r p) (createService r' p)"
  unfolding createService_def serviceForVillipProxy_def refines_lib [OF assms]
  by (intro sim_intros transfer_rules assms)

lemma refines_managePortChange [transfer_rules]:
  assumes "refines \<alpha> r r'"
  shows "simulates \<alpha> (managePortChange r p req d s) (managePortChange r' p req d s)"
  unfolding managePortChange_def refines_lib [OF assms] by (intro sim_intros transfer_rules assms)

lemma refines_initProxyStatus [transfer_rules]:
  assumes "refines \<alpha> r r'"
  shows "simulates \<alpha> (initProxyStatus r p) (initProxyStatus r' p)"
  unfolding initProxyStatus_def by (intro sim_intros transfer_rules assms)

lemma refines_addProxyFinalizer [transfer_rules]:
  assumes "refines \<alpha> r r'"
  shows "simulates \<alpha> (addProxyFinalizer r p) (addProxyFinalizer r' p)"
  unfolding addProxyFinalizer_def refines_lib [OF assms] by (intro sim_intros transfer_rules assms)

lemma refines_villipProxyMarkedToBeDeleted [transfer_rules]:
  assumes "refines \<alpha> r r'"
  shows "simulates \<alpha> (villipProxyMarkedToBeDeleted r p req)
       (villipProxyMarkedToBeDeleted r' p req)"
  unfolding villipProxyMarkedToBeDeleted_def doFinalizerOperationsForVillipProxy_def refines_lib [OF assms]
  by (intro sim_intros transfer_rules assms)

lemma refines_reconcileProxyService [transfer_rules]:
  assumes "refines \<alpha> r r'"
  shows "simulates \<alpha> (reconcileProxyService r req p d) (reconcileProxyService r' req p d)"
  unfolding reconcileProxyService_def by (intro sim_intros transfer_rules assms)

lemma refines_reconcileProxyRulesets [transfer_rules]:
  assumes "refines \<alpha> r r'"
  shows "simulates \<alpha> (reconcileProxyRulesets r req p d) (reconcileProxyRulesets r' req p d)"
  unfolding reconcileProxyRulesets_def by (intro sim_intros transfer_rules assms)

lemma refines_reconcileProxyDeployment [transfer_rules]:
  assumes "refines \<alpha> r r'"
  shows "simulates \<alpha> (reconcileProxyDeployment r req p) (reconcileProxyDeployment r' req p)"
  unfolding reconcileProxyDeployment_def by (intro sim_intros transfer_rules assms)

lemma refines_reconcileProxy:
  assumes "refines \<alpha> r r'"
  shows "simulates \<alpha> (reconcileProxy r req) (reconcileProxy r' req)"
  unfolding reconcileProxy_def refines_lib [OF assms] by (intro sim_intros transfer_rules assms)

section \<open>The rules reconciler\<close>

lemma refines_setRulesStatus [transfer_rules]:
  assumes "refines \<alpha> r r'"
  shows "simulates \<alpha> (setRulesStatus r p c) (setRulesStatus r' p c)"
  unfolding setRulesStatus_def setRulesCondition_def refines_lib [OF assms]
  by (intro sim_intros transfer_rules assms)

lemma refines_initRulesStatus [transfer_rules]:
  assumes "refines \<alpha> r r'"
  shows "simulates \<alpha> (initRulesStatus r p) (initRulesStatus r' p)"
  unfolding initRulesStatus_def by (intro sim_intros transfer_rules assms)

lemma refines_addRulesFinalizer [transfer_rules]:
  assumes "refines \<alpha> r r'"
  shows "simulates \<alpha> (addRulesFinalizer r p) (addRulesFinalizer r' p)"
  unfolding addRulesFinalizer_def refines_lib [OF assms] by (intro sim_intros transfer_rules assms)

lemma refines_patchFinalizers [transfer_rules]:
  assumes "refines \<alpha> r r'"
  shows "simulates \<alpha> (patchFinalizers r is p) (patchFinalizers r' is p)"
proof (induction "is" arbitrary: p)
  case Nil
  show ?case unfolding patchFinalizers.simps by (rule simulates_ret)
next
  case (Cons x xs)
  show ?case unfolding patchFinalizers.simps by (intro sim_intros transfer_rules assms Cons.IH)
qed

lemma refines_villipRulesMarkedToBeDeleted [transfer_rules]:
  assumes "refines \<alpha> r r'"
  shows "simulates \<alpha> (villipRulesMarkedToBeDeleted r p req)
       (villipRulesMarkedToBeDeleted r' p req)"
  unfolding villipRulesMarkedToBeDeleted_def doFinalizerOperationsForVillipRules_def refines_lib [OF assms]
  by (intro sim_intros transfer_rules assms)

lemma refines_rolloutNames [transfer_rules]:
  assumes "refines \<alpha> r r'"
  shows "simulates \<alpha> (rolloutNames r n xs d) (rolloutNames r' n xs d)"
proof (induction xs arbitrary: d)
  case Nil
  show ?case unfolding rolloutNames.simps by (rule simulates_ret)
next
  case (Cons x xs)
  show ?case unfolding rolloutNames.simps by (intro sim_intros transfer_rules assms Cons.IH)
qed

lemma refines_rolloutDeployments [transfer_rules]:
  assumes "refines \<alpha> r r'"
  shows "simulates \<alpha> (rolloutDeployments r n ds) (rolloutDeployments r' n ds)"
proof (induction ds)
  case Nil
  show ?case unfolding rolloutDeployments.simps by (rule simulates_ret)
next
  case (Cons x xs)
  show ?case unfolding rolloutDeployments.simps by (intro sim_intros transfer_rules assms Cons.IH)
qed

lemma refines_rolloutDependentProxies [transfer_rules]:
  assumes "refines \<alpha> r r'"
  shows "simulates \<alpha> (rolloutDependentProxies r ns n) (rolloutDependentProxies r' ns n)"
  unfolding rolloutDependentProxies_def by (intro sim_intros transfer_rules assms)

lemma refines_finishConfigMapUpdate [transfer_rules]:
  assumes "refines \<alpha> r r'"
  shows "simulates \<alpha> (finishConfigMapUpdate r p s) (finishConfigMapUpdate r' p s)"
  unfolding finishConfigMapUpdate_def by (intro sim_intros transfer_rules assms)

lemma refines_updateConfigMap [transfer_rules]:
  assumes "refines \<alpha> r r'"
  shows "simulates \<alpha> (updateConfigMap r req p m s) (updateConfigMap r' req p m s)"
  unfolding updateConfigMap_def by (intro sim_intros transfer_rules assms)

lemma refines_createConfigMap [transfer_rules]:
  assumes "refines \<alpha> r r'"
  shows "simulates \<alpha> (createConfigMap r p) (createConfigMap r' p)"
  unfolding createConfigMap_def configMapForVillipRule_def refines_lib [OF assms]
  by (intro sim_intros transfer_rules assms)

lemma refines_reconcileRulesData [transfer_rules]:
  assumes "refines \<alpha> r r'"
  shows "simulates \<alpha> (reconcileRulesData r req p m) (reconcileRulesData r' req p m)"
  unfolding reconcileRulesData_def refines_lib [OF assms] by (intro sim_intros transfer_rules assms)

lemma refines_reconcileRules:
  assumes "refines \<alpha> r r'"
  shows "simulates \<alpha> (reconcileRules r req) (reconcileRules r' req)"
  unfolding reconcileRules_def refines_lib [OF assms] by (intro sim_intros transfer_rules assms)

section \<open>Clients that behave like the server\<close>

lemma transfer_reconcileProxy:
  "behavesLike \<alpha> pol r \<Longrightarrow>
     simulates \<alpha> (reconcileProxy r req) (reconcileProxy (storeReconciler pol (lib r)) req)"
  unfolding behavesLike_def by (rule refines_reconcileProxy)

lemma transfer_reconcileRules:
  "behavesLike \<alpha> pol r \<Longrightarrow>
     simulates \<alpha> (reconcileRules r req) (reconcileRules (storeReconciler pol (lib r)) req)"
  unfolding behavesLike_def by (rule refines_reconcileRules)

lemma transfer_rolloutDependentProxies:
  "behavesLike \<alpha> pol r \<Longrightarrow>
     simulates \<alpha> (rolloutDependentProxies r ns n) (rolloutDependentProxies (storeReconciler pol (lib r)) ns n)"
  unfolding behavesLike_def by (rule refines_rolloutDependentProxies)

lemma transfer_updateConfigMap:
  "behavesLike \<alpha> pol r \<Longrightarrow>
     simulates \<alpha> (updateConfigMap r req p m s) (updateConfigMap (storeReconciler pol (lib r)) req p m s)"
  unfolding behavesLike_def by (rule refines_updateConfigMap)

end
