(* ===== verification/Ranked_Loop.thy ===== *)
theory Ranked_Loop
  imports Main
begin

text \<open>
  The contract of a control loop: every pass keeps an invariant and a relation to the state
  before it, a settled state stays settled, and a pass from any other state lowers a rank.
  Both reconcilers are such loops on the reference server, with the phase of their object as
  the source of rank and goal.
\<close>

locale ranked_loop =
  fixes pass :: "'s \<Rightarrow> 's" and inv :: "'s \<Rightarrow> bool" and kept :: "'s \<Rightarrow> 's \<Rightarrow> bool"
    and rankOf :: "'s \<Rightarrow> nat" and settled :: "'s \<Rightarrow> bool"
  assumes inv_pass: "inv s \<Longrightarrow> inv (pass s)"
    and kept_refl: "kept s s"
    and kept_trans: "kept s t \<Longrightarrow> kept t u \<Longrightarrow> kept s u"
    and kept_pass: "inv s \<Longrightarrow> kept s (pass s)"
    and settled_pass: "inv s \<Longrightarrow> settled s \<Longrightarrow> settled (pass s)"
    and rank_pass: "inv s \<Longrightarrow> \<not> settled s \<Longrightarrow> rankOf (pass s) < rankOf s"
begin

lemma passes_inv: "inv s \<Longrightarrow> inv ((pass ^^ k) s) \<and> kept s ((pass ^^ k) s)"
  by (induction k) (auto intro: inv_pass kept_refl kept_trans kept_pass)

lemma passes_rank:
  assumes "inv s"
  shows "settled ((pass ^^ k) s) \<or> rankOf ((pass ^^ k) s) + k \<le> rankOf s"
proof (induction k)
  case (Suc k)
  have "inv ((pass ^^ k) s)" using passes_inv [OF assms] by blast
  then show ?case
    using Suc settled_pass rank_pass [of "(pass ^^ k) s"] by (cases "settled ((pass ^^ k) s)") auto
qed simp

text \<open>As many passes as the rank says are enough.\<close>

lemma settles:
  assumes "inv s" and "rankOf s \<le> k"
  shows "settled ((pass ^^ k) s)"
proof (rule ccontr)
  assume neg: "\<not> settled ((pass ^^ k) s)"
  then have "rankOf ((pass ^^ k) s) = 0" using passes_rank [OF assms(1), of k] assms(2) by simp
  then show False using rank_pass [OF _ neg] passes_inv [OF assms(1)] by simp
qed

end

end
