(* ===== verification/Conf_Annotation.thy ===== *)
theory Conf_Annotation
  imports Go_Strings
begin

text \<open>
  The protocol between the two controllers.  The proxy controller writes the names of the
  ConfigMaps a Deployment mounts into one annotation (\<open>strings.Join\<close> of the sorted names)
  and compares it with a fresh rendering; the rules controller splits it to find out which
  Deployments depend on a rule.  The locale \<open>name_codec\<close> states what both sides rely on;
  it is interpreted on the two expressions the code uses.

  A name is valid when it is not empty and holds no comma, which Kubernetes guarantees for
  object names (RFC 1123 labels and subdomains).
\<close>

definition validName :: "string \<Rightarrow> bool" where
  "validName n \<longleftrightarrow> n \<noteq> [] \<and> CHR '','' \<notin> set n"

locale name_codec =
  fixes encode :: "string list \<Rightarrow> string" and decode :: "string \<Rightarrow> string list"
  assumes decode_mset:
      "ns \<noteq> [] \<Longrightarrow> (\<And>n. n \<in> set ns \<Longrightarrow> validName n) \<Longrightarrow> mset (decode (encode ns)) = mset ns"
    and decode_empty: "decode (encode []) = [[]]"
    and encode_perm: "mset ns = mset ms \<Longrightarrow> encode ns = encode ms"
begin

text \<open>A reader finds exactly the names the writer put in.\<close>

lemma member_iff:
  assumes "\<And>m. m \<in> set ns \<Longrightarrow> validName m" and "validName n"
  shows "n \<in> set (decode (encode ns)) \<longleftrightarrow> n \<in> set ns"
proof (cases "ns = []")
  case True
  with assms(2) show ?thesis by (simp add: decode_empty validName_def)
next
  case False
  then have "mset (decode (encode ns)) = mset ns" using assms(1) by (rule decode_mset)
  then show ?thesis by (metis set_mset_mset)
qed

text \<open>Two encodings are equal exactly when the same names were written, with multiplicity.\<close>

lemma encode_eq_iff:
  assumes "\<And>n. n \<in> set ns \<Longrightarrow> validName n" and "\<And>n. n \<in> set ms \<Longrightarrow> validName n"
  shows "encode ns = encode ms \<longleftrightarrow> mset ns = mset ms"
proof
  assume eq: "encode ns = encode ms"
  have nil: "xs = []" if "encode xs = encode []" and "\<And>n. n \<in> set xs \<Longrightarrow> validName n" for xs
  proof (rule ccontr)
    assume ne: "xs \<noteq> []"
    then have "mset xs = mset (decode (encode xs))" using that(2) by (simp add: decode_mset)
    then have "mset xs = {#[]#}" using that(1) by (simp add: decode_empty)
    then have "[] \<in> set xs" by (metis set_mset_mset set_mset_single singletonI)
    then show False using that(2) by (auto simp: validName_def)
  qed
  show "mset ns = mset ms"
  proof (cases "ns = [] \<or> ms = []")
    case True
    then show ?thesis using nil [of ns] nil [of ms] eq assms by auto
  next
    case False
    then have "mset ns = mset (decode (encode ns))" and "mset ms = mset (decode (encode ms))"
      using assms by (simp_all add: decode_mset)
    then show ?thesis by (simp add: eq)
  qed
qed (rule encode_perm)

end

interpretation conf: name_codec "\<lambda>ns. joinStrings '','' (sortStrings ns)" "splitString (CHR '','')"
proof
  fix ns :: "string list"
  assume "ns \<noteq> []" and "\<And>n. n \<in> set ns \<Longrightarrow> validName n"
  then have "splitString (CHR '','') (joinStrings '','' (sortStrings ns)) = sortStrings ns"
    by (intro split_join) (simp_all add: validName_def)
  then show "mset (splitString (CHR '','') (joinStrings '','' (sortStrings ns))) = mset ns"
    by (simp add: sortStrings_def)
next
  show "splitString (CHR '','') (joinStrings '','' (sortStrings [])) = [[]]"
    by (simp add: sortStrings_def)
next
  fix ns ms :: "string list"
  assume "mset ns = mset ms"
  then have "sortStrings ns = sortStrings ms" by (rule sortStrings_eq_iff [THEN iffD2])
  then show "joinStrings '','' (sortStrings ns) = joinStrings '','' (sortStrings ms)"
    by (rule arg_cong)
qed

end
