(* ===== verification/Examples.thy ===== *)
theory Examples
  imports Reconciler
begin

text \<open>
  Concrete inputs for the witnesses: the proxy of \<open>examples/manifests/proxy_all.yaml\<close>, a
  rule, and one concrete choice of the pure helpers.
\<close>

definition exampleMeta :: "string \<Rightarrow> objectMeta" where
  "exampleMeta n = emptyMeta\<lparr>metaName := n, metaNamespace := ''default''\<rparr>"

definition exampleSpec :: villipProxySpec where
  "exampleSpec =
     \<lparr>specDebug = False,
      specImage = \<lparr>imageName = ''marema31/villip'', imageTag = ''latest''\<rparr>,
      specPorts = [8080, 8081, 8082],
      specRuleset =
        [\<lparr>matchLabels = [''ruleset'' \<mapsto> ''villiptests'', ''basedon'' \<mapsto> ''port'']\<rparr>,
         \<lparr>matchLabels = [''ruleset'' \<mapsto> ''villiptests'', ''basedon'' \<mapsto> ''priority'']\<rparr>],
      specTarget = \<lparr>targetNamespace = ''default'', targetName = ''smocker'', targetPort = 8080,
                    targetUri = ''/''\<rparr>,
      specSize = 2\<rparr>"

definition exampleProxy :: villipProxy where
  "exampleProxy =
     \<lparr>proxyMeta = exampleMeta ''villip'', proxySpec = exampleSpec,
      proxyStatus = \<lparr>proxyConditions = []\<rparr>\<rparr>"

definition exampleRule :: villipRules where
  "exampleRule =
     \<lparr>rulesMeta = exampleMeta ''tcpexample'',
      rulesSpec =
        \<lparr>ruleContentTypes = [], ruleDump = \<lparr>dumpFolder = '''', dumpUrls = []\<rparr>, ruleForce = False,
         ruleInsecure = False, rulePort = 8888, rulePrefix = [], rulePriority = 0,
         ruleReplace = [], ruleRequest = \<lparr>actionHeader = [], actionReplace = []\<rparr>,
         ruleResponse = \<lparr>actionHeader = [], actionReplace = []\<rparr>, ruleRestricted = [],
         ruleStatus = [], ruleToken = [], ruleType = ''tcp''\<rparr>,
      rulesStatus = \<lparr>rulesConditions = [], lastSum = ''''\<rparr>\<rparr>"

text \<open>Helpers with the documented behaviour, for witnesses only.\<close>

fun setConditionList :: "int \<Rightarrow> condition list \<Rightarrow> condition \<Rightarrow> condition list" where
  "setConditionList t [] c = [c\<lparr>conditionTransition := Some t\<rparr>]"
| "setConditionList t (d # ds) c =
     (if conditionType d = conditionType c
      then c\<lparr>conditionTransition :=
             (if conditionStatus d = conditionStatus c then conditionTransition d else Some t)\<rparr> # ds
      else d # setConditionList t ds c)"

definition exampleOwner :: "controllerOwner \<Rightarrow> ownerReference" where
  "exampleOwner ob =
     (case ob of
        ProxyOwner p \<Rightarrow>
          \<lparr>ownerAPIVersion = ''villip.carmier.fr/v1'', ownerKind = ''VillipProxy'',
           ownerName = metaName (proxyMeta p),
           ownerController = Some True\<rparr>
      | RulesOwner p \<Rightarrow>
          \<lparr>ownerAPIVersion = ''villip.carmier.fr/v1'', ownerKind = ''VillipRules'',
           ownerName = metaName (rulesMeta p),
           ownerController = Some True\<rparr>)"

definition exampleLib :: lib where
  "exampleLib =
     \<lparr>intstrFromInt = (\<lambda>i. IntVal (word_of_int i)),
      setStatusConditionAt = setConditionList,
      containsFinalizer = (\<lambda>fs f. f \<in> set fs),
      controllerutilAddFinalizer = (\<lambda>fs f. if f \<in> set fs then (fs, False) else (fs @ [f], True)),
      controllerutilRemoveFinalizer = (\<lambda>fs f. (filter (\<lambda>x. x \<noteq> f) fs, f \<in> set fs)),
      setControllerReference = (\<lambda>ob m. Inr (m\<lparr>metaOwnerReferences := [exampleOwner ob]\<rparr>)),
      getControllerOf = (\<lambda>m. find (\<lambda>x. ownerController x = Some True) (metaOwnerReferences m)),
      groupVersionString = (\<lambda>g v. g @ ''/'' @ v),
      yamlMarshal = (\<lambda>s. Inr (''type: '' @ ruleType s))\<rparr>"

lemmas example_simps =
  exampleMeta_def exampleSpec_def exampleProxy_def exampleRule_def emptyMeta_def

end
