(* ===== verification/Proxy_Properties.thy ===== *)
theory Proxy_Properties
  imports Proxy_Controller Conf_Annotation Examples
begin

text \<open>
  Properties of the proxy controller that hold for every client: the rendered ports, the
  labels and selectors, the target, the mounts and their annotation, and the results of a pass.
\<close>

section \<open>Ports\<close>

text \<open>C17: the container ports of two port lists are equal exactly when the lists agree up to
  order, so reordering the ports of a proxy never triggers a rollout and any other change does.\<close>

theorem deployment_ports_canonical:
  "portsForVillipProxyDeployment ps = portsForVillipProxyDeployment qs \<longleftrightarrow> mset ps = mset qs"
  by (simp add: portsForVillipProxyDeployment_eq ports.render_eq_iff inj_containerPortFor)

text \<open>The same for the Service.\<close>

lemma service_ports_canonical:
  "portsForVillipProxyService l ps = portsForVillipProxyService l qs \<longleftrightarrow> mset ps = mset qs"
  by (simp add: portsForVillipProxyService_eq ports.render_eq_iff inj_servicePortFor)

lemma service_port_of_uint:
  "p \<in> set (sortedPortsOfVillipProxy ps) \<Longrightarrow> uint (word_of_int p :: 32 word) = p"
  using ports.order_bounds [of p ps] by (simp add: uint_word_of_int)

text \<open>C18: the Service exposes every port of the proxy once per occurrence, in ascending order,
  each as an int32 below 65536 that forwards to the same port and is named after it in decimal;
  names are distinct exactly when the ports are.\<close>

theorem service_ports_sound:
  assumes "portsForVillipProxyService l ps = Some sps"
  shows "map (\<lambda>s. uint (sportPort s)) sps = sort (map uint ps) \<and>
    (distinct (map sportName sps) \<longleftrightarrow> distinct ps) \<and>
    (\<forall>s \<in> set sps. uint (sportPort s) < 65536 \<and>
       sportTargetPort s = intstrFromInt l (uint (sportPort s)) \<and>
       sportName s = ''port'' @ itoa (uint (sportPort s)))"
proof (intro conjI)
  have sps: "sps = map (servicePortFor l) (sortedPortsOfVillipProxy ps)"
    using assms by (simp add: portsForVillipProxyService_eq)
  have "map (\<lambda>s. uint (sportPort s)) sps = map (\<lambda>p. p) (sortedPortsOfVillipProxy ps)"
    unfolding sps map_map
    by (rule map_cong) (auto simp: servicePortFor_def service_port_of_uint)
  then show "map (\<lambda>s. uint (sportPort s)) sps = sort (map uint ps)"
    by (simp add: sortedPortsOfVillipProxy.simps sortInts_def)
  have "distinct (map sportName sps) \<longleftrightarrow>
          distinct (map (\<lambda>p. sportName (servicePortFor l p)) (sortedPortsOfVillipProxy ps))"
    by (simp add: sps comp_def)
  also have "\<dots> \<longleftrightarrow> distinct (sortedPortsOfVillipProxy ps)"
    using inj_servicePortName by (simp add: distinct_map inj_on_subset [OF _ subset_UNIV])
  finally show "distinct (map sportName sps) \<longleftrightarrow> distinct ps"
    by (simp add: ports.order_distinct)
  show "\<forall>s \<in> set sps. uint (sportPort s) < 65536 \<and>
           sportTargetPort s = intstrFromInt l (uint (sportPort s)) \<and>
           sportName s = ''port'' @ itoa (uint (sportPort s))"
    using ports.order_bounds [of _ ps]
    by (auto simp: sps servicePortFor_def service_port_of_uint)
qed

text \<open>A proxy that listens on 8081 and 80.\<close>

lemma service_ports_sound_witness:
  "\<exists>sps. portsForVillipProxyService exampleLib [8081, 80] = Some sps \<and>
     map (\<lambda>s. uint (sportPort s)) sps = [80, 8081]"
proof -
  have eq: "portsForVillipProxyService exampleLib [8081, 80] =
      Some (map (servicePortFor exampleLib) (sortedPortsOfVillipProxy [8081, 80]))"
    by (rule portsForVillipProxyService_eq)
  from service_ports_sound [OF eq] show ?thesis unfolding eq by simp
qed

section \<open>Labels and selectors\<close>

lemma labels_value:
  "\<exists>tag. labelsForVillipProxy p =
     Value ([''app.kubernetes.io/name'' \<mapsto> metaName (proxyMeta p),
             ''app.kubernetes.io/version'' \<mapsto> tag,
             ''app.kubernetes.io/managed-by'' \<mapsto> ''VillipProxyController'']
            ++ metaLabels (proxyMeta p))
   \<and> splitString (CHR '':'') (imageForVillipProxy p) ! 1 = tag"
proof -
  have "1 < length (splitString (CHR '':'') (imageForVillipProxy p))"
    by (simp add: length_splitString imageForVillipProxy_def)
  then show ?thesis by (simp add: labelsForVillipProxy_def nth_checked_def)
qed

text \<open>Computing the labels of a Deployment never panics: the image always holds a colon,
  so the index into its pieces is in range.  The three labels of the operator are there
  unless the proxy's own labels override them, and every label of the proxy is copied.\<close>

lemma labels_total:
  "\<exists>ls. labelsForVillipProxy p = Value ls \<and>
     metaLabels (proxyMeta p) \<subseteq>\<^sub>m ls \<and>
     (metaLabels (proxyMeta p) ''app.kubernetes.io/managed-by'' = None \<longrightarrow>
        ls ''app.kubernetes.io/managed-by'' = Some ''VillipProxyController'') \<and>
     (metaLabels (proxyMeta p) ''app.kubernetes.io/name'' = None \<longrightarrow>
        ls ''app.kubernetes.io/name'' = Some (metaName (proxyMeta p)))"
proof -
  obtain tag where ls: "labelsForVillipProxy p =
     Value ([''app.kubernetes.io/name'' \<mapsto> metaName (proxyMeta p),
             ''app.kubernetes.io/version'' \<mapsto> tag,
             ''app.kubernetes.io/managed-by'' \<mapsto> ''VillipProxyController'']
            ++ metaLabels (proxyMeta p))" (is "_ = Value ?ls")
    using labels_value [of p] by blast
  have "metaLabels (proxyMeta p) \<subseteq>\<^sub>m ?ls" by (simp add: map_le_map_add)
  with ls show ?thesis by (intro exI [of _ ?ls]) (simp add: map_add_def)
qed

text \<open>When neither the image name nor the tag holds a colon, the version label is the tag.\<close>

lemma version_label:
  assumes "CHR '':'' \<notin> set (imageName (specImage (proxySpec p)))"
    and "CHR '':'' \<notin> set (imageTag (specImage (proxySpec p)))"
    and "metaLabels (proxyMeta p) ''app.kubernetes.io/version'' = None"
  shows "\<exists>ls. labelsForVillipProxy p = Value ls \<and>
    ls ''app.kubernetes.io/version'' = Some (imageTag (specImage (proxySpec p)))"
  using labels_value [of p] assms
  by (auto simp: imageForVillipProxy_def splitString_append_sep splitString_no_sep map_add_def)

text \<open>C38: when the image name carries a registry port, the version label is the part of the
  name after that port's colon and does not depend on the tag.\<close>

theorem version_label_registry_port:
  assumes "imageName (specImage (proxySpec p)) = host @ '':'' @ path"
    and "CHR '':'' \<notin> set host" and "CHR '':'' \<notin> set path"
    and "metaLabels (proxyMeta p) ''app.kubernetes.io/version'' = None"
  shows "\<exists>ls. labelsForVillipProxy p = Value ls \<and>
    ls ''app.kubernetes.io/version'' = Some path"
  using labels_value [of p] assms
  by (auto simp: imageForVillipProxy_def splitString_append_sep map_add_def)

lemma version_label_registry_port_witness:
  "\<exists>ls. labelsForVillipProxy
       (exampleProxy\<lparr>proxySpec := exampleSpec\<lparr>specImage :=
          \<lparr>imageName = ''localhost:5000/villip'', imageTag = ''latest''\<rparr>\<rparr>\<rparr>) = Value ls \<and>
     ls ''app.kubernetes.io/version'' = Some ''5000/villip''"
  using version_label_registry_port [of "exampleProxy\<lparr>proxySpec := exampleSpec\<lparr>specImage :=
          \<lparr>imageName = ''localhost:5000/villip'', imageTag = ''latest''\<rparr>\<rparr>\<rparr>" "''localhost''" "''5000/villip''"]
  by (simp add: example_simps)

section \<open>The Deployment and the Service\<close>

text \<open>Building a Deployment: the result for every client.\<close>

definition deploymentShape :: "lib \<Rightarrow> villipProxy \<Rightarrow> deployment \<Rightarrow> bool" where
  "deploymentShape l p d \<longleftrightarrow>
     (\<exists>ls names m. labelsForVillipProxy p = Value ls \<and>
        d = (deploymentObject l p ls (map mountFor names) (map volumeFor names)
               [confAnnotation \<mapsto> joinStrings '','' (sortStrings names)])\<lparr>deploymentMeta := m\<rparr> \<and>
        setControllerReference l (ProxyOwner p)
          (deploymentMeta (deploymentObject l p ls (map mountFor names) (map volumeFor names)
               [confAnnotation \<mapsto> joinStrings '','' (sortStrings names)])) = Inr m)"

lemma mountItems_eq:
  "mountItems (vm, vol, ns) cms =
     (vm @ map (\<lambda>m. mountFor (metaName (configMapMeta m))) cms,
      vol @ map (\<lambda>m. volumeFor (metaName (configMapMeta m))) cms,
      ns @ map (\<lambda>m. metaName (configMapMeta m)) cms)"
  by (induction cms arbitrary: vm vol ns) simp_all

text \<open>Both walks over the rulesets issue the same list calls and gather the same names.\<close>

definition mountsOf :: "string list \<Rightarrow> volumeMount list \<times> volume list \<times> string list" where
  "mountsOf names = (map mountFor names, map volumeFor names, names)"

lemma mountItems_mountsOf:
  "mountItems (mountsOf names) cms = mountsOf (names @ map (\<lambda>m. metaName (configMapMeta m)) cms)"
  by (simp add: mountsOf_def mountItems_eq)

lemma mountRulesets_collectNames:
  "\<exists>names err w'. run_state (mountRulesets r ns rss (mountsOf xs)) w = ((err, mountsOf names), w') \<and>
     run_state (collectNames r ns rss xs) w =
       ((case err of None \<Rightarrow> Inr names | Some e \<Rightarrow> Inl e), w')"
proof (induction rss arbitrary: xs w)
  case Nil
  show ?case by simp
next
  case (Cons rs rss)
  obtain res w1 where list: "run_state (apiListConfigMaps r ns (matchLabels rs)) w = (res, w1)"
    by (cases "run_state (apiListConfigMaps r ns (matchLabels rs)) w")
  show ?case
  proof (cases res)
    case (Inl e)
    then show ?thesis by (auto simp: run_simps list)
  next
    case (Inr items)
    then show ?thesis
      using Cons.IH [of "xs @ map (\<lambda>m. metaName (configMapMeta m)) items" w1]
      by (simp add: run_simps list mountItems_mountsOf)
  qed
qed

lemma mountsForVillipProxy_cases:
  obtains names w' where
      "run_state (mountsForVillipProxy r rss ns) w =
         ((map mountFor names, map volumeFor names,
           [confAnnotation \<mapsto> joinStrings '','' (sortStrings names)], None), w')"
      and "run_state (collectNames r ns rss []) w = (Inr names, w')"
  | names e w' where
      "run_state (mountsForVillipProxy r rss ns) w =
         ((map mountFor names, map volumeFor names, Map.empty, Some e), w')"
      and "run_state (collectNames r ns rss []) w = (Inl e, w')"
proof -
  obtain names err w' where
    m: "run_state (mountRulesets r ns rss ([], [], [])) w = ((err, mountsOf names), w')" and
    c: "run_state (collectNames r ns rss []) w =
          ((case err of None \<Rightarrow> Inr names | Some e \<Rightarrow> Inl e), w')"
    using mountRulesets_collectNames [of r ns rss "[]" w] by (auto simp: mountsOf_def)
  show thesis
  proof (cases err)
    case None
    with m c show thesis
      by (intro that(1) [of names w']) (simp_all add: mountsForVillipProxy_def mountsOf_def)
  next
    case (Some e)
    with m c show thesis
      by (intro that(2) [of names e w']) (simp_all add: mountsForVillipProxy_def mountsOf_def)
  qed
qed

text \<open>C13: the check and the rendering agree.  Run in the same world, \<open>isRulesetsChanged\<close>
  makes the same calls as \<open>mountsForVillipProxy\<close>, fails exactly when it fails, and otherwise
  reports a change exactly when the Deployment carries the annotation with another value than
  \<open>mountsForVillipProxy\<close> would write.  In particular a Deployment built in that world is
  reported unchanged.\<close>

theorem rulesets_check_agrees:
  assumes "run_state (mountsForVillipProxy r (specRuleset (proxySpec p)) (metaNamespace (proxyMeta p))) w
             = ((vm, vol, ann, err), w')"
  shows "run_state (isRulesetsChanged r p d) w =
    ((err = None \<and> metaAnnotations (deploymentMeta d) confAnnotation \<notin> {None, ann confAnnotation},
      err), w')"
  using assms
  by (cases rule: mountsForVillipProxy_cases
        [of r "specRuleset (proxySpec p)" "metaNamespace (proxyMeta p)" w])
     (auto simp: isRulesetsChanged_def run_simps Let_def split: option.splits)

lemma built_object:
  assumes "run_state (deploymentForVillipProxy r p) w = (Value (Inr d), w')"
  obtains ls names m where "labelsForVillipProxy p = Value ls"
    and "d = (deploymentObject (lib r) p ls (map mountFor names) (map volumeFor names)
          [confAnnotation \<mapsto> joinStrings '','' (sortStrings names)])\<lparr>deploymentMeta := m\<rparr>"
    and "setControllerReference (lib r) (ProxyOwner p)
       (deploymentMeta (deploymentObject (lib r) p ls (map mountFor names) (map volumeFor names)
          [confAnnotation \<mapsto> joinStrings '','' (sortStrings names)])) = Inr m"
    and "run_state (collectNames r (metaNamespace (proxyMeta p)) (specRuleset (proxySpec p)) []) w
      = (Inr names, w')"
proof -
  obtain ls where ls: "labelsForVillipProxy p = Value ls" using labels_value [of p] by blast
  show thesis
    using assms that [OF ls]
    by (cases rule: mountsForVillipProxy_cases
          [of r "specRuleset (proxySpec p)" "metaNamespace (proxyMeta p)" w])
       (auto simp: deploymentForVillipProxy_def ls run_simps Let_def split: sum.splits)
qed

lemma deploymentForVillipProxy_shape:
  assumes "run_state (deploymentForVillipProxy r p) w = (Value (Inr d), w')"
  shows "deploymentShape (lib r) p d"
  by (rule built_object [OF assms]) (auto simp: deploymentShape_def)

lemma deploymentForVillipProxy_not_panic:
  "always (\<lambda>x. x \<noteq> Panic) (deploymentForVillipProxy r p)"
proof -
  obtain ls where "labelsForVillipProxy p = Value ls" using labels_value [of p] by blast
  then show ?thesis
    by (auto simp: deploymentForVillipProxy_def Let_def intro!: always_intros)
qed

text \<open>C14: every Deployment the operator builds runs the one villip container as a non-root user
  without privilege escalation and without capabilities, asks for \<open>spec.size\<close> replicas,
  selects its pods by exactly the labels of its pod template, mounts every volume it declares
  under \<open>/conf\<close> and declares one volume per ConfigMap its rulesets select.\<close>

theorem deployment_built:
  assumes "run_state (deploymentForVillipProxy r p) w = (Value (Inr d), w')"
  shows "\<exists>c names.
    podContainers (templateSpec (deploymentSpec d)) = [c] \<and>
    podRunAsNonRoot (templateSpec (deploymentSpec d)) = Some True \<and>
    (\<exists>ctx. containerSecurity c = Some ctx \<and> ctxRunAsNonRoot ctx = Some True \<and>
       ctxAllowPrivilegeEscalation ctx = Some False \<and> ctxCapabilitiesDrop ctx = [''ALL'']) \<and>
    deploymentReplicas (deploymentSpec d) = Some (specSize (proxySpec p)) \<and>
    containerPorts c = portsForVillipProxyDeployment (specPorts (proxySpec p)) \<and>
    deploymentMatchLabels (deploymentSpec d) = metaLabels (templateMeta (deploymentSpec d)) \<and>
    podVolumes (templateSpec (deploymentSpec d)) = map volumeFor names \<and>
    containerMounts c = map mountFor names \<and>
    run_state (collectNames r (metaNamespace (proxyMeta p)) (specRuleset (proxySpec p)) []) w
      = (Inr names, w')"
  by (rule built_object [OF assms]) (auto simp: deploymentObject_def villipContainer_def)

text \<open>C37: the Service of a proxy selects the pods of its Deployment exactly when the proxy
  carries a label \<open>villip\<close> whose value is its own name.\<close>

theorem service_selects_pods_iff:
  assumes "run_state (deploymentForVillipProxy r p) w = (Value (Inr d), w')"
    and "serviceForVillipProxy r p = Inr s"
  shows "serviceSelector (serviceSpec s) \<subseteq>\<^sub>m metaLabels (templateMeta (deploymentSpec d)) \<longleftrightarrow>
    metaLabels (proxyMeta p) ''villip'' = Some (metaName (proxyMeta p))"
proof -
  from assms(2) have sel: "serviceSelector (serviceSpec s) = [''villip'' \<mapsto> metaName (proxyMeta p)]"
    by (auto simp: serviceForVillipProxy_def serviceObject_def Let_def split: sum.splits)
  obtain ls where "labelsForVillipProxy p = Value ls"
    and "metaLabels (templateMeta (deploymentSpec d)) = ls"
    using deploymentForVillipProxy_shape [OF assms(1)]
    by (auto simp: deploymentShape_def deploymentObject_def)
  then have "metaLabels (templateMeta (deploymentSpec d)) ''villip'' =
      metaLabels (proxyMeta p) ''villip''"
    using labels_value [of p] by (auto simp: map_add_def split: option.splits)
  then show ?thesis by (auto simp: sel map_le_def)
qed

section \<open>Failures while rulesets are resolved\<close>

text \<open>C31: when listing the ConfigMaps fails while the mounts are computed again, the error is
  dropped and the Deployment is sent without its annotation; from then on a change of the
  rulesets is never detected, in any world.\<close>

theorem ruleset_failure_is_permanent:
  assumes "run_state (isRulesetsChanged r p d) w = ((True, None), w1)"
    and "run_state (mountsForVillipProxy r (specRuleset (proxySpec p)) (metaNamespace (proxyMeta p))) w1
           = ((vm, vol, ann, Some e), w2)"
    and "podContainers (templateSpec (deploymentSpec d)) \<noteq> []"
    and "run_state (apiUpdateDeployment r (setMounts vm vol ann d)) w2 = (Inr d', w3)"
    and "metaAnnotations (deploymentMeta d') = metaAnnotations (deploymentMeta (setMounts vm vol ann d))"
  shows "run_state (reconcileProxyRulesets r req p d) w = (Value (requeueMinute, None), w3) \<and>
    fst (fst (run_state (isRulesetsChanged r p' d') w')) = False"
proof
  show "run_state (reconcileProxyRulesets r req p d) w = (Value (requeueMinute, None), w3)"
    using assms(3) by (simp add: reconcileProxyRulesets_def run_simps assms(1,2,4) deploymentUpdate_def)
  have "ann = Map.empty"
    using assms(2)
    by (cases rule: mountsForVillipProxy_cases
          [of r "specRuleset (proxySpec p)" "metaNamespace (proxyMeta p)" w1]) auto
  with assms(5) have "metaAnnotations (deploymentMeta d') confAnnotation = None"
    by (simp add: setMounts_def setFirstContainer_def Let_def)
  then have "always (\<lambda>x. fst x = False) (isRulesetsChanged r p' d')"
    by (auto simp: isRulesetsChanged_def Let_def intro!: always_intros)
  then show "fst (fst (run_state (isRulesetsChanged r p' d') w')) = False" by (rule alwaysD)
qed

section \<open>Results of a pass\<close>

definition passOk :: "reconcileResult \<times> goError option \<Rightarrow> bool" where
  "passOk x \<longleftrightarrow>
     (snd x \<noteq> None \<longrightarrow> fst x = noRequeue) \<and> (fst x = noRequeue \<or> fst x = requeueMinute)"

definition passOkValue :: "(reconcileResult \<times> goError option) outcome \<Rightarrow> bool" where
  "passOkValue x \<longleftrightarrow> (case x of Panic \<Rightarrow> True | Value y \<Rightarrow> passOk y)"

named_theorems pass_results

lemma passOk_simps [simp]:
  "passOk (noRequeue, e)" "passOk (requeueMinute, None)"
  "passOkValue Panic" "passOkValue (Value y) \<longleftrightarrow> passOk y"
  by (simp_all add: passOk_def passOkValue_def)

lemma passOk_initProxyStatus [pass_results]: "always passOk (initProxyStatus r p)"
  unfolding initProxyStatus_def by (auto intro!: always_intros)

lemma passOk_addProxyFinalizer [pass_results]: "always passOk (addProxyFinalizer r p)"
  unfolding addProxyFinalizer_def by (auto intro!: always_intros)

lemma passOk_createService [pass_results]: "always passOk (createService r p)"
  unfolding createService_def by (auto intro!: always_intros)

lemma passOk_createDeployment [pass_results]: "always passOkValue (createDeployment r p)"
  unfolding createDeployment_def by (auto intro!: always_intros)

lemma passOk_managePortChange:
  "always (\<lambda>x. case x of Value (Some res, err) \<Rightarrow> passOk (res, err) | _ \<Rightarrow> True)
     (managePortChange r p req d s)"
  unfolding managePortChange_def Let_def by (auto intro!: always_intros)

lemma passOk_reconcileProxyService [pass_results]:
  "always passOkValue (reconcileProxyService r req p d)"
  unfolding reconcileProxyService_def
  by (intro always_intros always_bind [OF passOk_createService] always_bind [OF passOk_managePortChange])
     (auto intro!: always_intros split: outcome.splits)

lemma passOk_reconcileProxyRulesets [pass_results]:
  "always passOkValue (reconcileProxyRulesets r req p d)"
  unfolding reconcileProxyRulesets_def by (auto intro!: always_intros pass_results)

lemma passOk_reconcileProxyDeployment [pass_results]:
  "always passOkValue (reconcileProxyDeployment r req p)"
  unfolding reconcileProxyDeployment_def Let_def by (auto intro!: always_intros pass_results)

text \<open>A pass of the proxy reconciler asks to be run again after a minute or not at all, and
  never combines an error with a delay (the work queue then applies its own back-off).\<close>

lemma proxy_pass_results:
  assumes "fst (run_state (reconcileProxy r req) w) = Value (res, err)"
  shows "(err \<noteq> None \<longrightarrow> res = noRequeue) \<and> (res = noRequeue \<or> res = requeueMinute)"
proof -
  have "always passOkValue (reconcileProxy r req)"
    unfolding reconcileProxy_def
    by (intro always_intros always_bind [OF passOk_initProxyStatus]
          always_bind [OF passOk_addProxyFinalizer] pass_results)
       (auto intro!: always_intros)
  from alwaysD [OF this, of w] show ?thesis by (simp add: assms passOk_def)
qed

section \<open>Panics\<close>

lemma no_panic_createDeployment: "always (\<lambda>x. x \<noteq> Panic) (createDeployment r p)"
  unfolding createDeployment_def
  by (rule always_bind [OF deploymentForVillipProxy_not_panic]) (auto intro!: always_intros)

lemma no_panic_managePortChange:
  "podContainers (templateSpec (deploymentSpec d)) \<noteq> [] \<Longrightarrow>
     always (\<lambda>x. x \<noteq> Panic) (managePortChange r p req d s)"
  unfolding managePortChange_def Let_def by (auto intro!: always_intros)

lemma no_panic_reconcileProxyService:
  assumes "podContainers (templateSpec (deploymentSpec d)) \<noteq> []"
  shows "always (\<lambda>x. x \<noteq> Panic) (reconcileProxyService r req p d)"
  unfolding reconcileProxyService_def
  by (intro always_intros always_bind [OF no_panic_managePortChange [OF assms]])
     (auto intro!: always_intros)

lemma no_panic_reconcileProxyRulesets:
  assumes "podContainers (templateSpec (deploymentSpec d)) \<noteq> []"
  shows "always (\<lambda>x. x \<noteq> Panic) (reconcileProxyRulesets r req p d)"
  unfolding reconcileProxyRulesets_def
  by (intro always_intros no_panic_reconcileProxyService [OF assms]) (auto simp: assms intro!: always_intros)

text \<open>C34: a pass dereferences \<open>spec.replicas\<close> and indexes the first container of the
  Deployment it finds.  With a server that only returns Deployments in which both exist (it
  sets the default replica count and refuses a pod template without containers), no pass
  panics, whatever else fails.\<close>

theorem proxy_pass_never_panics:
  assumes "\<And>n w d. fst (run_state (apiGetDeployment r n) w) = Inr d \<Longrightarrow>
      deploymentReplicas (deploymentSpec d) \<noteq> None \<and>
      podContainers (templateSpec (deploymentSpec d)) \<noteq> []"
  shows "fst (run_state (reconcileProxy r req) w) \<noteq> Panic"
proof -
  have get: "always (\<lambda>x. \<forall>d. x = Inr d \<longrightarrow> deploymentReplicas (deploymentSpec d) \<noteq> None \<and>
      podContainers (templateSpec (deploymentSpec d)) \<noteq> []) (apiGetDeployment r n)" for n
    using assms by (simp add: always_def)
  have "always (\<lambda>x. x \<noteq> Panic) (reconcileProxyDeployment r req p)" for p
    unfolding reconcileProxyDeployment_def Let_def
    by (rule always_bind [OF get])
       (intro always_intros no_panic_createDeployment no_panic_reconcileProxyRulesets; simp)
  then have "always (\<lambda>x. x \<noteq> Panic) (reconcileProxy r req)"
    unfolding reconcileProxy_def by (intro always_intros) (simp_all add: always_def)
  then show ?thesis by (rule alwaysD)
qed

end
