(* ===== verification/Store_Run.thy ===== *)
theory Store_Run
  imports Cluster_Store Proxy_Properties
begin

text \<open>
  Running the operations against the reference server when no request fails
  (\<open>clFaults c = []\<close>): the laws of the object lists, and the effect of each shared step.
\<close>

named_theorems store_runs \<open>effects on the reference server without failures\<close>

lemma run_serve [store_runs]: "clFaults c = [] \<Longrightarrow> run_state (serve f) c = f c"
  by (simp add: serve_def)

lemma run_serve_served: "clFaults c = None # fs \<Longrightarrow> run_state (serve f) c = f (c\<lparr>clFaults := fs\<rparr>)"
  by (simp add: serve_def)

lemma run_serve_failed: "clFaults c = Some e # fs \<Longrightarrow> run_state (serve f) c = (Inl e, c\<lparr>clFaults := fs\<rparr>)"
  by (simp add: serve_def)

lemma store_calls [store_runs]:
  "lib (storeReconciler pol l) = l"
  "apiGetProxy (storeReconciler pol l) n = serve (\<lambda>c. (found pol ''VillipProxy'' n (findObj proxyMeta n (clProxies c)), c))"
  "apiUpdateProxy (storeReconciler pol l) p =
     serve (storeUpdateProxy pol (\<lambda>old p. p\<lparr>proxyStatus := proxyStatus old\<rparr>) p)"
  "apiUpdateProxyStatus (storeReconciler pol l) p =
     serve (storeUpdateProxy pol (\<lambda>old p. old\<lparr>proxyStatus := proxyStatus p\<rparr>) p)"
  "apiGetRules (storeReconciler pol l) n = serve (\<lambda>c. (found pol ''VillipRules'' n (findObj rulesMeta n (clRules c)), c))"
  "apiUpdateRules (storeReconciler pol l) q =
     serve (storeUpdateRules pol (\<lambda>old p. p\<lparr>rulesStatus := rulesStatus old\<rparr>) q)"
  "apiUpdateRulesStatus (storeReconciler pol l) q =
     serve (storeUpdateRules pol (\<lambda>old p. old\<lparr>rulesStatus := rulesStatus p\<rparr>) q)"
  "apiPatchRules (storeReconciler pol l) q x = serve (storePatchRules pol q x)"
  "apiGetDeployment (storeReconciler pol l) n =
     serve (\<lambda>c. (found pol ''Deployment'' n (findObj deploymentMeta n (clDeployments c)), c))"
  "apiCreateDeployment (storeReconciler pol l) d = serve (storeCreateDeployment pol d)"
  "apiUpdateDeployment (storeReconciler pol l) d = serve (storeUpdateDeployment pol d)"
  "apiListDeployments (storeReconciler pol l) ns sel =
     serve (\<lambda>c. (Inr (selectDeployments pol ns sel (clDeployments c)), c))"
  "apiGetService (storeReconciler pol l) n = serve (\<lambda>c. (found pol ''Service'' n (findObj serviceMeta n (clServices c)), c))"
  "apiCreateService (storeReconciler pol l) s = serve (storeCreateService pol s)"
  "apiUpdateService (storeReconciler pol l) s = serve (storeUpdateService pol s)"
  "apiGetConfigMap (storeReconciler pol l) n =
     serve (\<lambda>c. (found pol ''ConfigMap'' n (findObj configMapMeta n (clConfigMaps c)), c))"
  "apiCreateConfigMap (storeReconciler pol l) m = serve (storeCreateConfigMap pol m)"
  "apiUpdateConfigMap (storeReconciler pol l) m = serve (storeUpdateConfigMap pol m)"
  "apiListConfigMaps (storeReconciler pol l) ns lbl =
     serve (\<lambda>c. (Inr (selectConfigMaps ns lbl (clConfigMaps c)), c))"
  "recordEvent (storeReconciler pol l) n t y z =
     State (\<lambda>c. ((), c\<lparr>clEvents := clEvents c @ [(n, t, y, z)]\<rparr>))"
  "timeNow (storeReconciler pol l) = State (\<lambda>c. (clockTime pol (clClock c), c\<lparr>clClock := Suc (clClock c)\<rparr>))"
  "timeNowString (storeReconciler pol l) = State (\<lambda>c. (clockString pol (clClock c), c\<lparr>clClock := Suc (clClock c)\<rparr>))"
  by (simp_all add: storeReconciler_def)

lemma found_simps [simp]: "found pol kind n None = Inl (errNotFound pol kind n)" "found pol kind n (Some x) = Inr x"
  by (simp_all add: found_def)

lemma isNotFound_errors [simp]:
  "isNotFound (errNotFound pol kind n)" "\<not> isNotFound (errConflict pol kind n)"
  "\<not> isNotFound (errExists pol kind n)" "\<not> isNotFound (errInvalid pol kind n)"
  by (simp_all add: errNotFound_def errConflict_def errExists_def errInvalid_def)

section \<open>Object lists\<close>

lemma findObj_key: "findObj meta n xs = Some x \<Longrightarrow> keyOf (meta x) = n"
  by (auto simp: findObj_def find_Some_iff)

lemma findObj_in: "findObj meta n xs = Some x \<Longrightarrow> x \<in> set xs"
  by (auto simp: findObj_def find_Some_iff)

lemma findObj_replaceObj:
  "findObj meta n (replaceObj meta x xs) =
     (case findObj meta n xs of None \<Rightarrow> None | Some y \<Rightarrow> if keyOf (meta x) = n then Some x else Some y)"
  by (induction xs) (auto simp: findObj_def replaceObj_def)

lemma findObj_replaceObj_Some:
  "findObj meta n xs = Some y \<Longrightarrow> keyOf (meta x) = n \<Longrightarrow> findObj meta n (replaceObj meta x xs) = Some x"
  by (simp add: findObj_replaceObj)

lemma findObj_distinct:
  "distinct (map (\<lambda>x. keyOf (meta x)) xs) \<Longrightarrow> x \<in> set xs \<Longrightarrow> findObj meta (keyOf (meta x)) xs = Some x"
  by (induction xs) (auto simp: findObj_def)

lemma findObj_snoc:
  "findObj meta n (xs @ [x]) =
     (case findObj meta n xs of Some y \<Rightarrow> Some y | None \<Rightarrow> if keyOf (meta x) = n then Some x else None)"
  by (induction xs) (auto simp: findObj_def)

lemma findObj_removeObj: "findObj meta n (removeObj meta n xs) = None"
  by (auto simp: findObj_def removeObj_def find_None_iff)

lemma findObj_removeObj_other:
  "m \<noteq> n \<Longrightarrow> findObj meta m (removeObj meta n xs) = findObj meta m xs"
  by (induction xs) (auto simp: findObj_def removeObj_def)

text \<open>The metadata after a write without changes to it.\<close>

definition bump :: "objectMeta \<Rightarrow> objectMeta" where
  "bump m = m\<lparr>metaResourceVersion := Suc (metaResourceVersion m)\<rparr>"

lemma bump_sel [simp]:
  "keyOf (bump m) = keyOf m" "metaName (bump m) = metaName m"
  "metaNamespace (bump m) = metaNamespace m" "metaLabels (bump m) = metaLabels m"
  "metaFinalizers (bump m) = metaFinalizers m" "metaAnnotations (bump m) = metaAnnotations m"
  "metaDeletionTimestamp (bump m) = metaDeletionTimestamp m"
  "metaOwnerReferences (bump m) = metaOwnerReferences m"
  "finalized (bump m) = finalized m"
  by (simp_all add: bump_def keyOf_def finalized_def)

lemma not_finalized: "metaDeletionTimestamp m = None \<Longrightarrow> \<not> finalized m"
  by (simp add: finalized_def)

lemma nextVersion_self [simp]: "nextVersion m m = bump m"
  by (simp add: nextVersion_def bump_def)

lemma updateError_self [simp]: "updateError pol kind m m = None"
  by (simp add: updateError_def)

lemma keyOf_nextVersion [simp]: "keyOf (nextVersion a m) = keyOf m"
  by (simp add: nextVersion_def keyOf_def)

lemma meta_resource_self [simp]: "m\<lparr>metaResourceVersion := metaResourceVersion m\<rparr> = m"
  by simp

section \<open>Writing a status\<close>

definition withProxyCondition :: "lib \<Rightarrow> int \<Rightarrow> condition \<Rightarrow> villipProxy \<Rightarrow> villipProxy" where
  "withProxyCondition l t cond p =
     p\<lparr>proxyStatus := (proxyStatus p)\<lparr>proxyConditions :=
         setStatusConditionAt l t (proxyConditions (proxyStatus p)) cond\<rparr>,
       proxyMeta := bump (proxyMeta p)\<rparr>"

lemma withProxyCondition_sel [simp]:
  "proxySpec (withProxyCondition l t cond p) = proxySpec p"
  "proxyMeta (withProxyCondition l t cond p) = bump (proxyMeta p)"
  "proxyConditions (proxyStatus (withProxyCondition l t cond p)) =
     setStatusConditionAt l t (proxyConditions (proxyStatus p)) cond"
  by (simp_all add: withProxyCondition_def)

lemma run_setProxyStatus [store_runs]:
  assumes "clFaults c = []" and "findObj proxyMeta n (clProxies c) = Some p"
    and "\<not> finalized (proxyMeta p)"
  shows "run_state (setProxyStatus (storeReconciler pol l) p cond) c =
    ((None, withProxyCondition l (clockTime pol (clClock c)) cond p),
     c\<lparr>clClock := Suc (clClock c),
       clProxies := replaceObj proxyMeta (withProxyCondition l (clockTime pol (clClock c)) cond p) (clProxies c)\<rparr>)"
proof -
  have k: "findObj proxyMeta (keyOf (proxyMeta p)) (clProxies c) = Some p"
    using assms(2) findObj_key [OF assms(2)] by simp
  show ?thesis
    using assms(1,3)
    by (simp add: setProxyStatus_def setProxyCondition_def run_simps store_runs storeUpdateProxy_def k
        withProxyCondition_def writeObj_def Let_def)
qed

definition withRulesCondition :: "lib \<Rightarrow> int \<Rightarrow> condition \<Rightarrow> villipRules \<Rightarrow> villipRules" where
  "withRulesCondition l t cond p =
     p\<lparr>rulesStatus := (rulesStatus p)\<lparr>rulesConditions :=
         setStatusConditionAt l t (rulesConditions (rulesStatus p)) cond\<rparr>,
       rulesMeta := bump (rulesMeta p)\<rparr>"

lemma withRulesCondition_sel [simp]:
  "rulesSpec (withRulesCondition l t cond p) = rulesSpec p"
  "rulesMeta (withRulesCondition l t cond p) = bump (rulesMeta p)"
  "lastSum (rulesStatus (withRulesCondition l t cond p)) = lastSum (rulesStatus p)"
  "rulesConditions (rulesStatus (withRulesCondition l t cond p)) =
     setStatusConditionAt l t (rulesConditions (rulesStatus p)) cond"
  by (simp_all add: withRulesCondition_def)

text \<open>
  The status of \<open>q\<close> is written to the stored rule \<open>p\<close>; the code also calls this with a
  checksum set in the local copy.
\<close>

lemma run_setRulesStatus [store_runs]:
  assumes "clFaults c = []" and "findObj rulesMeta n (clRules c) = Some p"
    and "\<not> finalized (rulesMeta p)"
    and "rulesMeta q = rulesMeta p" and "rulesSpec q = rulesSpec p"
  shows "run_state (setRulesStatus (storeReconciler pol l) q cond) c =
    ((None, withRulesCondition l (clockTime pol (clClock c)) cond q),
     c\<lparr>clClock := Suc (clClock c),
       clRules := replaceObj rulesMeta (withRulesCondition l (clockTime pol (clClock c)) cond q) (clRules c)\<rparr>)"
proof -
  have k: "findObj rulesMeta (keyOf (rulesMeta p)) (clRules c) = Some p"
    using assms(2) findObj_key [OF assms(2)] by simp
  have e: "p\<lparr>rulesStatus := s, rulesMeta := m\<rparr> = q\<lparr>rulesStatus := s, rulesMeta := m\<rparr>" for s m
    using assms(5) by (cases p; cases q) simp
  show ?thesis
    using assms(1,3,4)
    by (simp add: setRulesStatus_def setRulesCondition_def run_simps store_runs storeUpdateRules_def k
        withRulesCondition_def writeObj_def Let_def e)
qed

section \<open>Resolving rulesets\<close>

text \<open>The names of the ConfigMaps a proxy's rulesets select, one entry per selection.\<close>

definition selectedNames :: "cluster \<Rightarrow> villipProxy \<Rightarrow> string list" where
  "selectedNames c p =
     concat (map (\<lambda>rs. map (\<lambda>m. metaName (configMapMeta m))
                        (selectConfigMaps (metaNamespace (proxyMeta p)) (matchLabels rs) (clConfigMaps c)))
              (specRuleset (proxySpec p)))"

lemma run_collectNames:
  "clFaults c = [] \<Longrightarrow>
     run_state (collectNames (storeReconciler pol l) ns rss acc) c =
       (Inr (acc @ concat (map (\<lambda>rs. map (\<lambda>m. metaName (configMapMeta m))
          (selectConfigMaps ns (matchLabels rs) (clConfigMaps c))) rss)), c)"
  by (induction rss arbitrary: acc) (simp_all add: run_simps store_runs)

lemma run_mountsForVillipProxy [store_runs]:
  assumes "clFaults c = []"
  shows "run_state (mountsForVillipProxy (storeReconciler pol l) (specRuleset (proxySpec p))
           (metaNamespace (proxyMeta p))) c =
    ((map mountFor (selectedNames c p), map volumeFor (selectedNames c p),
      [confAnnotation \<mapsto> joinStrings '','' (sortStrings (selectedNames c p))], None), c)"
  using run_collectNames [OF assms, of pol l "metaNamespace (proxyMeta p)" "specRuleset (proxySpec p)" "[]"]
  by (cases rule: mountsForVillipProxy_cases [of "storeReconciler pol l"
        "specRuleset (proxySpec p)" "metaNamespace (proxyMeta p)" c])
     (auto simp: selectedNames_def)

text \<open>What the check looks at: the annotation, if there is one.\<close>

definition rulesetsAligned :: "cluster \<Rightarrow> villipProxy \<Rightarrow> deployment \<Rightarrow> bool" where
  "rulesetsAligned c p d \<longleftrightarrow>
     (case metaAnnotations (deploymentMeta d) confAnnotation of
        None \<Rightarrow> True
      | Some a \<Rightarrow> a = joinStrings '','' (sortStrings (selectedNames c p)))"

lemma run_isRulesetsChanged [store_runs]:
  assumes "clFaults c = []"
  shows "run_state (isRulesetsChanged (storeReconciler pol l) p d) c =
    ((\<not> rulesetsAligned c p d, None), c)"
  using run_collectNames [OF assms, of pol l "metaNamespace (proxyMeta p)" "specRuleset (proxySpec p)" "[]"]
  by (simp add: isRulesetsChanged_def run_simps Let_def rulesetsAligned_def selectedNames_def
        split: option.splits)

end
