(* ===== verification/Api_Validation.thy ===== *)
theory Api_Validation
  imports Store_Run
begin

text \<open>
  The documented validation of the API server, for the fields the model has: the syntax of names,
  labels and annotations, the rules for Deployments with their pod template, and for Services.
  Where the documentation allows several forms the predicates have the stricter one.
  \<open>admitsValid\<close> says of a server that it admits what is valid; \<open>valueLaws\<close> are the laws of
  two value helpers that end up in validated fields.  What the operator sends is shown valid in
  \<open>Valid_Objects\<close>.
\<close>

section \<open>Names, labels and annotations\<close>

definition digits :: "char set" where
  "digits = set ''0123456789''"

definition lowerLetters :: "char set" where
  "lowerLetters = set ''abcdefghijklmnopqrstuvwxyz''"

definition lowerAlnum :: "char set" where
  "lowerAlnum = lowerLetters \<union> digits"

definition letters :: "char set" where
  "letters = lowerLetters \<union> set ''ABCDEFGHIJKLMNOPQRSTUVWXYZ''"

text \<open>RFC 1123: a part of a subdomain, and the label, of at most 63 characters.\<close>

definition dnsPart :: "string \<Rightarrow> bool" where
  "dnsPart n \<longleftrightarrow>
     n \<noteq> [] \<and> set n \<subseteq> insert CHR ''-'' lowerAlnum \<and> hd n \<in> lowerAlnum \<and> last n \<in> lowerAlnum"

definition dnsLabel :: "string \<Rightarrow> bool" where
  "dnsLabel n \<longleftrightarrow> dnsPart n \<and> length n \<le> 63"

definition dnsSubdomain :: "string \<Rightarrow> bool" where
  "dnsSubdomain n \<longleftrightarrow> length n \<le> 253 \<and> (\<forall>x \<in> set (splitString CHR ''.'' n). dnsPart x)"

text \<open>RFC 1035: a label that starts with a letter, as the name of a Service has to.\<close>

definition serviceName :: "string \<Rightarrow> bool" where
  "serviceName n \<longleftrightarrow> dnsLabel n \<and> hd n \<notin> digits"

text \<open>The name part of a label key, which is also the syntax of a label value that is not empty.\<close>

definition qualifiedPart :: "string \<Rightarrow> bool" where
  "qualifiedPart n \<longleftrightarrow>
     n \<noteq> [] \<and> length n \<le> 63 \<and> set n \<subseteq> letters \<union> digits \<union> set ''-_.'' \<and>
     hd n \<in> letters \<union> digits \<and> last n \<in> letters \<union> digits"

definition labelValue :: "string \<Rightarrow> bool" where
  "labelValue v \<longleftrightarrow> v = [] \<or> qualifiedPart v"

definition labelKey :: "string \<Rightarrow> bool" where
  "labelKey k \<longleftrightarrow>
     (case splitString CHR ''/'' k of
        [n] \<Rightarrow> qualifiedPart n
      | [p, n] \<Rightarrow> dnsSubdomain p \<and> qualifiedPart n
      | _ \<Rightarrow> False)"

lemmas name_defs = qualifiedPart_def labelValue_def dnsLabel_def dnsPart_def lowerAlnum_def letters_def lowerLetters_def
  digits_def

definition validLabels :: "stringMap \<Rightarrow> bool" where
  "validLabels m \<longleftrightarrow> (\<forall>k v. m k = Some v \<longrightarrow> labelKey k \<and> labelValue v)"

text \<open>Annotations have the keys of labels, any values, and 256 KiB for all together.\<close>

definition validAnnotations :: "stringMap \<Rightarrow> bool" where
  "validAnnotations m \<longleftrightarrow>
     finite (dom m) \<and> (\<forall>k \<in> dom m. labelKey k) \<and>
     (\<Sum>k \<in> dom m. length k + length (the (m k))) \<le> 262144"

definition validOwner :: "ownerReference \<Rightarrow> bool" where
  "validOwner ref \<longleftrightarrow> ownerAPIVersion ref \<noteq> [] \<and> ownerKind ref \<noteq> [] \<and> ownerName ref \<noteq> []"

definition validMeta :: "(string \<Rightarrow> bool) \<Rightarrow> objectMeta \<Rightarrow> bool" where
  "validMeta okName m \<longleftrightarrow>
     okName (metaName m) \<and> dnsLabel (metaNamespace m) \<and>
     validLabels (metaLabels m) \<and> validAnnotations (metaAnnotations m) \<and>
     (\<forall>ref \<in> set (metaOwnerReferences m). validOwner ref) \<and>
     length (filter (\<lambda>ref. ownerController ref = Some True) (metaOwnerReferences m)) \<le> 1 \<and>
     (\<forall>f \<in> set (metaFinalizers m). labelKey f)"

text \<open>A DNS label is also a subdomain and a label value.\<close>

lemma labelValue_dnsLabel: "dnsLabel n \<Longrightarrow> labelValue n"
proof -
  have "lowerAlnum \<subseteq> letters \<union> digits"
    by (auto simp: lowerAlnum_def letters_def)
  moreover have "CHR ''-'' \<in> set ''-_.''" by simp
  moreover assume "dnsLabel n"
  ultimately show "labelValue n"
    unfolding dnsLabel_def dnsPart_def labelValue_def qualifiedPart_def by blast
qed

lemma dnsLabel_chars: "dnsLabel n \<Longrightarrow> CHR '':'' \<notin> set n \<and> CHR ''.'' \<notin> set n"
proof -
  have "CHR '':'' \<notin> insert CHR ''-'' lowerAlnum" "CHR ''.'' \<notin> insert CHR ''-'' lowerAlnum"
    by (simp_all add: lowerAlnum_def lowerLetters_def digits_def)
  then show "dnsLabel n \<Longrightarrow> CHR '':'' \<notin> set n \<and> CHR ''.'' \<notin> set n"
    unfolding dnsLabel_def dnsPart_def by blast
qed

lemma dnsLabel_subdomain:
  assumes "dnsLabel n"
  shows "dnsSubdomain n"
proof -
  have "splitString CHR ''.'' n = [n]" using dnsLabel_chars [OF assms] by (simp add: splitString_no_sep)
  moreover have "dnsPart n" "length n \<le> 253" using assms by (simp_all add: dnsLabel_def)
  ultimately show ?thesis by (simp add: dnsSubdomain_def)
qed

section \<open>Deployments\<close>

definition sliceList :: "'a slice \<Rightarrow> 'a list" where
  "sliceList xs = (case xs of None \<Rightarrow> [] | Some ys \<Rightarrow> ys)"

text \<open>Names of ports that are referred to by name.\<close>

definition portName :: "string \<Rightarrow> bool" where
  "portName n \<longleftrightarrow> dnsPart n \<and> length n \<le> 15 \<and> (\<exists>c \<in> set n. c \<in> letters)"

definition portNumber :: "32 word \<Rightarrow> bool" where
  "portNumber w \<longleftrightarrow> 0 < uint w \<and> uint w < 65536"

definition protocols :: "string set" where
  "protocols = {''TCP'', ''UDP'', ''SCTP''}"

definition validPorts :: "containerPort list \<Rightarrow> bool" where
  "validPorts ps \<longleftrightarrow>
     distinct ps \<and>
     (\<forall>q \<in> set ps. portNumber (cportContainerPort q) \<and> cportHostPort q = 0 \<and>
        cportProtocol q \<in> protocols \<and> cportName q = [])"

text \<open>An image reference has no white space around it: here, it begins and ends with a visible
  ASCII character.\<close>

definition visible :: "char \<Rightarrow> bool" where
  "visible c \<longleftrightarrow> 32 < (of_char c :: nat) \<and> (of_char c :: nat) < 127"

definition validImage :: "string \<Rightarrow> bool" where
  "validImage s \<longleftrightarrow> s \<noteq> [] \<and> visible (hd s) \<and> visible (last s)"

definition validEnvName :: "string \<Rightarrow> bool" where
  "validEnvName n \<longleftrightarrow>
     n \<noteq> [] \<and> set n \<subseteq> letters \<union> digits \<union> set ''-_.'' \<and> hd n \<notin> insert CHR ''.'' digits"

definition validTarget :: "intOrString \<Rightarrow> bool" where
  "validTarget x \<longleftrightarrow> (case x of IntVal w \<Rightarrow> portNumber w | StrVal s \<Rightarrow> portName s)"

definition validProbe :: "probe \<Rightarrow> bool" where
  "validProbe x \<longleftrightarrow>
     validTarget (probeHttpPort x) \<and> 0 \<le> sint (probeInitialDelaySeconds x) \<and> 0 \<le> sint (probePeriodSeconds x)"

definition validSecurity :: "containerSecurityContext \<Rightarrow> bool" where
  "validSecurity s \<longleftrightarrow>
     (\<forall>u. ctxRunAsUser s = Some u \<longrightarrow> 0 \<le> sint u \<and> sint u < 2 ^ 31)"

definition validVolume :: "volume \<Rightarrow> bool" where
  "validVolume v \<longleftrightarrow> dnsLabel (volumeName v) \<and> volumeConfigMap v \<noteq> Some []"

definition validMount :: "volume list \<Rightarrow> volumeMount \<Rightarrow> bool" where
  "validMount vs x \<longleftrightarrow>
     mountName x \<in> volumeName ` set vs \<and> mountPath x \<noteq> [] \<and> CHR '':'' \<notin> set (mountPath x)"

definition validContainer :: "volume list \<Rightarrow> container \<Rightarrow> bool" where
  "validContainer vs k \<longleftrightarrow>
     dnsLabel (containerName k) \<and> validImage (containerImage k) \<and>
     containerPullPolicy k \<in> {''Always'', ''IfNotPresent'', ''Never''} \<and>
     (\<forall>s. containerSecurity k = Some s \<longrightarrow> validSecurity s) \<and>
     (\<forall>e \<in> set (containerEnv k). validEnvName (envName e)) \<and>
     validPorts (sliceList (containerPorts k)) \<and>
     (\<forall>x \<in> set (containerMounts k). validMount vs x) \<and> distinct (map mountPath (containerMounts k)) \<and>
     (\<forall>x. containerLiveness k = Some x \<longrightarrow> validProbe x) \<and>
     (\<forall>x. containerReadiness k = Some x \<longrightarrow> validProbe x)"

definition validPod :: "podSpec \<Rightarrow> bool" where
  "validPod pod \<longleftrightarrow>
     podSeccomp pod \<in> {None, Some ''RuntimeDefault'', Some ''Unconfined''} \<and>
     distinct (map volumeName (podVolumes pod)) \<and> (\<forall>v \<in> set (podVolumes pod). validVolume v) \<and>
     podContainers pod \<noteq> [] \<and> distinct (map containerName (podContainers pod)) \<and>
     (\<forall>k \<in> set (podContainers pod). validContainer (podVolumes pod) k)"

text \<open>The selector is not empty and selects the pods of the template.\<close>

definition validDeployment :: "deployment \<Rightarrow> bool" where
  "validDeployment d \<longleftrightarrow>
     validMeta dnsSubdomain (deploymentMeta d) \<and>
     (\<exists>n. deploymentReplicas (deploymentSpec d) = Some n \<and> 0 \<le> sint n) \<and>
     deploymentMatchLabels (deploymentSpec d) \<noteq> Map.empty \<and>
     validLabels (deploymentMatchLabels (deploymentSpec d)) \<and>
     deploymentMatchLabels (deploymentSpec d) \<subseteq>\<^sub>m metaLabels (templateMeta (deploymentSpec d)) \<and>
     validLabels (metaLabels (templateMeta (deploymentSpec d))) \<and>
     validAnnotations (metaAnnotations (templateMeta (deploymentSpec d))) \<and>
     validPod (templateSpec (deploymentSpec d))"

section \<open>Services\<close>

definition validServicePort :: "servicePort \<Rightarrow> bool" where
  "validServicePort q \<longleftrightarrow>
     dnsLabel (sportName q) \<and> sportProtocol q \<in> protocols \<and> portNumber (sportPort q) \<and>
     validTarget (sportTargetPort q) \<and> sportNodePort q = 0 \<and> sportAppProtocol q = None"

definition validService :: "service \<Rightarrow> bool" where
  "validService s \<longleftrightarrow>
     (let ps = sliceList (servicePorts (serviceSpec s)) in
      validMeta serviceName (serviceMeta s) \<and> validLabels (serviceSelector (serviceSpec s)) \<and>
      ps \<noteq> [] \<and> distinct (map sportName ps) \<and> distinct (map sportPort ps) \<and>
      (\<forall>q \<in> set ps. validServicePort q))"

section \<open>A server that admits what is valid\<close>

definition admitsValid :: "policy \<Rightarrow> namespacedName \<Rightarrow> bool" where
  "admitsValid pol n \<longleftrightarrow>
     (\<forall>d. keyOf (deploymentMeta d) = n \<and> validDeployment d \<longrightarrow> admitDeployment pol d = None) \<and>
     (\<forall>s. keyOf (serviceMeta s) = n \<and> validService s \<longrightarrow> admitService pol s = None)"

text \<open>
  \<open>intstr.FromInt\<close> keeps a port number, and \<open>GroupVersion.String\<close> joins group and version
  with a slash.
\<close>

definition valueLaws :: "lib \<Rightarrow> bool" where
  "valueLaws l \<longleftrightarrow>
     (\<forall>i. 0 < i \<and> i < 65536 \<longrightarrow> intstrFromInt l i = IntVal (word_of_int i)) \<and>
     (\<forall>g v. g \<noteq> [] \<longrightarrow> groupVersionString l g v = g @ ''/'' @ v)"

end
