(* ===== verification/Valid_Objects.thy ===== *)
theory Valid_Objects
  imports Api_Validation
begin

text \<open>
  What the proxy controller sends is valid.  \<open>plainProxy\<close> is what it takes of a proxy (and of
  the ConfigMaps its rulesets select): names, labels, image and ports of the right form.  For
  such a proxy the Deployment and the Service that are built are valid, and the edits of the
  operator keep a Deployment and a Service valid.
\<close>

section \<open>Characters and names\<close>

lemma digitChar_digits: "digitChar ` {..<10} \<subseteq> digits"
proof -
  have "map digitChar [0..<10] = ''0123456789''" by code_simp
  from arg_cong [OF this, of set] show ?thesis by (simp add: digits_def atLeast0LessThan)
qed

lemma utoa_length: "n < 10 ^ Suc k \<Longrightarrow> length (utoa n) \<le> Suc k"
proof (induction k arbitrary: n)
  case 0
  then show ?case by (subst utoa.simps) simp
next
  case (Suc k)
  then have "length (utoa (n div 10)) \<le> Suc k" by (intro Suc.IH) simp
  then show ?case by (subst utoa.simps) simp
qed

lemma utoa_nonempty [simp]: "utoa n \<noteq> []"
  by (subst utoa.simps) simp

lemma dnsLabel_port:
  assumes "0 \<le> p" and "p < 65536"
  shows "dnsLabel (''port'' @ itoa p)"
proof -
  have itoa: "itoa p = utoa (nat p)" using assms(1) by (simp add: itoa_def)
  have dg: "set (utoa (nat p)) \<subseteq> lowerAlnum"
    using utoa_digits [of "nat p"] digitChar_digits by (auto simp: lowerAlnum_def)
  have "length (utoa (nat p)) \<le> Suc 4" using assms by (intro utoa_length) simp
  moreover have "last (utoa (nat p)) \<in> lowerAlnum"
    by (rule subsetD [OF dg last_in_set]) simp
  moreover have "set ''port'' \<subseteq> lowerAlnum" by (simp add: lowerAlnum_def lowerLetters_def)
  moreover have "hd (''port'' @ itoa p) \<in> lowerAlnum" by (simp add: lowerAlnum_def lowerLetters_def)
  ultimately show ?thesis using dg by (simp add: dnsLabel_def dnsPart_def itoa) blast
qed

lemma sliceList_jsonList [simp]: "sliceList (jsonList xs) = sliceList xs"
  by (cases xs rule: jsonList.cases) (simp_all add: sliceList_def)

section \<open>Proxies\<close>

text \<open>The version label is the second part of the image reference, split at colons.\<close>

definition versionOf :: "villipProxy \<Rightarrow> string" where
  "versionOf p = splitString (CHR '':'') (imageForVillipProxy p) ! 1"

definition versionLabelled :: "villipProxy \<Rightarrow> bool" where
  "versionLabelled p \<longleftrightarrow>
     labelValue (versionOf p) \<or> metaLabels (proxyMeta p) ''app.kubernetes.io/version'' \<noteq> None"

text \<open>What the objects need of the proxy, apart from the version label and the rulesets.\<close>

definition soundProxy :: "villipProxy \<Rightarrow> bool" where
  "soundProxy p \<longleftrightarrow>
     serviceName (metaName (proxyMeta p)) \<and> dnsLabel (metaNamespace (proxyMeta p)) \<and>
     validLabels (metaLabels (proxyMeta p)) \<and> validImage (imageForVillipProxy p) \<and>
     specPorts (proxySpec p) \<noteq> [] \<and> distinct (specPorts (proxySpec p)) \<and> 0 \<notin> set (specPorts (proxySpec p)) \<and>
     0 \<le> sint (specSize (proxySpec p))"

text \<open>The names of the ConfigMaps to mount: distinct labels that fit into an annotation.\<close>

definition soundNames :: "string list \<Rightarrow> bool" where
  "soundNames names \<longleftrightarrow>
     distinct names \<and> (\<forall>m \<in> set names. dnsLabel m) \<and>
     length (joinStrings '','' (sortStrings names)) \<le> 200000"

definition plainProxy :: "cluster \<Rightarrow> villipProxy \<Rightarrow> bool" where
  "plainProxy c p \<longleftrightarrow>
     metaDeletionTimestamp (proxyMeta p) = None \<and> soundProxy p \<and> versionLabelled p \<and>
     soundNames (selectedNames c p)"

lemma plainProxyD:
  assumes "plainProxy c p"
  shows "metaDeletionTimestamp (proxyMeta p) = None" and "soundProxy p" and "versionLabelled p"
    and "soundNames (selectedNames c p)" and "specPorts (proxySpec p) \<noteq> []"
    and "distinct (specPorts (proxySpec p))" and "0 \<notin> set (specPorts (proxySpec p))"
    and "0 \<le> sint (specSize (proxySpec p))"
  using assms by (simp_all add: plainProxy_def soundProxy_def)

section \<open>Labels and annotations\<close>

lemma labelKeys:
  "labelKey ''app.kubernetes.io/name''" "labelKey ''app.kubernetes.io/version''"
  "labelKey ''app.kubernetes.io/managed-by''" "labelKey ''villip''" "labelKey confAnnotation"
  by (simp_all add: labelKey_def dnsSubdomain_def name_defs confAnnotation_def)

lemma validLabels_built:
  assumes "soundProxy p" and "labelsForVillipProxy p = Value ls"
  shows "validLabels ls \<longleftrightarrow> versionLabelled p"
proof -
  have ls: "ls = [''app.kubernetes.io/name'' \<mapsto> metaName (proxyMeta p),
             ''app.kubernetes.io/version'' \<mapsto> versionOf p,
             ''app.kubernetes.io/managed-by'' \<mapsto> ''VillipProxyController''] ++ metaLabels (proxyMeta p)"
    using labels_value [of p] assms(2) by (auto simp: versionOf_def)
  have name: "labelValue (metaName (proxyMeta p))"
    using assms(1) by (simp add: soundProxy_def serviceName_def labelValue_dnsLabel)
  have own: "validLabels (metaLabels (proxyMeta p))" using assms(1) by (simp add: soundProxy_def)
  have by': "labelValue ''VillipProxyController''" by (simp add: name_defs)
  show ?thesis
  proof
    assume "validLabels ls"
    then show "versionLabelled p"
      by (auto simp: validLabels_def versionLabelled_def ls map_add_def split: option.splits)
  next
    assume v: "versionLabelled p"
    show "validLabels ls"
      unfolding validLabels_def
    proof (intro allI impI)
      fix k x
      assume k: "ls k = Some x"
      show "labelKey k \<and> labelValue x"
      proof (cases "metaLabels (proxyMeta p) k")
        case None
        then show ?thesis
          using k v name by' by (auto simp: ls map_add_def versionLabelled_def labelKeys split: if_splits)
      next
        case (Some y)
        then show ?thesis using k own by (auto simp: ls map_add_def validLabels_def)
      qed
    qed
  qed
qed

lemma validAnnotations_conf:
  "length a \<le> 200000 \<Longrightarrow> validAnnotations [confAnnotation \<mapsto> a]"
  by (simp add: validAnnotations_def labelKeys) (simp add: confAnnotation_def)

lemma validAnnotations_empty: "validAnnotations Map.empty"
  by (simp add: validAnnotations_def)

lemma validMeta_nextVersion [simp]: "validMeta ok (nextVersion old m) = validMeta ok m"
  by (simp add: validMeta_def nextVersion_def)

section \<open>The objects that are built\<close>

text \<open>The owner reference the operator sets.\<close>

lemma owner_valid:
  assumes "libLaws l" and "valueLaws l" and "soundProxy p"
    and "setControllerReference l (ProxyOwner p) m = Inr m'"
    and "metaOwnerReferences m = []" and "metaNamespace m = metaNamespace (proxyMeta p)"
    and "metaFinalizers m = []"
  shows "validMeta ok m' \<longleftrightarrow>
    ok (metaName m) \<and> dnsLabel (metaNamespace m) \<and> validLabels (metaLabels m) \<and> validAnnotations (metaAnnotations m)"
proof -
  obtain ref where r: "setControllerReference l (ProxyOwner p) m = Inr (m\<lparr>metaOwnerReferences := [ref]\<rparr>)"
    "ownerKind ref = ownerKindOf (ProxyOwner p)" "ownerName ref = metaName (ownerMeta (ProxyOwner p))"
    "ownerAPIVersion ref = groupVersionString l ''villip.carmier.fr'' ''v1''"
    by (rule libLaws_owner [OF assms(1,5), of "ProxyOwner p"]) (use assms(6) in \<open>simp_all add: ownerMeta_def\<close>)
  have "metaName (proxyMeta p) \<noteq> []"
    using assms(3) by (auto simp: soundProxy_def serviceName_def dnsLabel_def dnsPart_def)
  moreover have "groupVersionString l ''villip.carmier.fr'' ''v1'' \<noteq> []"
    using assms(2) by (simp add: valueLaws_def)
  ultimately have "validOwner ref"
    using r(2-4) by (simp add: validOwner_def ownerKindOf_def ownerMeta_def)
  moreover have "m' = m\<lparr>metaOwnerReferences := [ref]\<rparr>" using r(1) assms(4) by simp
  ultimately show ?thesis using assms(7) by (auto simp: validMeta_def)
qed

lemma port_positive:
  assumes "0 \<notin> set ps" and "p \<in> set (sortedPortsOfVillipProxy ps)"
  shows "0 < p \<and> p < 65536"
proof -
  obtain w where "w \<in> set ps" "p = uint w" using assms(2) by (auto simp: ports.order_set)
  moreover have "uint w \<noteq> 0" using assms(1) \<open>w \<in> set ps\<close> by (auto simp: uint_0_iff)
  ultimately show ?thesis
    using ports.order_bounds [OF assms(2)] unsigned_greater_eq [where 'a = int, of w] by linarith
qed

lemma portNumber_of: "0 < p \<Longrightarrow> p < 65536 \<Longrightarrow> portNumber (word_of_int p)"
  by (simp add: portNumber_def uint_word_of_int)

lemma validPorts_deployment:
  assumes "distinct ps" and "0 \<notin> set ps"
  shows "validPorts (sliceList (portsForVillipProxyDeployment ps))"
proof -
  have "inj_on containerPortFor (set (sortedPortsOfVillipProxy ps))"
    using ports.order_bounds [of _ ps] by (intro inj_on_subset [OF inj_containerPortFor]) fastforce
  then show ?thesis
    using port_positive [OF assms(2)]
    by (auto simp: validPorts_def sliceList_def portsForVillipProxyDeployment_eq distinct_map
        ports.order_distinct assms(1) containerPortFor_def portNumber_of protocols_def)
qed

text \<open>A Service with the ports of a proxy.\<close>

lemma validService_ports:
  assumes "valueLaws l" and "distinct ps" and "0 \<notin> set ps" and "ps \<noteq> []"
    and "servicePorts (serviceSpec s) = portsForVillipProxyService l ps"
    and "validMeta serviceName (serviceMeta s)" and "validLabels (serviceSelector (serviceSpec s))"
  shows "validService s"
proof -
  have ne: "sortedPortsOfVillipProxy ps \<noteq> []"
    using ports.order_length [of ps] assms(4) by auto
  have names: "distinct (map (\<lambda>p. sportName (servicePortFor l p)) (sortedPortsOfVillipProxy ps))"
    using inj_servicePortName
    by (simp add: distinct_map inj_on_subset [OF _ subset_UNIV] ports.order_distinct assms(2))
  have "inj_on (\<lambda>p. sportPort (servicePortFor l p)) (set (sortedPortsOfVillipProxy ps))"
    using ports.order_bounds [of _ ps] by (auto simp: inj_on_def servicePortFor_def word_of_port_inject)
  then have nums: "distinct (map (\<lambda>p. sportPort (servicePortFor l p)) (sortedPortsOfVillipProxy ps))"
    by (simp add: distinct_map ports.order_distinct assms(2))
  have "validServicePort (servicePortFor l p)" if "p \<in> set (sortedPortsOfVillipProxy ps)" for p
    using port_positive [OF assms(3) that] assms(1)
    by (simp add: validServicePort_def servicePortFor_def dnsLabel_port protocols_def portNumber_of
        validTarget_def valueLaws_def del: append.simps)
  then show ?thesis
    using ne names nums assms(6,7)
    by (auto simp: validService_def sliceList_def portsForVillipProxyService_eq assms(5) comp_def)
qed

lemma validService_built:
  assumes "libLaws l" and "valueLaws l" and "soundProxy p"
    and "serviceForVillipProxy r p = Inr s" and "lib r = l"
  shows "validService s"
proof -
  obtain m where m: "setControllerReference l (ProxyOwner p) (serviceMeta (serviceObject l p)) = Inr m"
    and s: "s = (serviceObject l p)\<lparr>serviceMeta := m\<rparr>"
    using assms(4,5) by (auto simp: serviceForVillipProxy_def Let_def split: sum.splits)
  have "validMeta serviceName m"
    unfolding owner_valid [OF assms(1-3) m, simplified serviceObject_def, simplified emptyMeta_def, simplified]
    using assms(3) by (simp add: soundProxy_def validAnnotations_empty)
  moreover have "validLabels [''villip'' \<mapsto> metaName (proxyMeta p)]"
    using assms(3) by (simp add: validLabels_def labelKeys soundProxy_def serviceName_def labelValue_dnsLabel)
  ultimately show ?thesis
    using assms(3)
    by (intro validService_ports [OF assms(2), of "specPorts (proxySpec p)"])
       (simp_all add: s soundProxy_def serviceObject_def)
qed

text \<open>The pod of the operator.\<close>

lemma validMount_mountFor:
  assumes "dnsLabel n" and "n \<in> set names"
  shows "validMount (map volumeFor names) (mountFor n)"
  using assms dnsLabel_chars [OF assms(1)]
  by (auto simp: validMount_def mountFor_def volumeFor_def image_image)

lemma validVolume_volumeFor: "dnsLabel n \<Longrightarrow> validVolume (volumeFor n)"
  by (auto simp: validVolume_def volumeFor_def dnsLabel_def dnsPart_def)

lemma mounts_simps [simp]:
  "map volumeName (map volumeFor names) = names" "map mountName (map mountFor names) = names"
  "distinct (map mountPath (map mountFor names)) \<longleftrightarrow> distinct names"
proof -
  show "map volumeName (map volumeFor names) = names" "map mountName (map mountFor names) = names"
    by (simp_all add: comp_def volumeFor_def mountFor_def)
  have "inj (\<lambda>n. mountPath (mountFor n))" by (simp add: inj_on_def mountFor_def)
  then show "distinct (map mountPath (map mountFor names)) \<longleftrightarrow> distinct names"
    using inj_on_subset [OF _ subset_UNIV] by (auto simp: comp_def distinct_map)
qed

lemma validPod_built:
  assumes "valueLaws l" and "soundProxy p" and "soundNames names"
  shows "validPod (templateSpec (deploymentSpec
    (deploymentObject l p ls (map mountFor names) (map volumeFor names) ann)))"
proof -
  have port: "intstrFromInt l 9000 = IntVal 9000" using assms(1) by (simp add: valueLaws_def)
  have "validContainer (map volumeFor names) (villipContainer l p (map mountFor names))"
    using assms(2,3) validPorts_deployment [of "specPorts (proxySpec p)"]
    by (auto simp: validContainer_def villipContainer_def soundProxy_def soundNames_def validMount_mountFor
        name_defs validSecurity_def validEnvName_def validProbe_def probeFor_def port validTarget_def portNumber_def
        simp del: map_map)
  then show ?thesis
    using assms(3)
    by (auto simp: validPod_def deploymentObject_def soundNames_def validVolume_volumeFor simp del: map_map)
qed

lemma validDeployment_built:
  assumes "libLaws l" and "valueLaws l" and "soundProxy p" and "soundNames names"
    and "labelsForVillipProxy p = Value ls"
  defines "d \<equiv> deploymentObject l p ls (map mountFor names) (map volumeFor names)
    [confAnnotation \<mapsto> joinStrings '','' (sortStrings names)]"
  assumes "setControllerReference l (ProxyOwner p) (deploymentMeta d) = Inr m"
  shows "validDeployment (d\<lparr>deploymentMeta := m\<rparr>) \<longleftrightarrow> versionLabelled p"
proof -
  have meta: "deploymentMeta d = emptyMeta\<lparr>metaName := metaName (proxyMeta p),
      metaNamespace := metaNamespace (proxyMeta p), metaLabels := ls,
      metaAnnotations := [confAnnotation \<mapsto> joinStrings '','' (sortStrings names)]\<rparr>"
    by (simp add: d_def deploymentObject_def)
  have "dnsSubdomain (metaName (proxyMeta p))" "dnsLabel (metaNamespace (proxyMeta p))"
    using assms(3) by (simp_all add: soundProxy_def serviceName_def dnsLabel_subdomain)
  then have "validMeta dnsSubdomain m \<longleftrightarrow> validLabels ls"
    using owner_valid [OF assms(1-3,7), of dnsSubdomain] assms(4)
    by (simp add: meta emptyMeta_def soundNames_def validAnnotations_conf)
  moreover have "ls \<noteq> Map.empty"
    using labels_value [of p] assms(5) by (auto simp: fun_eq_iff map_add_def split: option.splits)
  moreover have "validPod (templateSpec (deploymentSpec d))"
    unfolding d_def by (rule validPod_built [OF assms(2-4)])
  ultimately show ?thesis
    using validLabels_built [OF assms(3,5)] assms(3)
    by (auto simp: validDeployment_def d_def deploymentObject_def validAnnotations_empty emptyMeta_def soundProxy_def)
qed

section \<open>The edits\<close>

text \<open>A valid Deployment with the one container of the operator, which mounts all volumes.\<close>

definition plainDeployment :: "deployment \<Rightarrow> bool" where
  "plainDeployment d \<longleftrightarrow>
     validDeployment d \<and>
     (\<exists>k. podContainers (templateSpec (deploymentSpec d)) = [k] \<and>
        map mountName (containerMounts k) = map volumeName (podVolumes (templateSpec (deploymentSpec d))))"

lemma validContainer_cong:
  assumes "sliceList (containerPorts k') = sliceList (containerPorts k)"
    and "k'\<lparr>containerPorts := None\<rparr> = k\<lparr>containerPorts := None\<rparr>"
  shows "validContainer vs k' = validContainer vs k"
proof -
  have "containerName k' = containerName k \<and> containerImage k' = containerImage k \<and>
      containerPullPolicy k' = containerPullPolicy k \<and> containerSecurity k' = containerSecurity k \<and>
      containerEnv k' = containerEnv k \<and> containerMounts k' = containerMounts k \<and>
      containerLiveness k' = containerLiveness k \<and> containerReadiness k' = containerReadiness k"
    using assms(2) by (cases k; cases k') simp
  then show ?thesis using assms(1) by (simp add: validContainer_def)
qed

lemma valid_encodeDeployment [simp]:
  "validDeployment (encodeDeployment d) \<longleftrightarrow> validDeployment d"
proof -
  have "validContainer vs (k\<lparr>containerPorts := jsonList (containerPorts k)\<rparr>) = validContainer vs k" for vs k
    by (rule validContainer_cong) simp_all
  then have "validPod (templateSpec (deploymentSpec (encodeDeployment d))) = validPod (templateSpec (deploymentSpec d))"
    by (simp add: validPod_def encodeDeployment_def Let_def comp_def)
  moreover have "templateMeta (deploymentSpec (encodeDeployment d)) = templateMeta (deploymentSpec d)"
    "deploymentMeta (encodeDeployment d) = deploymentMeta d"
    "deploymentReplicas (deploymentSpec (encodeDeployment d)) = deploymentReplicas (deploymentSpec d)"
    "deploymentMatchLabels (deploymentSpec (encodeDeployment d)) = deploymentMatchLabels (deploymentSpec d)"
    by (simp_all add: encodeDeployment_def Let_def)
  ultimately show ?thesis by (simp add: validDeployment_def)
qed

lemma valid_withMeta:
  "validMeta dnsSubdomain m = validMeta dnsSubdomain (deploymentMeta d) \<Longrightarrow>
     validDeployment (d\<lparr>deploymentMeta := m\<rparr>) \<longleftrightarrow> validDeployment d"
  by (simp add: validDeployment_def)

lemma plain_encodeDeployment [simp]:
  "plainDeployment ((encodeDeployment d)\<lparr>deploymentMeta := nextVersion m (deploymentMeta d)\<rparr>) \<longleftrightarrow> plainDeployment d"
  "plainDeployment (encodeDeployment d) \<longleftrightarrow> plainDeployment d"
proof -
  have shape: "(\<exists>k. podContainers (templateSpec (deploymentSpec (encodeDeployment d))) = [k] \<and>
        map mountName (containerMounts k) = map volumeName (podVolumes (templateSpec (deploymentSpec (encodeDeployment d))))) =
      (\<exists>k. podContainers (templateSpec (deploymentSpec d)) = [k] \<and>
        map mountName (containerMounts k) = map volumeName (podVolumes (templateSpec (deploymentSpec d))))"
    by (auto simp: encodeDeployment_def Let_def map_eq_Cons_conv)
  have meta: "deploymentMeta (encodeDeployment d) = deploymentMeta d" by (simp add: encodeDeployment_def Let_def)
  show "plainDeployment (encodeDeployment d) \<longleftrightarrow> plainDeployment d"
    by (simp only: plainDeployment_def valid_encodeDeployment shape)
  show "plainDeployment ((encodeDeployment d)\<lparr>deploymentMeta := nextVersion m (deploymentMeta d)\<rparr>) \<longleftrightarrow> plainDeployment d"
    using shape by (simp add: plainDeployment_def valid_withMeta meta)
qed

lemma valid_encodeService [simp]:
  "validService ((encodeService s)\<lparr>serviceMeta := nextVersion m (serviceMeta s)\<rparr>) \<longleftrightarrow> validService s"
  "validService (encodeService s) \<longleftrightarrow> validService s"
  by (simp_all add: validService_def encodeService_def)

lemma plain_setReplicas:
  "plainDeployment d \<Longrightarrow> 0 \<le> sint n \<Longrightarrow> plainDeployment (setReplicas n d)"
  by (simp add: plainDeployment_def validDeployment_def setReplicas_def)

lemma validContainer_mounts:
  assumes "validContainer vs k" and "soundNames names"
  shows "validContainer (map volumeFor names) (k\<lparr>containerMounts := map mountFor names\<rparr>)"
  using assms by (auto simp: validContainer_def soundNames_def validMount_mountFor simp del: map_map)

lemma plain_setMounts:
  assumes "plainDeployment d" and "soundNames names"
  shows "plainDeployment (setMounts (map mountFor names) (map volumeFor names)
    [confAnnotation \<mapsto> joinStrings '','' (sortStrings names)] d)"
proof -
  obtain k where k: "podContainers (templateSpec (deploymentSpec d)) = [k]" and d: "validDeployment d"
    using assms(1) by (auto simp: plainDeployment_def)
  have "validContainer (map volumeFor names) (k\<lparr>containerMounts := map mountFor names\<rparr>)"
    using d by (intro validContainer_mounts [OF _ assms(2)]) (auto simp: validDeployment_def validPod_def k)
  then show ?thesis
    using d assms(2)
    by (auto simp: plainDeployment_def validDeployment_def validPod_def setMounts_def setFirstContainer_def Let_def k
        validMeta_def soundNames_def validAnnotations_conf validVolume_volumeFor simp del: map_map)
qed

lemma plain_setFirstPorts:
  assumes "plainDeployment d" and "validPorts (sliceList ps)"
  shows "plainDeployment (setFirstContainer (\<lambda>c. c\<lparr>containerPorts := ps\<rparr>) d)"
  using assms
  by (auto simp: plainDeployment_def validDeployment_def validPod_def validContainer_def setFirstContainer_def Let_def)

lemma plain_deploymentObject:
  assumes "libLaws l" and "valueLaws l" and "plainProxy c p" and "labelsForVillipProxy p = Value ls"
  defines "d \<equiv> deploymentObject l p ls (map mountFor (selectedNames c p)) (map volumeFor (selectedNames c p))
    [confAnnotation \<mapsto> joinStrings '','' (sortStrings (selectedNames c p))]"
  assumes "setControllerReference l (ProxyOwner p) (deploymentMeta d) = Inr m"
  shows "plainDeployment (d\<lparr>deploymentMeta := m\<rparr>)"
proof -
  note p = plainProxyD [OF assms(3)]
  have "validDeployment (d\<lparr>deploymentMeta := m\<rparr>)"
    using validDeployment_built [OF assms(1,2) p(2,4) assms(4), of m] assms(6) p(3) by (simp add: d_def)
  then show ?thesis
    by (simp add: plainDeployment_def d_def deploymentObject_def villipContainer_def del: map_map)
qed

end
