(* ===== verification/Proxy_Convergence.thy ===== *)
theory Proxy_Convergence
  imports Store_Transfer Ranked_Loop Valid_Objects
begin

text \<open>
  The proxy reconciler as a control loop against the reference server, when no request fails
  and the server admits what is valid.  The state of the cluster as one proxy sees it is a
  phase; \<open>phaseStep\<close> is the abstract machine over phases, and every pass of
  \<open>reconcileProxy\<close> is one of its steps.  The rank of a phase bounds the number of passes
  until the Deployment, the Service and the status agree with the proxy.
\<close>

section \<open>Phases\<close>

datatype phase = Absent | Unstatused | Unguarded | Deleting | Undeployed | Missized | Remounting
  | Unserved | Misported | Aligned

definition portsAligned :: "lib \<Rightarrow> villipProxy \<Rightarrow> deployment \<Rightarrow> service \<Rightarrow> bool" where
  "portsAligned l p d s \<longleftrightarrow>
     map containerPorts (take 1 (podContainers (templateSpec (deploymentSpec d)))) =
       [portsForVillipProxyDeployment (specPorts (proxySpec p))] \<and>
     servicePorts (serviceSpec s) = portsForVillipProxyService l (specPorts (proxySpec p))"

definition workloadPhase :: "lib \<Rightarrow> cluster \<Rightarrow> namespacedName \<Rightarrow> villipProxy \<Rightarrow> phase" where
  "workloadPhase l c n p =
     (case findObj deploymentMeta n (clDeployments c) of
        None \<Rightarrow> Undeployed
      | Some d \<Rightarrow>
          if deploymentReplicas (deploymentSpec d) \<noteq> Some (specSize (proxySpec p)) then Missized
          else if \<not> rulesetsAligned c p d then Remounting
          else (case findObj serviceMeta n (clServices c) of
                  None \<Rightarrow> Unserved
                | Some s \<Rightarrow> if portsAligned l p d s then Aligned else Misported))"

definition proxyPhase :: "lib \<Rightarrow> cluster \<Rightarrow> namespacedName \<Rightarrow> phase" where
  "proxyPhase l c n =
     (case findObj proxyMeta n (clProxies c) of
        None \<Rightarrow> Absent
      | Some p \<Rightarrow>
          if proxyConditions (proxyStatus p) = [] then Unstatused
          else if villipproxyFinalizer \<notin> set (metaFinalizers (proxyMeta p)) then Unguarded
          else if metaDeletionTimestamp (proxyMeta p) \<noteq> None then Deleting
          else workloadPhase l c n p)"

definition workloadPhases :: "phase set" where
  "workloadPhases = {Undeployed, Missized, Remounting, Unserved, Misported, Aligned}"

inductive phaseStep :: "phase \<Rightarrow> phase \<Rightarrow> bool" where
  absent: "phaseStep Absent Absent"
| status: "q \<in> insert Unguarded workloadPhases \<Longrightarrow> phaseStep Unstatused q"
| guard: "q \<in> workloadPhases \<Longrightarrow> phaseStep Unguarded q"
| deploy: "q \<in> {Unserved, Misported, Aligned} \<Longrightarrow> phaseStep Undeployed q"
| resize: "q \<in> {Remounting, Unserved, Misported, Aligned} \<Longrightarrow> phaseStep Missized q"
| remount: "q \<in> {Unserved, Misported, Aligned} \<Longrightarrow> phaseStep Remounting q"
| serve: "q \<in> {Misported, Aligned} \<Longrightarrow> phaseStep Unserved q"
| realign: "phaseStep Misported Aligned"
| stay: "phaseStep Aligned Aligned"

inductive_simps phaseStep_from [simp]:
  "phaseStep Absent q" "phaseStep Unstatused q" "phaseStep Unguarded q" "phaseStep Deleting q"
  "phaseStep Undeployed q" "phaseStep Missized q" "phaseStep Remounting q" "phaseStep Unserved q"
  "phaseStep Misported q" "phaseStep Aligned q"

fun rank :: "phase \<Rightarrow> nat" where
  "rank Unstatused = 7"
| "rank Unguarded = 6"
| "rank Undeployed = 5"
| "rank Missized = 4"
| "rank Remounting = 3"
| "rank Unserved = 2"
| "rank Misported = 1"
| "rank _ = 0"

lemma phaseStep_rank:
  "phaseStep p q \<Longrightarrow> p \<noteq> Aligned \<Longrightarrow> p \<noteq> Absent \<Longrightarrow> rank q < rank p"
  by (cases p) (auto simp: workloadPhases_def)

lemma workloadPhase_in [simp]: "workloadPhase l c n p \<in> workloadPhases"
  by (simp add: workloadPhase_def workloadPhases_def split: option.splits)

section \<open>The invariant\<close>

text \<open>
  The invariant of the control loop: no request fails, the proxy exists and is plain, and the
  Deployment and the Service of that name, if they exist, are valid and not being deleted; the
  Deployment has the one container the operator gives it.
\<close>

definition healthy :: "namespacedName \<Rightarrow> cluster \<Rightarrow> bool" where
  "healthy n c \<longleftrightarrow>
     clFaults c = [] \<and>
     (\<exists>p. findObj proxyMeta n (clProxies c) = Some p \<and> plainProxy c p) \<and>
     (\<forall>d. findObj deploymentMeta n (clDeployments c) = Some d \<longrightarrow>
        plainDeployment d \<and> metaDeletionTimestamp (deploymentMeta d) = None) \<and>
     (\<forall>s. findObj serviceMeta n (clServices c) = Some s \<longrightarrow>
        validService s \<and> metaDeletionTimestamp (serviceMeta s) = None)"

lemma encode_meta [simp]:
  "deploymentMeta (encodeDeployment d) = deploymentMeta d"
  "serviceMeta (encodeService s) = serviceMeta s"
  by (simp_all add: encodeDeployment_def encodeService_def Let_def)

text \<open>What the operator leaves alone in a Deployment that exists: the selector, and the pod template
  but for the ports and the mounts.\<close>

definition podsOf :: "deployment \<Rightarrow> stringMap \<times> objectMeta \<times> container list" where
  "podsOf d =
     (deploymentMatchLabels (deploymentSpec d), templateMeta (deploymentSpec d),
      map (\<lambda>k. k\<lparr>containerPorts := None, containerMounts := []\<rparr>) (podContainers (templateSpec (deploymentSpec d))))"

lemma podsOf_edits [simp]:
  "podsOf (encodeDeployment d) = podsOf d" "podsOf (d\<lparr>deploymentMeta := m\<rparr>) = podsOf d"
  "podsOf (setReplicas n d) = podsOf d" "podsOf (setMounts vm vs ann d) = podsOf d"
  "podsOf (setFirstContainer (\<lambda>c. c\<lparr>containerPorts := ps\<rparr>) d) = podsOf d"
  by (simp_all add: podsOf_def encodeDeployment_def setReplicas_def setMounts_def setFirstContainer_def Let_def comp_def
      split: list.split)

text \<open>A Deployment that is exactly what the operator builds for the proxy.\<close>

definition builtFor :: "lib \<Rightarrow> cluster \<Rightarrow> villipProxy \<Rightarrow> deployment \<Rightarrow> bool" where
  "builtFor l c p d \<longleftrightarrow>
     (\<exists>ls. labelsForVillipProxy p = Value ls \<and>
        deploymentSpec d = deploymentSpec (deploymentObject l p ls
          (map mountFor (selectedNames c p)) (map volumeFor (selectedNames c p)) Map.empty)) \<and>
     metaAnnotations (deploymentMeta d) confAnnotation =
       Some (joinStrings '','' (sortStrings (selectedNames c p)))"

lemma builtFor_aligned:
  assumes "builtFor l c p d"
  shows "deploymentReplicas (deploymentSpec d) = Some (specSize (proxySpec p))" and "rulesetsAligned c p d"
    and "map containerPorts (podContainers (templateSpec (deploymentSpec d))) =
      [portsForVillipProxyDeployment (specPorts (proxySpec p))]"
    and "map containerMounts (podContainers (templateSpec (deploymentSpec d))) = [map mountFor (selectedNames c p)]"
  using assms by (auto simp: builtFor_def rulesetsAligned_def deploymentObject_def villipContainer_def)

definition asBuilt :: "lib \<Rightarrow> namespacedName \<Rightarrow> cluster \<Rightarrow> bool" where
  "asBuilt l n c \<longleftrightarrow>
     (\<forall>p d. findObj proxyMeta n (clProxies c) = Some p \<longrightarrow> findObj deploymentMeta n (clDeployments c) = Some d \<longrightarrow>
        builtFor l c p d)"

lemma asBuilt_services: "asBuilt l n (c\<lparr>clServices := ss\<rparr>) = asBuilt l n c"
  by (simp add: asBuilt_def builtFor_def selectedNames_def)

text \<open>A server that admits what is valid, with helpers that produce what they document.\<close>

definition obliging :: "policy \<Rightarrow> lib \<Rightarrow> namespacedName \<Rightarrow> bool" where
  "obliging pol l n \<longleftrightarrow> admitsValid pol n \<and> valueLaws l"

section \<open>Writes of the proxy controller\<close>

text \<open>What an update of an existing object stores, when its metadata keys are unchanged.\<close>

lemma run_deploymentUpdate:
  assumes "clFaults c = []" and "findObj deploymentMeta n (clDeployments c) = Some d"
    and "metaDeletionTimestamp (deploymentMeta d) = None"
    and "keyOf (deploymentMeta d') = n"
    and "metaResourceVersion (deploymentMeta d') = metaResourceVersion (deploymentMeta d)"
    and "plainDeployment d'" and "obliging pol l n" and "podsOf d' = podsOf d"
  defines "new \<equiv> (encodeDeployment d')\<lparr>deploymentMeta :=
             nextVersion (deploymentMeta d) (deploymentMeta d')\<rparr>"
  shows "run_state (deploymentUpdate (storeReconciler pol l) req p d') c =
    ((None, p, new), c\<lparr>clDeployments := replaceObj deploymentMeta new (clDeployments c)\<rparr>)"
proof -
  have "plainDeployment new" using assms(6) by (simp add: new_def)
  then have "admitDeployment pol new = None"
    using assms(4,7) by (simp add: obliging_def admitsValid_def plainDeployment_def) (simp add: new_def)
  moreover have "\<not> finalized (deploymentMeta new)"
    by (simp add: new_def nextVersion_def finalized_def assms(3))
  moreover have "deploymentMatchLabels (deploymentSpec d') = deploymentMatchLabels (deploymentSpec d)"
    using assms(8) by (simp add: podsOf_def)
  ultimately show ?thesis
    using assms(1-5)
    by (simp add: deploymentUpdate_def run_simps store_runs storeUpdateDeployment_def updateError_def
        new_def [symmetric] writeObj_def Let_def)
qed

lemma run_serviceUpdate:
  assumes "clFaults c = []" and "findObj serviceMeta n (clServices c) = Some s"
    and "metaDeletionTimestamp (serviceMeta s) = None"
    and "keyOf (serviceMeta s') = n"
    and "metaResourceVersion (serviceMeta s') = metaResourceVersion (serviceMeta s)"
    and "validService s'" and "obliging pol l n"
  defines "new \<equiv> (encodeService s')\<lparr>serviceMeta := nextVersion (serviceMeta s) (serviceMeta s')\<rparr>"
  shows "run_state (serviceUpdate (storeReconciler pol l) req p s') c =
    ((None, p, new), c\<lparr>clServices := replaceObj serviceMeta new (clServices c)\<rparr>)"
proof -
  have "admitService pol new = None"
    using assms(4,6,7) by (simp add: obliging_def admitsValid_def new_def)
  moreover have "\<not> finalized (serviceMeta new)"
    by (simp add: new_def nextVersion_def finalized_def assms(3))
  ultimately show ?thesis
    using assms(1-5)
    by (simp add: serviceUpdate_def run_simps store_runs storeUpdateService_def updateError_def
        new_def [symmetric] writeObj_def Let_def)
qed


section \<open>One pass from each phase\<close>

text \<open>What a pass never touches: the spec and the labels of the proxy, the ConfigMaps, and the part
  \<open>podsOf\<close> of a Deployment that exists.\<close>

definition keeps :: "namespacedName \<Rightarrow> cluster \<Rightarrow> cluster \<Rightarrow> bool" where
  "keeps n c c' \<longleftrightarrow>
     clConfigMaps c' = clConfigMaps c \<and>
     map_option (\<lambda>p. (proxySpec p, metaLabels (proxyMeta p))) (findObj proxyMeta n (clProxies c')) =
       map_option (\<lambda>p. (proxySpec p, metaLabels (proxyMeta p))) (findObj proxyMeta n (clProxies c)) \<and>
     (\<forall>d. findObj deploymentMeta n (clDeployments c) = Some d \<longrightarrow>
        (\<exists>d'. findObj deploymentMeta n (clDeployments c') = Some d' \<and> podsOf d' = podsOf d))"

lemma keeps_refl [simp]: "keeps n c c"
  by (simp add: keeps_def)

lemma keeps_trans: "keeps n c c' \<Longrightarrow> keeps n c' c'' \<Longrightarrow> keeps n c c''"
  unfolding keeps_def by metis

definition passTo ::
  "policy \<Rightarrow> lib \<Rightarrow> namespacedName \<Rightarrow> cluster \<Rightarrow> reconcileResult \<Rightarrow> cluster \<Rightarrow> bool" where
  "passTo pol l n c res c' \<longleftrightarrow>
     run_state (reconcileProxy (storeReconciler pol l) n) c = (Value (res, None), c') \<and>
     healthy n c' \<and> keeps n c c' \<and> (asBuilt l n c \<longrightarrow> asBuilt l n c') \<and>
     phaseStep (proxyPhase l c n) (proxyPhase l c' n)"

lemma selectedNames_cong:
  assumes "clConfigMaps c' = clConfigMaps c" and "proxySpec p' = proxySpec p"
    and "metaNamespace (proxyMeta p') = metaNamespace (proxyMeta p)"
  shows "selectedNames c' p' = selectedNames c p"
  using assms by (simp add: selectedNames_def)

lemma workloadPhase_cong:
  assumes "clConfigMaps c' = clConfigMaps c" and "proxySpec p' = proxySpec p"
    and "metaNamespace (proxyMeta p') = metaNamespace (proxyMeta p)"
    and "clDeployments c' = clDeployments c" and "clServices c' = clServices c"
  shows "workloadPhase l c' n p' = workloadPhase l c n p"
  by (simp add: workloadPhase_def rulesetsAligned_def selectedNames_cong [OF assms(1-3)]
      portsAligned_def assms(2,4,5) cong: option.case_cong if_cong)

lemma findObj_name: "findObj meta n xs = Some x \<Longrightarrow> metaName (meta x) = nnName n"
  using findObj_key by fastforce

lemma findObj_namespace:
  "findObj meta n xs = Some x \<Longrightarrow> metaNamespace (meta x) = nnNamespace n"
  using findObj_key by fastforce

text \<open>Passes that write the proxy only.\<close>

lemma proxy_write:
  assumes "healthy n c" and "findObj proxyMeta n (clProxies c) = Some p"
    and "clFaults c' = []" and "clConfigMaps c' = clConfigMaps c"
    and "clDeployments c' = clDeployments c" and "clServices c' = clServices c"
    and "clProxies c' = replaceObj proxyMeta p' (clProxies c)"
    and "keyOf (proxyMeta p') = n" and "proxySpec p' = proxySpec p"
    and "metaDeletionTimestamp (proxyMeta p') = metaDeletionTimestamp (proxyMeta p)"
    and "metaLabels (proxyMeta p') = metaLabels (proxyMeta p)"
  shows "healthy n c'" and "keeps n c c'" and "findObj proxyMeta n (clProxies c') = Some p'"
    and "workloadPhase l c' n p' = workloadPhase l c n p" and "asBuilt l n c \<Longrightarrow> asBuilt l n c'"
proof -
  show f: "findObj proxyMeta n (clProxies c') = Some p'"
    using assms(2,7,8) by (simp add: findObj_replaceObj)
  have ns: "metaNamespace (proxyMeta p') = metaNamespace (proxyMeta p)"
    using findObj_namespace [OF f] findObj_namespace [OF assms(2)] by simp
  have name: "metaName (proxyMeta p') = metaName (proxyMeta p)"
    using findObj_name [OF f] findObj_name [OF assms(2)] by simp
  note sel = selectedNames_cong [OF assms(4,9) ns]
  have same: "imageForVillipProxy p' = imageForVillipProxy p" "labelsForVillipProxy p' = labelsForVillipProxy p"
    by (simp_all add: imageForVillipProxy_def labelsForVillipProxy_def assms(9,11) name cong: option.case_cong)
  have "plainProxy c' p'"
    using assms(1,2,9,10,11) ns
    by (auto simp: healthy_def plainProxy_def soundProxy_def versionLabelled_def versionOf_def sel same name)
  with f assms(1,3,5,6) show "healthy n c'" by (simp add: healthy_def)
  show "keeps n c c'" using f assms(2,4,5,9,11) by (simp add: keeps_def)
  show "workloadPhase l c' n p' = workloadPhase l c n p"
    by (rule workloadPhase_cong) (use assms ns in simp_all)
  have "deploymentSpec (deploymentObject l p' ls vm vs a) = deploymentSpec (deploymentObject l p ls vm vs a)" for ls vm vs a
    by (simp add: deploymentObject_def villipContainer_def assms(9) same)
  then have "builtFor l c' p' d = builtFor l c p d" for d
    by (simp add: builtFor_def sel same)
  then show "asBuilt l n c \<Longrightarrow> asBuilt l n c'" using f assms(2,5) by (simp add: asBuilt_def)
qed

lemma pass_Unstatused:
  assumes "libLaws l" and "healthy n c" and "proxyPhase l c n = Unstatused"
  shows "\<exists>c'. passTo pol l n c requeueMinute c'"
proof -
  obtain p where p: "findObj proxyMeta n (clProxies c) = Some p" "plainProxy c p"
    and nofault: "clFaults c = []"
    using assms(2) by (auto simp: healthy_def)
  have un: "proxyConditions (proxyStatus p) = []"
    using assms(3) p(1) by (auto simp: proxyPhase_def workloadPhase_def split: if_splits option.splits)
  have del: "metaDeletionTimestamp (proxyMeta p) = None" using p(2) by (simp add: plainProxy_def)
  let ?p' = "withProxyCondition l (clockTime pol (clClock c))
    (mkCondition typeAvailableVillipProxy ConditionUnknown ''Reconciling'' ''Starting reconciliation'') p"
  let ?c' = "c\<lparr>clClock := Suc (clClock c), clProxies := replaceObj proxyMeta ?p' (clProxies c)\<rparr>"
  have run: "run_state (reconcileProxy (storeReconciler pol l) n) c = (Value (requeueMinute, None), ?c')"
    by (simp add: reconcileProxy_def initProxyStatus_def run_simps store_runs nofault p(1) un
        run_setProxyStatus [OF nofault p(1) not_finalized [OF del]])
  note w = proxy_write [OF assms(2) p(1), of ?c' ?p']
  have h: "healthy n ?c'" and k: "keeps n c ?c'" and f: "findObj proxyMeta n (clProxies ?c') = Some ?p'"
    and b: "asBuilt l n c \<Longrightarrow> asBuilt l n ?c'"
    by (rule w; simp add: nofault findObj_key [OF p(1)])+
  have "proxyPhase l ?c' n \<in> insert Unguarded workloadPhases"
    using f del by (simp add: proxyPhase_def libLaws_set_nonempty [OF assms(1)])
  then show ?thesis using run h k b by (auto simp: passTo_def assms(3))
qed

lemma pass_Unguarded:
  assumes "libLaws l" and "healthy n c" and "proxyPhase l c n = Unguarded"
  shows "\<exists>c'. passTo pol l n c requeueMinute c'"
proof -
  obtain p where p: "findObj proxyMeta n (clProxies c) = Some p" "plainProxy c p"
    and nofault: "clFaults c = []"
    using assms(2) by (auto simp: healthy_def)
  have ph: "proxyConditions (proxyStatus p) \<noteq> []" "villipproxyFinalizer \<notin> set (metaFinalizers (proxyMeta p))"
    using assms(3) p(1) by (auto simp: proxyPhase_def workloadPhase_def split: if_splits option.splits)
  have del: "metaDeletionTimestamp (proxyMeta p) = None" using p(2) by (simp add: plainProxy_def)
  have key: "keyOf (proxyMeta p) = n" using p(1) by (rule findObj_key)
  let ?m = "(proxyMeta p)\<lparr>metaFinalizers := metaFinalizers (proxyMeta p) @ [villipproxyFinalizer]\<rparr>"
  let ?p' = "p\<lparr>proxyMeta := nextVersion (proxyMeta p) ?m\<rparr>"
  let ?c' = "c\<lparr>clProxies := replaceObj proxyMeta ?p' (clProxies c)\<rparr>"
  have key': "keyOf ?m = n" using key by (simp add: keyOf_def)
  have fin: "\<not> finalized (nextVersion (proxyMeta p) ?m)" by (simp add: finalized_def nextVersion_def del)
  have run: "run_state (reconcileProxy (storeReconciler pol l) n) c = (Value (requeueMinute, None), ?c')"
    using ph
    by (simp add: reconcileProxy_def addProxyFinalizer_def run_simps store_runs nofault p(1)
        libLaws_finalizer [OF assms(1)] storeUpdateProxy_def key' updateError_def del writeObj_def fin Let_def)
  note w = proxy_write [OF assms(2) p(1), of ?c' ?p']
  have h: "healthy n ?c'" and k: "keeps n c ?c'" and f: "findObj proxyMeta n (clProxies ?c') = Some ?p'"
    and b: "asBuilt l n c \<Longrightarrow> asBuilt l n ?c'"
    by (rule w; simp add: nofault key' nextVersion_def; simp add: keyOf_def key [unfolded keyOf_def])+
  have "proxyPhase l ?c' n \<in> workloadPhases"
    using f del ph by (simp add: proxyPhase_def nextVersion_def)
  then show ?thesis using run h k b by (auto simp: passTo_def assms(3))
qed


text \<open>A proxy whose own guards have passed.\<close>

definition guarded :: "villipProxy \<Rightarrow> bool" where
  "guarded p \<longleftrightarrow> proxyConditions (proxyStatus p) \<noteq> [] \<and>
     villipproxyFinalizer \<in> set (metaFinalizers (proxyMeta p)) \<and>
     metaDeletionTimestamp (proxyMeta p) = None"

lemma proxyPhase_guarded:
  "findObj proxyMeta n (clProxies c) = Some p \<Longrightarrow> guarded p \<Longrightarrow> proxyPhase l c n = workloadPhase l c n p"
  by (simp add: proxyPhase_def guarded_def)

lemma workloadE:
  assumes "healthy n c" and "proxyPhase l c n \<in> workloadPhases"
  obtains p where "findObj proxyMeta n (clProxies c) = Some p" and "plainProxy c p" and "guarded p"
    and "clFaults c = []" and "workloadPhase l c n p = proxyPhase l c n"
proof -
  obtain p where p: "findObj proxyMeta n (clProxies c) = Some p" "plainProxy c p" and "clFaults c = []"
    using assms(1) by (auto simp: healthy_def)
  moreover have "guarded p"
    using assms(2) p by (auto simp: proxyPhase_def guarded_def workloadPhases_def split: if_splits)
  ultimately show thesis using proxyPhase_guarded that by fastforce
qed

lemma run_guarded:
  assumes "libLaws l" and "clFaults c = []" and "findObj proxyMeta n (clProxies c) = Some p" and "guarded p"
  shows "run_state (reconcileProxy (storeReconciler pol l) n) c =
    run_state (reconcileProxyDeployment (storeReconciler pol l) n p) c"
  using assms by (simp add: reconcileProxy_def run_simps store_runs guarded_def libLaws_finalizer)

text \<open>Passes that write the Deployment.\<close>

lemma deployment_write:
  assumes "healthy n c" and "findObj deploymentMeta n ds = Some d"
    and "plainDeployment d" and "metaDeletionTimestamp (deploymentMeta d) = None"
    and "\<And>d0. findObj deploymentMeta n (clDeployments c) = Some d0 \<Longrightarrow> podsOf d = podsOf d0"
  shows "healthy n (c\<lparr>clDeployments := ds\<rparr>)" and "keeps n c (c\<lparr>clDeployments := ds\<rparr>)"
  using assms by (auto simp: healthy_def keeps_def plainProxy_def selectedNames_def)

lemma jsonList_ports [simp]:
  assumes "ps \<noteq> []"
  shows "jsonList (portsForVillipProxyDeployment ps) = portsForVillipProxyDeployment ps"
    and "jsonList (portsForVillipProxyService l ps) = portsForVillipProxyService l ps"
proof -
  obtain q qs where "sortedPortsOfVillipProxy ps = q # qs"
    using ports.order_length [of ps] assms by (cases "sortedPortsOfVillipProxy ps") auto
  then show "jsonList (portsForVillipProxyDeployment ps) = portsForVillipProxyDeployment ps"
    and "jsonList (portsForVillipProxyService l ps) = portsForVillipProxyService l ps"
    by (simp_all add: portsForVillipProxyDeployment_eq portsForVillipProxyService_eq)
qed

lemma workloadPhase_aligned_deployment:
  assumes "findObj deploymentMeta n (clDeployments c) = Some d"
    and "deploymentReplicas (deploymentSpec d) = Some (specSize (proxySpec p))"
    and "rulesetsAligned c p d"
  shows "workloadPhase l c n p \<in> {Unserved, Misported, Aligned}"
  using assms by (simp add: workloadPhase_def split: option.splits)

lemma rulesetsAligned_update [simp]:
  "rulesetsAligned (c\<lparr>clDeployments := ds\<rparr>) p d = rulesetsAligned c p d"
  "rulesetsAligned (c\<lparr>clServices := ss\<rparr>) p d = rulesetsAligned c p d"
  by (simp_all add: rulesetsAligned_def selectedNames_def cong: option.case_cong)

lemma run_deploymentForVillipProxy:
  assumes "libLaws l" and "clFaults c = []"
  obtains ref ls where "run_state (deploymentForVillipProxy (storeReconciler pol l) p) c =
    (Value (Inr ((deploymentObject l p ls (map mountFor (selectedNames c p)) (map volumeFor (selectedNames c p))
        [confAnnotation \<mapsto> joinStrings '','' (sortStrings (selectedNames c p))])
      \<lparr>deploymentMeta := emptyMeta\<lparr>metaName := metaName (proxyMeta p),
         metaNamespace := metaNamespace (proxyMeta p), metaLabels := ls,
         metaAnnotations := [confAnnotation \<mapsto> joinStrings '','' (sortStrings (selectedNames c p))],
         metaOwnerReferences := [ref]\<rparr>\<rparr>)), c)"
    and "labelsForVillipProxy p = Value ls"
    and "setControllerReference l (ProxyOwner p) (deploymentMeta (deploymentObject l p ls
        (map mountFor (selectedNames c p)) (map volumeFor (selectedNames c p))
        [confAnnotation \<mapsto> joinStrings '','' (sortStrings (selectedNames c p))])) =
      Inr (emptyMeta\<lparr>metaName := metaName (proxyMeta p),
         metaNamespace := metaNamespace (proxyMeta p), metaLabels := ls,
         metaAnnotations := [confAnnotation \<mapsto> joinStrings '','' (sortStrings (selectedNames c p))],
         metaOwnerReferences := [ref]\<rparr>)"
proof -
  obtain ls where ls: "labelsForVillipProxy p = Value ls" using labels_value [of p] by blast
  let ?m = "emptyMeta\<lparr>metaName := metaName (proxyMeta p), metaNamespace := metaNamespace (proxyMeta p),
    metaLabels := ls, metaAnnotations := [confAnnotation \<mapsto> joinStrings '','' (sortStrings (selectedNames c p))]\<rparr>"
  obtain ref where "setControllerReference l (ProxyOwner p) ?m = Inr (?m\<lparr>metaOwnerReferences := [ref]\<rparr>)"
    by (rule libLaws_owner [OF assms(1), of ?m "ProxyOwner p"]) (simp_all add: emptyMeta_def ownerMeta_def)
  then show thesis
    by (intro that [of ref ls])
       (simp add: deploymentForVillipProxy_def ls run_simps store_calls(1)
          run_mountsForVillipProxy [OF assms(2)] Let_def deploymentObject_def,
        simp_all add: ls deploymentObject_def)
qed


lemma pass_Undeployed:
  assumes "libLaws l" and "obliging pol l n" and "healthy n c" and "proxyPhase l c n = Undeployed"
  shows "\<exists>c'. passTo pol l n c requeueMinute c'"
proof -
  obtain p where p: "findObj proxyMeta n (clProxies c) = Some p" "plainProxy c p" "guarded p"
    and nofault: "clFaults c = []" and ph: "workloadPhase l c n p = Undeployed"
    using workloadE [OF assms(3)] assms(4) by (metis insertI1 workloadPhases_def)
  have none: "findObj deploymentMeta n (clDeployments c) = None"
    using ph by (auto simp: workloadPhase_def split: option.splits if_splits)
  have key: "keyOf (proxyMeta p) = n" using p(1) by (rule findObj_key)
  obtain d m ls where built: "run_state (deploymentForVillipProxy (storeReconciler pol l) p) c = (Value (Inr d), c)"
    and d: "d = (deploymentObject l p ls (map mountFor (selectedNames c p)) (map volumeFor (selectedNames c p))
        [confAnnotation \<mapsto> joinStrings '','' (sortStrings (selectedNames c p))])\<lparr>deploymentMeta := m\<rparr>"
    and m: "metaDeletionTimestamp m = None" "keyOf m = keyOf (proxyMeta p)"
      "metaAnnotations m = [confAnnotation \<mapsto> joinStrings '','' (sortStrings (selectedNames c p))]"
    and ls: "labelsForVillipProxy p = Value ls"
    and ref: "setControllerReference l (ProxyOwner p) (deploymentMeta (deploymentObject l p ls
        (map mountFor (selectedNames c p)) (map volumeFor (selectedNames c p))
        [confAnnotation \<mapsto> joinStrings '','' (sortStrings (selectedNames c p))])) = Inr m"
    by (rule run_deploymentForVillipProxy [OF assms(1) nofault, of pol p])
       (auto simp: emptyMeta_def keyOf_def)
  let ?d = "encodeDeployment d"
  let ?c' = "c\<lparr>clDeployments := clDeployments c @ [?d]\<rparr>"
  have laws: "valueLaws l" and admits: "admitsValid pol n" using assms(2) by (simp_all add: obliging_def)
  have plain: "plainDeployment ?d"
    unfolding plain_encodeDeployment(2) d by (rule plain_deploymentObject [OF assms(1) laws p(2) ls ref])
  have mt: "deploymentMeta ?d = m" "deploymentMeta d = m" by (simp_all add: d)
  have admit: "admitDeployment pol ?d = None"
    using admits plain by (simp add: admitsValid_def plainDeployment_def mt m key)
  have run: "run_state (reconcileProxy (storeReconciler pol l) n) c = (Value (requeueMinute, None), ?c')"
    by (simp add: run_guarded [OF assms(1) nofault p(1,3)] reconcileProxyDeployment_def key run_simps
        store_runs nofault none createDeployment_def built storeCreateDeployment_def mt m(2) admit Let_def)
  have f: "findObj deploymentMeta n (clDeployments c @ [?d]) = Some ?d"
    by (simp add: findObj_snoc none mt m(2) key)
  have hk: "healthy n ?c'" "keeps n c ?c'"
    by (rule deployment_write [OF assms(3) f plain]; simp add: mt m(1) none)+
  have "builtFor l ?c' p ?d"
    using p(2) ls
    by (simp add: builtFor_def mt m(3) d encodeDeployment_def deploymentObject_def villipContainer_def Let_def
        selectedNames_def plainProxy_def soundProxy_def jsonList_ports)
  then have built': "asBuilt l n ?c'" using f p(1) by (simp add: asBuilt_def)
  have "workloadPhase l ?c' n p \<in> {Unserved, Misported, Aligned}"
  proof (rule workloadPhase_aligned_deployment)
    show "findObj deploymentMeta n (clDeployments ?c') = Some ?d" using f by simp
    show "deploymentReplicas (deploymentSpec ?d) = Some (specSize (proxySpec p))"
      by (simp add: d encodeDeployment_def deploymentObject_def Let_def)
    show "rulesetsAligned ?c' p ?d" by (simp add: rulesetsAligned_def mt m(3) selectedNames_def)
  qed
  moreover have "proxyPhase l ?c' n = workloadPhase l ?c' n p"
    by (rule proxyPhase_guarded) (use p in simp_all)
  ultimately show ?thesis using run hk built' by (auto simp: passTo_def assms(4))
qed


text \<open>Passes that update the Deployment found.\<close>

lemma deployment_update:
  assumes "obliging pol l n" and "healthy n c"
    and "findObj proxyMeta n (clProxies c) = Some p" and "guarded p"
    and "findObj deploymentMeta n (clDeployments c) = Some d"
    and "keyOf (deploymentMeta d') = keyOf (deploymentMeta d)"
    and "metaResourceVersion (deploymentMeta d') = metaResourceVersion (deploymentMeta d)"
    and "plainDeployment d'" and "podsOf d' = podsOf d"
  obtains new c' where
    "\<And>req. run_state (deploymentUpdate (storeReconciler pol l) req p d') c = ((None, p, new), c')"
    and "c' = c\<lparr>clDeployments := replaceObj deploymentMeta new (clDeployments c)\<rparr>"
    and "healthy n c'" and "keeps n c c'" and "proxyPhase l c' n = workloadPhase l c' n p"
    and "findObj deploymentMeta n (clDeployments c') = Some new"
    and "deploymentSpec new = deploymentSpec (encodeDeployment d')"
    and "metaAnnotations (deploymentMeta new) = metaAnnotations (deploymentMeta d')"
proof -
  let ?new = "(encodeDeployment d')\<lparr>deploymentMeta := nextVersion (deploymentMeta d) (deploymentMeta d')\<rparr>"
  let ?ds = "replaceObj deploymentMeta ?new (clDeployments c)"
  have nofault: "clFaults c = []" and del: "metaDeletionTimestamp (deploymentMeta d) = None"
    using assms(2,5) by (auto simp: healthy_def)
  have key: "keyOf (deploymentMeta d) = n" using assms(5) by (rule findObj_key)
  have f: "findObj deploymentMeta n ?ds = Some ?new"
    by (rule findObj_replaceObj_Some [OF assms(5)]) (simp add: assms(6) key)
  show thesis
  proof (rule that [of ?new "c\<lparr>clDeployments := ?ds\<rparr>"])
    show "run_state (deploymentUpdate (storeReconciler pol l) req p d') c =
        ((None, p, ?new), c\<lparr>clDeployments := ?ds\<rparr>)" for req
      by (rule run_deploymentUpdate [OF nofault assms(5) del]) (simp_all add: assms key)
    show "healthy n (c\<lparr>clDeployments := ?ds\<rparr>)" "keeps n c (c\<lparr>clDeployments := ?ds\<rparr>)"
      by (rule deployment_write [OF assms(2) f]; simp add: assms(5,8,9); simp add: nextVersion_def del)+
    show "proxyPhase l (c\<lparr>clDeployments := ?ds\<rparr>) n = workloadPhase l (c\<lparr>clDeployments := ?ds\<rparr>) n p"
      by (rule proxyPhase_guarded) (use assms in simp_all)
  qed (use f in \<open>simp_all add: nextVersion_def\<close>)
qed

lemma healthy_deployment:
  assumes "healthy n c" and "findObj deploymentMeta n (clDeployments c) = Some d"
  obtains r k where "deploymentReplicas (deploymentSpec d) = Some r"
    and "podContainers (templateSpec (deploymentSpec d)) = [k]"
    and "plainDeployment d"
  using assms by (force simp: healthy_def plainDeployment_def validDeployment_def)

lemma encode_spec [simp]:
  "deploymentReplicas (deploymentSpec (encodeDeployment d)) = deploymentReplicas (deploymentSpec d)"
  by (simp add: encodeDeployment_def Let_def)

lemma pass_Missized:
  assumes "libLaws l" and "obliging pol l n" and "healthy n c" and "proxyPhase l c n = Missized"
  shows "\<exists>c'. passTo pol l n c requeueMinute c'"
proof -
  obtain p where p: "findObj proxyMeta n (clProxies c) = Some p" "plainProxy c p" "guarded p"
    and nofault: "clFaults c = []" and ph: "workloadPhase l c n p = Missized"
    using workloadE [OF assms(3)] assms(4) by (metis insertI1 insertI2 workloadPhases_def)
  obtain d where d: "findObj deploymentMeta n (clDeployments c) = Some d"
    and size: "deploymentReplicas (deploymentSpec d) \<noteq> Some (specSize (proxySpec p))"
    using ph by (auto simp: workloadPhase_def split: option.splits if_splits)
  obtain r k where rep: "deploymentReplicas (deploymentSpec d) = Some r" and plain: "plainDeployment d"
    by (rule healthy_deployment [OF assms(3) d])
  have pl: "plainDeployment (setReplicas (specSize (proxySpec p)) d)"
    using plain plainProxyD(8) [OF p(2)] by (simp add: plain_setReplicas)
  obtain new c' where u: "\<And>req. run_state (deploymentUpdate (storeReconciler pol l) req p
        (setReplicas (specSize (proxySpec p)) d)) c = ((None, p, new), c')"
    and hk: "healthy n c'" "keeps n c c'" and ph': "proxyPhase l c' n = workloadPhase l c' n p"
    and f: "findObj deploymentMeta n (clDeployments c') = Some new"
    and s: "deploymentSpec new = deploymentSpec (encodeDeployment (setReplicas (specSize (proxySpec p)) d))"
    by (rule deployment_update [OF assms(2,3) p(1,3) d _ _ pl]) (use that in auto)
  have run: "run_state (reconcileProxy (storeReconciler pol l) n) c = (Value (requeueMinute, None), c')"
    using size rep
    by (simp add: run_guarded [OF assms(1) nofault p(1,3)] reconcileProxyDeployment_def
        findObj_key [OF p(1)] run_simps store_runs nofault d u Let_def)
  have "deploymentReplicas (deploymentSpec new) = Some (specSize (proxySpec p))" by (simp add: s)
  then have "workloadPhase l c' n p \<in> {Remounting, Unserved, Misported, Aligned}"
    using f by (simp add: workloadPhase_def split: option.splits)
  moreover have "\<not> asBuilt l n c"
    using builtFor_aligned(1) p(1) d size by (auto simp: asBuilt_def)
  ultimately show ?thesis using run hk ph' by (auto simp: passTo_def assms(4))
qed

lemma pass_Remounting:
  assumes "libLaws l" and "obliging pol l n" and "healthy n c" and "proxyPhase l c n = Remounting"
  shows "\<exists>c'. passTo pol l n c requeueMinute c'"
proof -
  obtain p where p: "findObj proxyMeta n (clProxies c) = Some p" "plainProxy c p" "guarded p"
    and nofault: "clFaults c = []" and ph: "workloadPhase l c n p = Remounting"
    using workloadE [OF assms(3)] assms(4) by (metis insertI1 insertI2 workloadPhases_def)
  obtain d where d: "findObj deploymentMeta n (clDeployments c) = Some d"
    and size: "deploymentReplicas (deploymentSpec d) = Some (specSize (proxySpec p))"
    and chg: "\<not> rulesetsAligned c p d"
    using ph by (auto simp: workloadPhase_def split: option.splits if_splits)
  obtain r k where k: "podContainers (templateSpec (deploymentSpec d)) = [k]" and plain: "plainDeployment d"
    by (rule healthy_deployment [OF assms(3) d])
  let ?ann = "[confAnnotation \<mapsto> joinStrings '','' (sortStrings (selectedNames c p))]"
  let ?d = "setMounts (map mountFor (selectedNames c p)) (map volumeFor (selectedNames c p)) ?ann d"
  have pl: "plainDeployment ?d"
    by (rule plain_setMounts [OF plain plainProxyD(4) [OF p(2)]])
  obtain new c' where u: "\<And>req. run_state (deploymentUpdate (storeReconciler pol l) req p ?d) c = ((None, p, new), c')"
    and c': "c' = c\<lparr>clDeployments := replaceObj deploymentMeta new (clDeployments c)\<rparr>"
    and hk: "healthy n c'" "keeps n c c'" and ph': "proxyPhase l c' n = workloadPhase l c' n p"
    and f: "findObj deploymentMeta n (clDeployments c') = Some new"
    and s: "deploymentSpec new = deploymentSpec (encodeDeployment ?d)"
    and ann: "metaAnnotations (deploymentMeta new) = ?ann"
    by (rule deployment_update [OF assms(2,3) p(1,3) d _ _ pl]) (use that in auto)
  have run: "run_state (reconcileProxy (storeReconciler pol l) n) c = (Value (requeueMinute, None), c')"
    using size chg k
    by (simp add: run_guarded [OF assms(1) nofault p(1,3)] reconcileProxyDeployment_def
        findObj_key [OF p(1)] run_simps store_runs nofault d u Let_def reconcileProxyRulesets_def
        run_isRulesetsChanged run_mountsForVillipProxy)
  have "workloadPhase l c' n p \<in> {Unserved, Misported, Aligned}"
  proof (rule workloadPhase_aligned_deployment [OF f])
    show "deploymentReplicas (deploymentSpec new) = Some (specSize (proxySpec p))" by (simp add: s size)
    show "rulesetsAligned c' p new" by (simp add: rulesetsAligned_def ann c' selectedNames_def)
  qed
  moreover have "\<not> asBuilt l n c"
    using builtFor_aligned(2) p(1) d chg by (auto simp: asBuilt_def)
  ultimately show ?thesis using run hk ph' by (auto simp: passTo_def assms(4))
qed


text \<open>Passes that write the Service.\<close>

lemma service_write:
  assumes "healthy n c" and "findObj serviceMeta n ss = Some s"
    and "validService s" and "metaDeletionTimestamp (serviceMeta s) = None"
  shows "healthy n (c\<lparr>clServices := ss\<rparr>)" and "keeps n c (c\<lparr>clServices := ss\<rparr>)"
  using assms by (auto simp: healthy_def keeps_def plainProxy_def selectedNames_def)

lemma serviceForVillipProxy_value:
  assumes "libLaws l"
  obtains ref where "serviceForVillipProxy (storeReconciler pol l) p =
    Inr ((serviceObject l p)\<lparr>serviceMeta := (serviceMeta (serviceObject l p))\<lparr>metaOwnerReferences := [ref]\<rparr>\<rparr>)"
proof -
  obtain ref where "setControllerReference l (ProxyOwner p) (serviceMeta (serviceObject l p)) =
      Inr ((serviceMeta (serviceObject l p))\<lparr>metaOwnerReferences := [ref]\<rparr>)"
    by (rule libLaws_owner [OF assms, of "serviceMeta (serviceObject l p)" "ProxyOwner p"])
       (simp_all add: serviceObject_def emptyMeta_def ownerMeta_def)
  then show thesis
    by (intro that [of ref]) (simp add: serviceForVillipProxy_def store_calls(1) Let_def)
qed

lemma workloadPhase_service:
  assumes "findObj deploymentMeta n (clDeployments c) = Some d"
    and "deploymentReplicas (deploymentSpec d) = Some (specSize (proxySpec p))" and "rulesetsAligned c p d"
    and "findObj serviceMeta n (clServices c) = Some s"
  shows "workloadPhase l c n p = (if portsAligned l p d s then Aligned else Misported)"
  using assms by (simp add: workloadPhase_def)

lemma run_to_service:
  assumes "libLaws l" and "clFaults c = []" and "findObj proxyMeta n (clProxies c) = Some p" and "guarded p"
    and "findObj deploymentMeta n (clDeployments c) = Some d"
    and "deploymentReplicas (deploymentSpec d) = Some (specSize (proxySpec p))" and "rulesetsAligned c p d"
  shows "run_state (reconcileProxy (storeReconciler pol l) n) c =
    run_state (reconcileProxyService (storeReconciler pol l) n p d) c"
  using assms
  by (simp add: run_guarded [OF assms(1-4)] reconcileProxyDeployment_def findObj_key [OF assms(3)]
      run_simps store_calls run_serve reconcileProxyRulesets_def run_isRulesetsChanged Let_def)

lemma pass_Unserved:
  assumes "libLaws l" and "obliging pol l n" and "healthy n c" and "proxyPhase l c n = Unserved"
  shows "\<exists>c'. passTo pol l n c requeueMinute c'"
proof -
  obtain p where p: "findObj proxyMeta n (clProxies c) = Some p" "plainProxy c p" "guarded p"
    and nofault: "clFaults c = []" and ph: "workloadPhase l c n p = Unserved"
    using workloadE [OF assms(3)] assms(4) by (metis insertI1 insertI2 workloadPhases_def)
  obtain d where d: "findObj deploymentMeta n (clDeployments c) = Some d"
      "deploymentReplicas (deploymentSpec d) = Some (specSize (proxySpec p))" "rulesetsAligned c p d"
    and none: "findObj serviceMeta n (clServices c) = None"
    using ph by (auto simp: workloadPhase_def split: option.splits if_splits)
  have key: "keyOf (proxyMeta p) = n" using p(1) by (rule findObj_key)
  obtain s m where built: "serviceForVillipProxy (storeReconciler pol l) p = Inr s"
    and s: "s = (serviceObject l p)\<lparr>serviceMeta := m\<rparr>"
    and m: "metaDeletionTimestamp m = None" "keyOf m = n"
    by (rule serviceForVillipProxy_value [OF assms(1), of pol p])
       (auto simp: serviceObject_def emptyMeta_def keyOf_def key [unfolded keyOf_def])
  let ?s = "encodeService s"
  let ?c' = "c\<lparr>clServices := clServices c @ [?s]\<rparr>"
  have ports: "servicePorts (serviceSpec ?s) = portsForVillipProxyService l (specPorts (proxySpec p))"
    using plainProxyD(5) [OF p(2)] by (simp add: s encodeService_def serviceObject_def)
  have laws: "valueLaws l" and admits: "admitsValid pol n" using assms(2) by (simp_all add: obliging_def)
  have plain: "validService ?s"
    using validService_built [OF assms(1) laws plainProxyD(2) [OF p(2)] built] by (simp add: store_calls(1))
  have mt: "serviceMeta ?s = m" "serviceMeta s = m" by (simp_all add: s)
  have admit: "admitService pol ?s = None" using admits plain by (simp add: admitsValid_def mt m)
  have run: "run_state (reconcileProxy (storeReconciler pol l) n) c = (Value (requeueMinute, None), ?c')"
    by (simp add: run_to_service [OF assms(1) nofault p(1,3) d] reconcileProxyService_def key run_simps
        store_runs nofault none createService_def built storeCreateService_def mt m(2) admit Let_def)
  have f: "findObj serviceMeta n (clServices c @ [?s]) = Some ?s"
    by (simp add: findObj_snoc none mt m(2))
  have hk: "healthy n ?c'" "keeps n c ?c'"
    by (rule service_write [OF assms(3) f plain]; simp add: mt m(1))+
  have "workloadPhase l ?c' n p \<in> {Misported, Aligned}"
    using workloadPhase_service [of n ?c' d p ?s l] d f by simp
  moreover have "proxyPhase l ?c' n = workloadPhase l ?c' n p"
    by (rule proxyPhase_guarded) (use p in simp_all)
  moreover have "asBuilt l n c \<longrightarrow> asBuilt l n ?c'" by (simp add: asBuilt_services)
  ultimately show ?thesis using run hk by (auto simp: passTo_def assms(4))
qed

lemma service_update:
  assumes "obliging pol l n" and "healthy n c" and "findObj serviceMeta n (clServices c) = Some s"
    and "keyOf (serviceMeta s') = keyOf (serviceMeta s)"
    and "metaResourceVersion (serviceMeta s') = metaResourceVersion (serviceMeta s)"
    and "validService s'"
  obtains new where
    "\<And>req p. run_state (serviceUpdate (storeReconciler pol l) req p s') c =
       ((None, p, new), c\<lparr>clServices := replaceObj serviceMeta new (clServices c)\<rparr>)"
    and "healthy n (c\<lparr>clServices := replaceObj serviceMeta new (clServices c)\<rparr>)"
    and "keeps n c (c\<lparr>clServices := replaceObj serviceMeta new (clServices c)\<rparr>)"
    and "findObj serviceMeta n (replaceObj serviceMeta new (clServices c)) = Some new"
    and "serviceSpec new = serviceSpec (encodeService s')"
proof -
  let ?new = "(encodeService s')\<lparr>serviceMeta := nextVersion (serviceMeta s) (serviceMeta s')\<rparr>"
  have nofault: "clFaults c = []" and del: "metaDeletionTimestamp (serviceMeta s) = None"
    using assms(2,3) by (auto simp: healthy_def)
  have key: "keyOf (serviceMeta s) = n" using assms(3) by (rule findObj_key)
  have f: "findObj serviceMeta n (replaceObj serviceMeta ?new (clServices c)) = Some ?new"
    by (rule findObj_replaceObj_Some [OF assms(3)]) (simp add: assms(4) key)
  show thesis
  proof (rule that [of ?new])
    show "run_state (serviceUpdate (storeReconciler pol l) req p s') c =
       ((None, p, ?new), c\<lparr>clServices := replaceObj serviceMeta ?new (clServices c)\<rparr>)" for req p
      by (rule run_serviceUpdate [OF nofault assms(3) del]) (simp_all add: assms key)
    show "healthy n (c\<lparr>clServices := replaceObj serviceMeta ?new (clServices c)\<rparr>)"
      "keeps n c (c\<lparr>clServices := replaceObj serviceMeta ?new (clServices c)\<rparr>)"
      by (rule service_write [OF assms(2) f]; simp add: assms(6); simp add: nextVersion_def del)+
  qed (use f in simp_all)
qed


lemma rulesetsAligned_cong:
  assumes "clConfigMaps c' = clConfigMaps c"
    and "metaAnnotations (deploymentMeta d') = metaAnnotations (deploymentMeta d)"
  shows "rulesetsAligned c' p d' = rulesetsAligned c p d"
  using assms(2) by (simp add: rulesetsAligned_def selectedNames_cong [OF assms(1) refl refl]
      cong: option.case_cong)

lemma encode_setFirstPorts:
  assumes "podContainers (templateSpec (deploymentSpec d)) = [k]"
    and "deploymentSpec new =
      deploymentSpec (encodeDeployment (setFirstContainer (\<lambda>c. c\<lparr>containerPorts := ps\<rparr>) d))"
    and "jsonList ps = ps"
  shows "map containerPorts (take 1 (podContainers (templateSpec (deploymentSpec new)))) = [ps]"
    and "deploymentReplicas (deploymentSpec new) = deploymentReplicas (deploymentSpec d)"
  using assms by (simp_all add: encodeDeployment_def setFirstContainer_def Let_def)

text \<open>The first half of \<open>managePortChange\<close>.\<close>

lemma realign_deployment:
  assumes "obliging pol l n" and "healthy n c"
    and "findObj proxyMeta n (clProxies c) = Some p" and "plainProxy c p" and "guarded p"
    and "findObj deploymentMeta n (clDeployments c) = Some d"
    and "deploymentReplicas (deploymentSpec d) = Some (specSize (proxySpec p))" and "rulesetsAligned c p d"
    and "podContainers (templateSpec (deploymentSpec d)) = [k]"
  defines "ps \<equiv> portsForVillipProxyDeployment (specPorts (proxySpec p))"
  obtains c1 d1 where
    "run_state (if ps \<noteq> containerPorts k then do {
        (e, p', _) \<leftarrow> deploymentUpdate (storeReconciler pol l) n p
          (setFirstContainer (\<lambda>c. c\<lparr>containerPorts := ps\<rparr>) d);
        ret (e, p')
      } else ret (None, p)) c = ((None, p), c1)"
    and "healthy n c1" and "keeps n c c1" and "findObj proxyMeta n (clProxies c1) = Some p"
    and "clServices c1 = clServices c"
    and "findObj deploymentMeta n (clDeployments c1) = Some d1"
    and "deploymentReplicas (deploymentSpec d1) = Some (specSize (proxySpec p))"
    and "rulesetsAligned c1 p d1"
    and "map containerPorts (take 1 (podContainers (templateSpec (deploymentSpec d1)))) = [ps]"
    and "asBuilt l n c \<longrightarrow> asBuilt l n c1"
proof (cases "ps = containerPorts k")
  case True
  then show thesis by (intro that [of c d]) (use assms in simp_all)
next
  case False
  let ?d = "setFirstContainer (\<lambda>c. c\<lparr>containerPorts := ps\<rparr>) d"
  have json: "jsonList ps = ps" using plainProxyD(5) [OF assms(4)] by (simp add: ps_def)
  have plain: "plainDeployment d" using assms(2,6) by (simp add: healthy_def)
  have pl: "plainDeployment ?d"
    by (rule plain_setFirstPorts [OF plain])
       (use plainProxyD(6,7) [OF assms(4)] in \<open>simp add: ps_def validPorts_deployment\<close>)
  obtain new c' where u: "\<And>req. run_state (deploymentUpdate (storeReconciler pol l) req p ?d) c = ((None, p, new), c')"
    and c': "c' = c\<lparr>clDeployments := replaceObj deploymentMeta new (clDeployments c)\<rparr>"
    and hk: "healthy n c'" "keeps n c c'"
    and f: "findObj deploymentMeta n (clDeployments c') = Some new"
    and s: "deploymentSpec new = deploymentSpec (encodeDeployment ?d)"
    and ann: "metaAnnotations (deploymentMeta new) = metaAnnotations (deploymentMeta ?d)"
    by (rule deployment_update [OF assms(1,2,3,5,6) _ _ pl]) (use that in auto)
  show thesis
  proof (rule that [of c' new])
    show "rulesetsAligned c' p new"
    proof -
      have "rulesetsAligned c' p new = rulesetsAligned c p d"
        by (rule rulesetsAligned_cong) (simp_all add: c' ann [unfolded c'] ann)
      with assms(8) show ?thesis by simp
    qed
    show "deploymentReplicas (deploymentSpec new) = Some (specSize (proxySpec p))"
      using encode_setFirstPorts(2) [OF assms(9) s json] assms(7) by simp
    show "map containerPorts (take 1 (podContainers (templateSpec (deploymentSpec new)))) = [ps]"
      by (rule encode_setFirstPorts(1) [OF assms(9) s json])
    show "asBuilt l n c \<longrightarrow> asBuilt l n c'"
    proof
      assume "asBuilt l n c"
      then have "builtFor l c p d" using assms(3,6) by (simp add: asBuilt_def)
      from builtFor_aligned(3) [OF this] False show "asBuilt l n c'" by (simp add: assms(9) ps_def)
    qed
  qed (use False u hk f assms(3) in \<open>simp_all add: c' run_simps\<close>)
qed

lemma pass_Misported:
  assumes "libLaws l" and "obliging pol l n" and "healthy n c" and "proxyPhase l c n = Misported"
  shows "\<exists>c'. passTo pol l n c requeueMinute c'"
proof -
  obtain p where p: "findObj proxyMeta n (clProxies c) = Some p" "plainProxy c p" "guarded p"
    and nofault: "clFaults c = []" and ph: "workloadPhase l c n p = Misported"
    using workloadE [OF assms(3)] assms(4) by (metis insertI1 insertI2 workloadPhases_def)
  obtain d s where d: "findObj deploymentMeta n (clDeployments c) = Some d"
      "deploymentReplicas (deploymentSpec d) = Some (specSize (proxySpec p))" "rulesetsAligned c p d"
    and s: "findObj serviceMeta n (clServices c) = Some s" and mis: "\<not> portsAligned l p d s"
    using ph by (auto simp: workloadPhase_def split: option.splits if_splits)
  obtain r k where k: "podContainers (templateSpec (deploymentSpec d)) = [k]"
    by (rule healthy_deployment [OF assms(3) d(1)])
  let ?dp = "portsForVillipProxyDeployment (specPorts (proxySpec p))"
  let ?sp = "portsForVillipProxyService l (specPorts (proxySpec p))"
  have some: "?dp \<noteq> containerPorts k \<or> ?sp \<noteq> servicePorts (serviceSpec s)"
    using mis k by (auto simp: portsAligned_def)
  obtain c1 d1 where u1: "run_state (if ?dp \<noteq> containerPorts k then do {
        (e, p', _) \<leftarrow> deploymentUpdate (storeReconciler pol l) n p
          (setFirstContainer (\<lambda>c. c\<lparr>containerPorts := ?dp\<rparr>) d);
        ret (e, p')
      } else ret (None, p)) c = ((None, p), c1)"
    and hk1: "healthy n c1" "keeps n c c1" and p1: "findObj proxyMeta n (clProxies c1) = Some p"
    and sv1: "clServices c1 = clServices c"
    and d1: "findObj deploymentMeta n (clDeployments c1) = Some d1"
      "deploymentReplicas (deploymentSpec d1) = Some (specSize (proxySpec p))" "rulesetsAligned c1 p d1"
      "map containerPorts (take 1 (podContainers (templateSpec (deploymentSpec d1)))) = [?dp]"
    and b1: "asBuilt l n c \<longrightarrow> asBuilt l n c1"
    by (rule realign_deployment [OF assms(2,3) p d k]) (use that in auto)
  have s1: "findObj serviceMeta n (clServices c1) = Some s" using s sv1 by simp
  let ?s = "setServicePorts ?sp s"
  have pl: "validService ?s"
  proof (rule validService_ports)
    show "valueLaws l" using assms(2) by (simp add: obliging_def)
    show "servicePorts (serviceSpec ?s) = portsForVillipProxyService l (specPorts (proxySpec p))" by simp
    have "validService s" using hk1(1) s1 by (simp add: healthy_def)
    then show "validMeta serviceName (serviceMeta ?s)" "validLabels (serviceSelector (serviceSpec ?s))"
      by (simp_all add: validService_def Let_def) (simp add: setServicePorts_def)
  qed (use plainProxyD [OF p(2)] in simp_all)
  obtain new where u2: "\<And>req q. run_state (serviceUpdate (storeReconciler pol l) req q ?s) c1 =
       ((None, q, new), c1\<lparr>clServices := replaceObj serviceMeta new (clServices c1)\<rparr>)"
    and hk2: "healthy n (c1\<lparr>clServices := replaceObj serviceMeta new (clServices c1)\<rparr>)"
       "keeps n c1 (c1\<lparr>clServices := replaceObj serviceMeta new (clServices c1)\<rparr>)"
    and f2: "findObj serviceMeta n (replaceObj serviceMeta new (clServices c1)) = Some new"
    and sp2: "serviceSpec new = serviceSpec (encodeService ?s)"
    by (rule service_update [OF assms(2) hk1(1) s1 _ _ pl]) (use that in auto)
  let ?c' = "if ?sp \<noteq> servicePorts (serviceSpec s)
    then c1\<lparr>clServices := replaceObj serviceMeta new (clServices c1)\<rparr> else c1"
  have run: "run_state (reconcileProxy (storeReconciler pol l) n) c = (Value (requeueMinute, None), ?c')"
    using some u1 k
    by (auto simp: run_to_service [OF assms(1) nofault p(1,3) d] reconcileProxyService_def
        findObj_key [OF p(1)] run_simps store_calls run_serve nofault s managePortChange_def Let_def u2)
  have sp: "servicePorts (serviceSpec new) = ?sp"
    using plainProxyD(5) [OF p(2)] by (simp add: sp2 encodeService_def setServicePorts_def)
  have "workloadPhase l ?c' n p = Aligned"
    using workloadPhase_service [of n "c1\<lparr>clServices := replaceObj serviceMeta new (clServices c1)\<rparr>" d1 p new l]
      workloadPhase_service [of n c1 d1 p s l] d1 s1 f2 sp
    by (simp add: portsAligned_def)
  moreover have "proxyPhase l ?c' n = workloadPhase l ?c' n p"
    by (rule proxyPhase_guarded) (use p p1 in simp_all)
  ultimately have ph': "proxyPhase l ?c' n = Aligned" by simp
  have h: "healthy n ?c'" using hk1 hk2 by simp
  have kp: "keeps n c ?c'" using hk1(2) keeps_trans [OF hk1(2) hk2(2)] by simp
  have b: "asBuilt l n c \<longrightarrow> asBuilt l n ?c'"
    using b1 asBuilt_services by simp
  have "phaseStep (proxyPhase l c n) (proxyPhase l ?c' n)" unfolding ph' assms(4) by (rule realign)
  with run h kp b show ?thesis unfolding passTo_def by blast
qed


definition availableNow :: "lib \<Rightarrow> cluster \<Rightarrow> namespacedName \<Rightarrow> bool" where
  "availableNow l c n \<longleftrightarrow>
     (\<exists>p av. findObj proxyMeta n (clProxies c) = Some p \<and>
        conditionOf typeAvailableVillipProxy (proxyConditions (proxyStatus p)) = Some av \<and>
        sameVerdict av (proxyAvailable p (specSize (proxySpec p))))"

lemma pass_Aligned:
  assumes "libLaws l" and "healthy n c" and "proxyPhase l c n = Aligned"
  shows "\<exists>c' p t. passTo pol l n c noRequeue c' \<and> availableNow l c' n \<and>
    clDeployments c' = clDeployments c \<and> clServices c' = clServices c \<and>
    findObj proxyMeta n (clProxies c) = Some p \<and>
    clProxies c' = replaceObj proxyMeta
      (withProxyCondition l t (proxyAvailable p (specSize (proxySpec p))) p) (clProxies c)"
proof -
  obtain p where p: "findObj proxyMeta n (clProxies c) = Some p" "plainProxy c p" "guarded p"
    and nofault: "clFaults c = []" and ph: "workloadPhase l c n p = Aligned"
    using workloadE [OF assms(2)] assms(3) by (metis insertI1 insertI2 workloadPhases_def)
  obtain d s where d: "findObj deploymentMeta n (clDeployments c) = Some d"
      "deploymentReplicas (deploymentSpec d) = Some (specSize (proxySpec p))" "rulesetsAligned c p d"
    and s: "findObj serviceMeta n (clServices c) = Some s" and al: "portsAligned l p d s"
    using ph by (auto simp: workloadPhase_def split: option.splits if_splits)
  obtain r k where k: "podContainers (templateSpec (deploymentSpec d)) = [k]"
    by (rule healthy_deployment [OF assms(2) d(1)])
  have del: "metaDeletionTimestamp (proxyMeta p) = None" using p(2) by (simp add: plainProxy_def)
  let ?av = "proxyAvailable p (specSize (proxySpec p))"
  let ?p' = "withProxyCondition l (clockTime pol (clClock c)) ?av p"
  let ?c' = "c\<lparr>clClock := Suc (clClock c), clProxies := replaceObj proxyMeta ?p' (clProxies c)\<rparr>"
  have run: "run_state (reconcileProxy (storeReconciler pol l) n) c = (Value (noRequeue, None), ?c')"
    using al k
    by (simp add: run_to_service [OF assms(1) nofault p(1,3) d] reconcileProxyService_def
        findObj_key [OF p(1)] run_simps store_calls run_serve nofault s managePortChange_def Let_def
        portsAligned_def run_setProxyStatus [OF nofault p(1) not_finalized [OF del]])
  note w = proxy_write [OF assms(2) p(1), of ?c' ?p']
  have h: "healthy n ?c'" and kp: "keeps n c ?c'" and f: "findObj proxyMeta n (clProxies ?c') = Some ?p'"
    and ph': "workloadPhase l ?c' n ?p' = workloadPhase l c n p" and b: "asBuilt l n c \<Longrightarrow> asBuilt l n ?c'"
    by (rule w; simp add: nofault findObj_key [OF p(1)])+
  have "guarded ?p'" using p(3) by (simp add: guarded_def libLaws_set_nonempty [OF assms(1)])
  then have al': "proxyPhase l ?c' n = Aligned" using proxyPhase_guarded [OF f] ph ph' by simp
  have ty: "conditionType ?av = typeAvailableVillipProxy"
    by (simp add: proxyAvailable_def mkCondition_def)
  obtain av where "conditionOf (conditionType ?av) (setStatusConditionAt l (clockTime pol (clClock c)) (proxyConditions (proxyStatus p)) ?av)
      = Some av" "sameVerdict av ?av"
    by (rule libLaws_set_same [OF assms(1)])
  moreover have "proxyAvailable ?p' (specSize (proxySpec ?p')) = ?av" by (simp add: proxyAvailable_def)
  ultimately have "availableNow l ?c' n" using f ty by (auto simp: availableNow_def)
  then show ?thesis
    using run h kp b al' p(1)
    by (intro exI [of _ ?c'] exI [of _ p] exI [of _ "clockTime pol (clClock c)"]) (simp add: passTo_def assms(3))
qed

section \<open>The control loop\<close>

lemma healthy_phases:
  assumes "healthy n c"
  shows "proxyPhase l c n \<noteq> Absent" and "proxyPhase l c n \<noteq> Deleting"
proof -
  obtain p where "findObj proxyMeta n (clProxies c) = Some p" "plainProxy c p"
    using assms by (auto simp: healthy_def)
  then have "proxyPhase l c n \<in> {Unstatused, Unguarded, workloadPhase l c n p}"
    by (simp add: proxyPhase_def plainProxy_def)
  moreover have "workloadPhase l c n p \<notin> {Absent, Deleting}"
    using workloadPhase_in [of l c n p] by (auto simp: workloadPhases_def)
  ultimately show "proxyPhase l c n \<noteq> Absent" and "proxyPhase l c n \<noteq> Deleting" by auto
qed

lemma one_pass_result:
  assumes "libLaws l" and "obliging pol l n" and "healthy n c"
  shows "\<exists>res c'. passTo pol l n c res c' \<and> (res = noRequeue \<longleftrightarrow> proxyPhase l c n = Aligned)"
  using healthy_phases [OF assms(3), of l] pass_Unstatused [OF assms(1,3), of pol]
    pass_Unguarded [OF assms(1,3), of pol] pass_Undeployed [OF assms] pass_Missized [OF assms]
    pass_Remounting [OF assms] pass_Unserved [OF assms] pass_Misported [OF assms]
    pass_Aligned [OF assms(1,3), of pol]
  by (cases "proxyPhase l c n") (simp_all; use requeueMinute_noRequeue in blast)+

lemma workload_aligned:
  assumes "healthy n c" and "proxyPhase l c n = Aligned"
  shows "\<exists>p d s. findObj proxyMeta n (clProxies c) = Some p \<and>
    findObj deploymentMeta n (clDeployments c) = Some d \<and>
    findObj serviceMeta n (clServices c) = Some s \<and>
    deploymentReplicas (deploymentSpec d) = Some (specSize (proxySpec p)) \<and>
    rulesetsAligned c p d \<and> portsAligned l p d s"
proof -
  obtain p where "findObj proxyMeta n (clProxies c) = Some p" and "workloadPhase l c n p = Aligned"
    using workloadE [OF assms(1)] assms(2) by (metis insertI1 insertI2 workloadPhases_def)
  then show ?thesis by (auto simp: workloadPhase_def split: option.splits if_splits)
qed

text \<open>The same, with what a Deployment that was there, or was not, has become.\<close>

lemma workload_aligned_as:
  assumes "healthy n c'" and "proxyPhase l c' n = Aligned" and "keeps n c c'"
    and "asBuilt l n c \<Longrightarrow> asBuilt l n c'"
  shows "\<exists>p d s. findObj proxyMeta n (clProxies c') = Some p \<and>
    findObj deploymentMeta n (clDeployments c') = Some d \<and>
    findObj serviceMeta n (clServices c') = Some s \<and>
    deploymentReplicas (deploymentSpec d) = Some (specSize (proxySpec p)) \<and>
    rulesetsAligned c' p d \<and> portsAligned l p d s \<and>
    (case findObj deploymentMeta n (clDeployments c) of
       None \<Rightarrow> builtFor l c' p d
     | Some d0 \<Rightarrow> podsOf d = podsOf d0)"
proof -
  obtain p d s where at: "findObj proxyMeta n (clProxies c') = Some p"
    "findObj deploymentMeta n (clDeployments c') = Some d" "findObj serviceMeta n (clServices c') = Some s"
    and al: "deploymentReplicas (deploymentSpec d) = Some (specSize (proxySpec p))" "rulesetsAligned c' p d"
      "portsAligned l p d s"
    using workload_aligned [OF assms(1,2)] by blast
  have "builtFor l c' p d" if "findObj deploymentMeta n (clDeployments c) = None"
    using assms(4) at that by (simp add: asBuilt_def)
  moreover have "podsOf d = podsOf d0" if "findObj deploymentMeta n (clDeployments c) = Some d0" for d0
    using assms(3) at(2) that by (auto simp: keeps_def)
  ultimately show ?thesis
    using at al by (auto split: option.split)
qed

lemma one_pass:
  assumes "libLaws l" and "obliging pol l n" and "healthy n c"
  shows "\<exists>res c'. passTo pol l n c res c' \<and>
    (proxyPhase l c n = Aligned \<longrightarrow> res = noRequeue \<and> availableNow l c' n)"
  using healthy_phases [OF assms(3), of l] pass_Unstatused [OF assms(1,3), of pol]
    pass_Unguarded [OF assms(1,3), of pol] pass_Undeployed [OF assms] pass_Missized [OF assms]
    pass_Remounting [OF assms] pass_Unserved [OF assms] pass_Misported [OF assms]
    pass_Aligned [OF assms(1,3), of pol]
  by (cases "proxyPhase l c n") (simp_all; blast)+

primrec proxyPasses :: "'w reconciler \<Rightarrow> namespacedName \<Rightarrow> nat \<Rightarrow> 'w \<Rightarrow> 'w" where
  "proxyPasses r n 0 w = w"
| "proxyPasses r n (Suc k) w = snd (run_state (reconcileProxy r n) (proxyPasses r n k w))"

lemma proxyPasses_transfer:
  assumes "behavesLike \<alpha> pol r"
  shows "\<alpha> (proxyPasses r n k w) = proxyPasses (storeReconciler pol (lib r)) n k (\<alpha> w)"
  using simulates_run [OF transfer_reconcileProxy [OF assms]] by (induction k) simp_all

text \<open>One pass on the reference server.\<close>

definition proxyPassOn :: "policy \<Rightarrow> lib \<Rightarrow> namespacedName \<Rightarrow> cluster \<Rightarrow> cluster" where
  "proxyPassOn pol l n c = snd (run_state (reconcileProxy (storeReconciler pol l) n) c)"

lemma proxyPasses_funpow: "proxyPasses (storeReconciler pol l) n k c = (proxyPassOn pol l n ^^ k) c"
  by (induction k) (simp_all add: proxyPassOn_def)

lemma proxyPassOn_step:
  assumes "libLaws l" and "obliging pol l n" and "healthy n c"
  shows "healthy n (proxyPassOn pol l n c)" and "keeps n c (proxyPassOn pol l n c)"
    and "asBuilt l n c \<Longrightarrow> asBuilt l n (proxyPassOn pol l n c)"
    and "phaseStep (proxyPhase l c n) (proxyPhase l (proxyPassOn pol l n c) n)"
  using one_pass [OF assms] by (auto simp: passTo_def proxyPassOn_def)

interpretation proxyLoop: ranked_loop "proxyPassOn pol l n"
    "\<lambda>c. libLaws l \<and> obliging pol l n \<and> healthy n c"
    "\<lambda>c c'. keeps n c c' \<and> (asBuilt l n c \<longrightarrow> asBuilt l n c')"
    "\<lambda>c. rank (proxyPhase l c n)" "\<lambda>c. proxyPhase l c n = Aligned" for pol l n
proof
  fix c
  assume c: "libLaws l \<and> obliging pol l n \<and> healthy n c"
  then have step: "phaseStep (proxyPhase l c n) (proxyPhase l (proxyPassOn pol l n c) n)"
    using proxyPassOn_step by blast
  show "libLaws l \<and> obliging pol l n \<and> healthy n (proxyPassOn pol l n c)"
    and "keeps n c (proxyPassOn pol l n c) \<and> (asBuilt l n c \<longrightarrow> asBuilt l n (proxyPassOn pol l n c))"
    using c proxyPassOn_step by blast+
  show "proxyPhase l c n = Aligned \<Longrightarrow> proxyPhase l (proxyPassOn pol l n c) n = Aligned"
    using step by simp
  show "proxyPhase l c n \<noteq> Aligned \<Longrightarrow> rank (proxyPhase l (proxyPassOn pol l n c) n) < rank (proxyPhase l c n)"
    using step c healthy_phases(1) by (intro phaseStep_rank) auto
qed (use keeps_trans in auto)

lemma proxyPasses_inv:
  assumes "libLaws l" and "obliging pol l n" and "healthy n c"
  shows "healthy n (proxyPasses (storeReconciler pol l) n k c)"
    and "keeps n c (proxyPasses (storeReconciler pol l) n k c)"
    and "asBuilt l n c \<Longrightarrow> asBuilt l n (proxyPasses (storeReconciler pol l) n k c)"
  using proxyLoop.passes_inv [of l pol n c k] assms by (simp_all add: proxyPasses_funpow)

lemma aligned_after_7:
  assumes "libLaws l" and "obliging pol l n" and "healthy n c" and "7 \<le> k"
  shows "proxyPhase l (proxyPasses (storeReconciler pol l) n k c) n = Aligned"
proof -
  have "rank q \<le> 7" for q by (cases q) simp_all
  then have "rank (proxyPhase l c n) \<le> k" using assms(4) order_trans by blast
  with assms(1-3) show ?thesis by (simp add: proxyPasses_funpow proxyLoop.settles)
qed

end
