(* ===== verification/Example_Cluster.thy ===== *)
theory Example_Cluster
  imports Store_Run Examples
begin

text \<open>
  A concrete cluster for the witnesses: the proxy and the rule of \<open>Examples\<close> on the
  reference server, with helpers that satisfy \<open>libLaws\<close> and a policy that admits all.
\<close>

lemma setConditionList_same:
  "\<exists>d. conditionOf (conditionType c) (setConditionList t cs c) = Some d \<and> sameVerdict d c"
  by (induction cs) (auto simp: conditionOf_def sameVerdict_def)

lemma setConditionList_other:
  "u \<noteq> conditionType c \<Longrightarrow> conditionOf u (setConditionList t cs c) = conditionOf u cs"
  by (induction cs) (auto simp: conditionOf_def)

lemma exampleLib_laws: "libLaws exampleLib"
  unfolding libLaws_def
proof (intro conjI)
  show "setStatusConditionLaw exampleLib"
    using setConditionList_same setConditionList_other
    by (simp add: setStatusConditionLaw_def exampleLib_def)
  show "finalizerLaws exampleLib" by (simp add: finalizerLaws_def exampleLib_def)
  show "controllerReferenceLaws exampleLib"
    by (auto simp: controllerReferenceLaws_def exampleLib_def exampleOwner_def ownerKindOf_def
        ownerMeta_def split: controllerOwner.splits)
qed

definition examplePolicy :: policy where
  "examplePolicy =
     \<lparr>admitDeployment = (\<lambda>d. None), admitService = (\<lambda>s. None), selectDeployment = (\<lambda>sel d. True),
      failureText = (\<lambda>f kind n. kind @ '' '' @ nnName n), clockTime = int, clockString = (\<lambda>i. itoa (int i))\<rparr>"

definition exampleKey :: "string \<Rightarrow> namespacedName" where
  "exampleKey n = \<lparr>nnNamespace = ''default'', nnName = n\<rparr>"

definition exampleConfigMap :: configMap where
  "exampleConfigMap =
     \<lparr>configMapMeta = (exampleMeta ''tcpexample'')
        \<lparr>metaLabels := [''ruleset'' \<mapsto> ''villiptests'', ''basedon'' \<mapsto> ''port'']\<rparr>,
      configMapData = Map.empty\<rparr>"

definition exampleCluster :: cluster where
  "exampleCluster =
     \<lparr>clProxies = [exampleProxy], clRules = [exampleRule], clDeployments = [], clServices = [],
      clConfigMaps = [exampleConfigMap], clFaults = [], clClock = 0, clEvents = []\<rparr>"

abbreviation exampleReconciler :: "cluster reconciler" where
  "exampleReconciler \<equiv> storeReconciler examplePolicy exampleLib"

lemma example_findProxy:
  "findObj proxyMeta (exampleKey ''villip'') (clProxies exampleCluster) = Some exampleProxy"
  by (simp add: findObj_def exampleCluster_def example_simps exampleKey_def keyOf_def)

lemma example_findRule:
  "findObj rulesMeta (exampleKey ''tcpexample'') (clRules exampleCluster) = Some exampleRule"
  by (simp add: findObj_def exampleCluster_def example_simps exampleKey_def keyOf_def)

lemma example_selectedNames: "selectedNames exampleCluster exampleProxy = [''tcpexample'']"
proof -
  have "[''ruleset'' \<mapsto> ''villiptests'', ''basedon'' \<mapsto> ''port''] \<subseteq>\<^sub>m
      [''ruleset'' \<mapsto> ''villiptests'', ''basedon'' \<mapsto> ''port'']" by simp
  moreover have "\<not> [''ruleset'' \<mapsto> ''villiptests'', ''basedon'' \<mapsto> ''priority''] \<subseteq>\<^sub>m
      [''ruleset'' \<mapsto> ''villiptests'', ''basedon'' \<mapsto> ''port'']" by (simp add: map_le_def)
  ultimately show ?thesis
    by (simp add: selectedNames_def selectConfigMaps_def exampleCluster_def example_simps
        exampleConfigMap_def)
qed

end
