(* ===== verification/Proxy_Loop.thy ===== *)
theory Proxy_Loop
  imports Proxy_Convergence Example_Cluster
begin

text \<open>
  The properties of the proxy reconciler as a control loop, for every client that behaves like
  the reference server.
\<close>

section \<open>A server that validates\<close>

text \<open>The example policy with admission by the documented rules: what is not valid is refused.\<close>

definition strictPolicy :: policy where
  "strictPolicy = examplePolicy
     \<lparr>admitDeployment := (\<lambda>d. if validDeployment d then None
        else Some (errInvalid examplePolicy ''Deployment'' (keyOf (deploymentMeta d)))),
      admitService := (\<lambda>s. if validService s then None
        else Some (errInvalid examplePolicy ''Service'' (keyOf (serviceMeta s))))\<rparr>"

abbreviation strictReconciler :: "cluster reconciler" where
  "strictReconciler \<equiv> storeReconciler strictPolicy exampleLib"

lemma strict_admits: "admitsValid strictPolicy n"
  by (simp add: admitsValid_def strictPolicy_def)

lemma example_admits: "admitsValid examplePolicy n"
  by (simp add: admitsValid_def examplePolicy_def)

lemma exampleLib_values: "valueLaws exampleLib"
  by (simp add: valueLaws_def exampleLib_def)

lemma example_obliging:
  "obliging strictPolicy exampleLib n" "obliging examplePolicy exampleLib n"
  by (simp_all add: obliging_def exampleLib_values strict_admits example_admits)

lemma example_sound: "soundProxy exampleProxy"
proof -
  have "serviceName ''villip''" "dnsLabel ''default''" by (simp_all add: serviceName_def name_defs)
  moreover have "validImage ''marema31/villip:latest''" by (simp add: validImage_def visible_def)
  ultimately show ?thesis
    by (simp add: soundProxy_def imageForVillipProxy_def example_simps validLabels_def)
qed

lemma example_labelled: "versionLabelled exampleProxy"
proof -
  have "labelValue ''latest''" by (simp add: name_defs)
  then show ?thesis by (simp add: versionLabelled_def versionOf_def imageForVillipProxy_def example_simps)
qed

lemma example_names: "soundNames [''tcpexample'']"
  by (simp add: soundNames_def sortStrings_def name_defs)

lemma example_healthy: "healthy (exampleKey ''villip'') exampleCluster"
proof -
  have "metaDeletionTimestamp (proxyMeta exampleProxy) = None" by (simp add: example_simps)
  then have "plainProxy exampleCluster exampleProxy"
    by (simp add: plainProxy_def example_sound example_labelled example_selectedNames example_names)
  moreover have "findObj deploymentMeta n (clDeployments exampleCluster) = None"
      "findObj serviceMeta n (clServices exampleCluster) = None" for n
    by (simp_all add: exampleCluster_def findObj_def)
  ultimately show ?thesis by (simp add: healthy_def example_findProxy) (simp add: exampleCluster_def)
qed

section \<open>The loop\<close>

text \<open>C2: every pass over a healthy proxy is a step of the phase machine.  On a server that admits
  what is valid, and in a cluster where no request fails, the proxy can be built validly and its
  Deployment and Service, if they exist, are valid (\<open>healthy\<close>), a pass returns without
  error and without panic, keeps the cluster healthy, leaves the spec and the labels of the proxy,
  the ConfigMaps and the image, environment and selector of an existing Deployment alone, and
  moves to a phase that \<open>phaseStep\<close> allows; a pass in phase \<open>Aligned\<close> is the only one that
  does not ask to be run again.\<close>

theorem proxy_pass_refines_phases:
  assumes "behavesLike \<alpha> pol r" and "libLaws (lib r)" and "valueLaws (lib r)" and "admitsValid pol n"
    and "healthy n (\<alpha> w)"
  shows "\<exists>res w'. run_state (reconcileProxy r n) w = (Value (res, None), w') \<and>
    phaseStep (proxyPhase (lib r) (\<alpha> w) n) (proxyPhase (lib r) (\<alpha> w') n) \<and>
    healthy n (\<alpha> w') \<and> keeps n (\<alpha> w) (\<alpha> w') \<and>
    (res = noRequeue \<longleftrightarrow> proxyPhase (lib r) (\<alpha> w) n = Aligned)"
proof -
  have "obliging pol (lib r) n" using assms(3,4) by (simp add: obliging_def)
  then obtain res c' where st: "passTo pol (lib r) n (\<alpha> w) res c'"
    and res: "res = noRequeue \<longleftrightarrow> proxyPhase (lib r) (\<alpha> w) n = Aligned"
    using one_pass_result [OF assms(2) _ assms(5)] by blast
  obtain w' where "run_state (reconcileProxy r n) w = (Value (res, None), w')" "\<alpha> w' = c'"
    using simulates_run [OF transfer_reconcileProxy [OF assms(1)], of n w] st
    by (cases "run_state (reconcileProxy r n) w") (simp add: passTo_def)
  with st res show ?thesis by (auto simp: passTo_def)
qed

lemma proxy_pass_refines_phases_witness:
  "phaseStep (proxyPhase exampleLib exampleCluster (exampleKey ''villip''))
     (proxyPhase exampleLib
       (snd (run_state (reconcileProxy strictReconciler (exampleKey ''villip'')) exampleCluster))
       (exampleKey ''villip''))"
  using proxy_pass_refines_phases [OF behavesLike_store [of strictPolicy exampleLib], of "exampleKey ''villip''" exampleCluster]
    exampleLib_laws exampleLib_values strict_admits example_healthy
  by (auto simp: store_calls(1))

text \<open>C1: the loop converges, on a server that admits what is valid.  From any healthy cluster, after
  eight passes and for ever after, the Deployment and the Service exist, the Deployment has
  \<open>spec.size\<close> replicas, both expose the ports of the proxy, the annotation with the mounted
  ConfigMaps, when there is one, lists those the rulesets select, the condition \<open>Available\<close> is
  true with the code's message, and a pass asks for nothing more.  If there was no Deployment,
  the one there is now is exactly the one the code builds for the proxy: its image, environment,
  labels, volumes, mounts and annotation.  If there was one, it keeps its selector, its labels
  and all of its container but ports and mounts, whatever the spec says: a later change of the
  image, the target or the debug flag is not acted upon.\<close>

theorem proxy_converges:
  assumes "behavesLike \<alpha> pol r" and "libLaws (lib r)" and "valueLaws (lib r)" and "admitsValid pol n"
    and "healthy n (\<alpha> w)" and "8 \<le> k"
  shows "let c = \<alpha> (proxyPasses r n k w) in
    (\<exists>p d s. findObj proxyMeta n (clProxies c) = Some p \<and>
       findObj deploymentMeta n (clDeployments c) = Some d \<and>
       findObj serviceMeta n (clServices c) = Some s \<and>
       deploymentReplicas (deploymentSpec d) = Some (specSize (proxySpec p)) \<and>
       rulesetsAligned c p d \<and> portsAligned (lib r) p d s \<and>
       (case findObj deploymentMeta n (clDeployments (\<alpha> w)) of
          None \<Rightarrow> builtFor (lib r) c p d
        | Some d0 \<Rightarrow> podsOf d = podsOf d0)) \<and>
    availableNow (lib r) c n \<and> keeps n (\<alpha> w) c \<and>
    fst (run_state (reconcileProxy r n) (proxyPasses r n k w)) = Value (noRequeue, None)"
proof -
  let ?s = "storeReconciler pol (lib r)"
  let ?c = "proxyPasses ?s n k (\<alpha> w)"
  have ob: "obliging pol (lib r) n" using assms(3,4) by (simp add: obliging_def)
  obtain j where k: "k = Suc j" "7 \<le> j" using assms(6) by (cases k) auto
  have eq: "\<alpha> (proxyPasses r n k w) = ?c" by (rule proxyPasses_transfer [OF assms(1)])
  have "proxyPhase (lib r) (proxyPasses ?s n j (\<alpha> w)) n = Aligned"
    by (rule aligned_after_7 [OF assms(2) ob assms(5) k(2)])
  then have av: "availableNow (lib r) ?c n"
    using one_pass [OF assms(2) ob, of "proxyPasses ?s n j (\<alpha> w)"]
      proxyPasses_inv(1) [OF assms(2) ob assms(5), of j] k(1)
    by (auto simp: passTo_def)
  have al: "proxyPhase (lib r) ?c n = Aligned"
    using assms(6) by (intro aligned_after_7 [OF assms(2) ob assms(5)]) simp
  note inv = proxyPasses_inv [OF assms(2) ob assms(5), of k]
  have "fst (run_state (reconcileProxy ?s n) ?c) = Value (noRequeue, None)"
    using one_pass [OF assms(2) ob inv(1)] al by (auto simp: passTo_def)
  then have quiet: "fst (run_state (reconcileProxy r n) (proxyPasses r n k w)) = Value (noRequeue, None)"
    using simulates_run [OF transfer_reconcileProxy [OF assms(1)], of n "proxyPasses r n k w"] by (simp add: eq)
  show ?thesis
    using workload_aligned_as [OF inv(1) al inv(2,3)] av inv(2) quiet by (simp add: eq Let_def)
qed

lemma proxy_converges_witness:
  "availableNow exampleLib (proxyPasses strictReconciler (exampleKey ''villip'') 8 exampleCluster)
     (exampleKey ''villip'') \<and>
   (\<exists>d. findObj deploymentMeta (exampleKey ''villip'')
          (clDeployments (proxyPasses strictReconciler (exampleKey ''villip'') 8 exampleCluster)) = Some d \<and>
      map containerMounts (podContainers (templateSpec (deploymentSpec d))) = [[mountFor ''tcpexample'']])"
proof -
  let ?n = "exampleKey ''villip''"
  let ?c = "proxyPasses strictReconciler ?n 8 exampleCluster"
  have none: "findObj deploymentMeta ?n (clDeployments exampleCluster) = None"
    by (simp add: exampleCluster_def findObj_def)
  note res = proxy_converges [OF behavesLike_store [of strictPolicy exampleLib], of ?n exampleCluster 8, unfolded Let_def,
      unfolded store_calls(1), OF exampleLib_laws exampleLib_values strict_admits example_healthy order_refl]
  then obtain p d where p: "findObj proxyMeta ?n (clProxies ?c) = Some p"
    and d: "findObj deploymentMeta ?n (clDeployments ?c) = Some d" "builtFor exampleLib ?c p d"
    unfolding none by auto
  have "keeps ?n exampleCluster ?c" using res by blast
  then have same: "clConfigMaps ?c = clConfigMaps exampleCluster" "proxySpec p = proxySpec exampleProxy"
    using p example_findProxy by (simp_all add: keeps_def)
  have ns: "metaNamespace (proxyMeta p) = metaNamespace (proxyMeta exampleProxy)"
    using findObj_namespace [OF p] findObj_namespace [OF example_findProxy] by simp
  have "selectedNames ?c p = [''tcpexample'']"
    using selectedNames_cong [OF same ns] example_selectedNames by simp
  then have "map containerMounts (podContainers (templateSpec (deploymentSpec d))) = [[mountFor ''tcpexample'']]"
    using builtFor_aligned(4) [OF d(2)] by simp
  moreover have "availableNow exampleLib ?c ?n" using res by (rule conjunct1 [OF conjunct2])
  ultimately show ?thesis using d(1) by (intro conjI exI)
qed

end
