(* ===== verification/Proxy_Witnesses.thy ===== *)
theory Proxy_Witnesses
  imports Proxy_Loop
begin

text \<open>Witnesses of \<open>Proxy_Properties\<close> whose hypotheses are about runs against a server.\<close>

lemma example_nofault [simp]: "clFaults exampleCluster = []"
  by (simp add: exampleCluster_def)

lemma joinStrings_single: "joinStrings sep (sortStrings [x]) = x"
  by (simp add: sortStrings_def)

lemma example_mounts:
  "run_state (mountsForVillipProxy exampleReconciler (specRuleset (proxySpec exampleProxy))
      (metaNamespace (proxyMeta exampleProxy))) exampleCluster =
    (([mountFor ''tcpexample''], [volumeFor ''tcpexample''], [confAnnotation \<mapsto> ''tcpexample''], None),
     exampleCluster)"
  by (simp add: run_mountsForVillipProxy example_selectedNames joinStrings_single)

lemma rulesets_check_agrees_witness:
  "\<forall>ds. run_state (isRulesetsChanged exampleReconciler exampleProxy
      \<lparr>deploymentMeta = emptyMeta\<lparr>metaAnnotations := [confAnnotation \<mapsto> ''other'']\<rparr>,
       deploymentSpec = ds\<rparr>) exampleCluster = ((True, None), exampleCluster)"
  using rulesets_check_agrees [OF example_mounts] by simp

lemma example_built:
  obtains d where "run_state (deploymentForVillipProxy exampleReconciler exampleProxy) exampleCluster =
    (Value (Inr d), exampleCluster)"
  using run_deploymentForVillipProxy [OF exampleLib_laws example_nofault, of examplePolicy exampleProxy]
  by metis

lemma deployment_built_witness:
  "\<exists>d. run_state (deploymentForVillipProxy exampleReconciler exampleProxy) exampleCluster =
      (Value (Inr d), exampleCluster) \<and>
    deploymentReplicas (deploymentSpec d) = Some 2"
proof -
  obtain d where d: "run_state (deploymentForVillipProxy exampleReconciler exampleProxy) exampleCluster =
      (Value (Inr d), exampleCluster)" by (rule example_built)
  from deployment_built [OF d] d show ?thesis by (auto simp: example_simps)
qed

lemma service_selects_pods_iff_witness:
  "\<exists>d s. run_state (deploymentForVillipProxy exampleReconciler exampleProxy) exampleCluster =
      (Value (Inr d), exampleCluster) \<and>
    serviceForVillipProxy exampleReconciler exampleProxy = Inr s \<and>
    \<not> serviceSelector (serviceSpec s) \<subseteq>\<^sub>m metaLabels (templateMeta (deploymentSpec d))"
proof -
  obtain d where d: "run_state (deploymentForVillipProxy exampleReconciler exampleProxy) exampleCluster =
      (Value (Inr d), exampleCluster)" by (rule example_built)
  obtain s where s: "serviceForVillipProxy exampleReconciler exampleProxy = Inr s"
    by (rule serviceForVillipProxy_value [OF exampleLib_laws, of examplePolicy exampleProxy])
  have "metaLabels (proxyMeta exampleProxy) ''villip'' = None" by (simp add: example_simps)
  with service_selects_pods_iff [OF d s] d s show ?thesis by (intro exI conjI; simp)
qed

text \<open>The third list call of the pass fails.\<close>

definition staleDeployment :: deployment where
  "staleDeployment =
     \<lparr>deploymentMeta = (exampleMeta ''villip'')\<lparr>metaAnnotations := [confAnnotation \<mapsto> ''old'']\<rparr>,
      deploymentSpec =
        \<lparr>deploymentReplicas = Some 2, deploymentMatchLabels = Map.empty, templateMeta = emptyMeta,
         templateSpec = \<lparr>podRunAsNonRoot = None, podSeccomp = None, podVolumes = [],
           podContainers = [villipContainer exampleLib exampleProxy []]\<rparr>\<rparr>\<rparr>"

definition flakyCluster :: cluster where
  "flakyCluster = exampleCluster\<lparr>clDeployments := [staleDeployment],
     clFaults := [None, None, Some (errorf ''timeout'')]\<rparr>"

lemma example_rulesets: "specRuleset (proxySpec exampleProxy) =
  [\<lparr>matchLabels = [''ruleset'' \<mapsto> ''villiptests'', ''basedon'' \<mapsto> ''port'']\<rparr>,
   \<lparr>matchLabels = [''ruleset'' \<mapsto> ''villiptests'', ''basedon'' \<mapsto> ''priority'']\<rparr>]"
  by (simp add: example_simps)

lemma flaky_select:
  "map (\<lambda>m. metaName (configMapMeta m)) (selectConfigMaps ''default'' sel (clConfigMaps exampleCluster)) =
     (if sel \<subseteq>\<^sub>m [''ruleset'' \<mapsto> ''villiptests'', ''basedon'' \<mapsto> ''port''] then [''tcpexample''] else [])"
  by (simp add: selectConfigMaps_def exampleCluster_def exampleConfigMap_def example_simps)

lemma flaky_check:
  "run_state (isRulesetsChanged exampleReconciler exampleProxy staleDeployment) flakyCluster =
    ((True, None), flakyCluster\<lparr>clFaults := [Some (errorf ''timeout'')]\<rparr>)"
proof -
  have "\<not> [''ruleset'' \<mapsto> ''villiptests'', ''basedon'' \<mapsto> ''priority''] \<subseteq>\<^sub>m
      [''ruleset'' \<mapsto> ''villiptests'', ''basedon'' \<mapsto> ''port'']" by (simp add: map_le_def)
  moreover have "metaNamespace (proxyMeta exampleProxy) = ''default''" by (simp add: example_simps)
  ultimately show ?thesis
    by (simp add: isRulesetsChanged_def example_rulesets run_simps store_calls serve_def flakyCluster_def
        flaky_select staleDeployment_def joinStrings_single Let_def)
qed

lemma flaky_mounts:
  "run_state (mountsForVillipProxy exampleReconciler (specRuleset (proxySpec exampleProxy))
      (metaNamespace (proxyMeta exampleProxy))) (flakyCluster\<lparr>clFaults := [Some (errorf ''timeout'')]\<rparr>) =
    (([], [], Map.empty, Some (errorf ''timeout'')), flakyCluster\<lparr>clFaults := []\<rparr>)"
  by (simp add: mountsForVillipProxy_def example_rulesets run_simps store_calls serve_def)

lemma flaky_update:
  "\<exists>d' c'. run_state (apiUpdateDeployment exampleReconciler (setMounts [] [] Map.empty staleDeployment))
      (flakyCluster\<lparr>clFaults := []\<rparr>) = (Inr d', c') \<and>
    metaAnnotations (deploymentMeta d') =
      metaAnnotations (deploymentMeta (setMounts [] [] Map.empty staleDeployment))"
  by (simp add: store_calls run_serve storeUpdateDeployment_def flakyCluster_def findObj_def
      staleDeployment_def setMounts_def setFirstContainer_def Let_def keyOf_def updateError_def
      nextVersion_def examplePolicy_def encodeDeployment_def exampleMeta_def emptyMeta_def)

lemma ruleset_failure_is_permanent_witness:
  "fst (run_state (reconcileProxyRulesets exampleReconciler (exampleKey ''villip'') exampleProxy
      staleDeployment) flakyCluster) = Value (requeueMinute, None)"
proof -
  obtain d' c' where u: "run_state (apiUpdateDeployment exampleReconciler
        (setMounts [] [] Map.empty staleDeployment)) (flakyCluster\<lparr>clFaults := []\<rparr>) = (Inr d', c')"
    and ann: "metaAnnotations (deploymentMeta d') =
      metaAnnotations (deploymentMeta (setMounts [] [] Map.empty staleDeployment))"
    using flaky_update by blast
  have ne: "podContainers (templateSpec (deploymentSpec staleDeployment)) \<noteq> []"
    by (simp add: staleDeployment_def)
  from ruleset_failure_is_permanent [OF flaky_check flaky_mounts ne u ann] show ?thesis by simp
qed

text \<open>A client that only hands out well-formed Deployments.\<close>

definition checkedReconciler :: "cluster reconciler" where
  "checkedReconciler = exampleReconciler\<lparr>apiGetDeployment := (\<lambda>n. State (\<lambda>c.
     (case findObj deploymentMeta n (clDeployments c) of
        None \<Rightarrow> Inl (GoError True ''not found'')
      | Some d \<Rightarrow>
          if deploymentReplicas (deploymentSpec d) \<noteq> None \<and> podContainers (templateSpec (deploymentSpec d)) \<noteq> []
          then Inr d else Inl (GoError False ''invalid''), c)))\<rparr>"

lemma proxy_pass_never_panics_witness:
  "fst (run_state (reconcileProxy checkedReconciler (exampleKey ''villip'')) exampleCluster) \<noteq> Panic"
  by (rule proxy_pass_never_panics)
     (simp add: checkedReconciler_def split: option.splits if_splits)

end
