(* ===== verification/Proxy_Deletion.thy ===== *)
theory Proxy_Deletion
  imports Proxy_Loop
begin

text \<open>
  The end of a proxy: what a pass does to a proxy that is being deleted, with and without the
  operator's finalizer.
\<close>

definition deletionEvent :: "namespacedName \<Rightarrow> namespacedName \<times> string \<times> string \<times> string" where
  "deletionEvent n = (n, ''Warning'', ''Deleting'', ''Custom Resource '' @ nnName n @
     '' is being deleted from the namespace '' @ nnNamespace n)"

text \<open>The conditions of the two status writes of the finalization.\<close>

definition finalizing :: "namespacedName \<Rightarrow> condition" where
  "finalizing n = mkCondition typeDegradedVillipProxy ConditionUnknown ''Finalizing''
     (''Performing finalizer operations for the custom resource: '' @ nnName n @ '' '')"

definition finalizedCondition :: "namespacedName \<Rightarrow> condition" where
  "finalizedCondition n = mkCondition typeDegradedVillipProxy ConditionTrue ''Finalizing''
     (''Finalizer operations for custom resource '' @ nnName n @ '' name were successfully accomplished'')"

lemma proxy_names:
  "findObj proxyMeta n xs = Some p \<Longrightarrow>
     metaName (proxyMeta p) = nnName n \<and> metaNamespace (proxyMeta p) = nnNamespace n"
  using findObj_key [of proxyMeta n xs p] by auto

lemma storeUpdateProxy_ok:
  assumes "findObj proxyMeta n (clProxies c) = Some old" and "keyOf (proxyMeta p) = n"
    and "metaResourceVersion (proxyMeta p) = metaResourceVersion (proxyMeta old)"
    and "metaDeletionTimestamp (proxyMeta old) = None \<or>
      set (metaFinalizers (proxyMeta p)) \<subseteq> set (metaFinalizers (proxyMeta old))"
  defines "new \<equiv> p\<lparr>proxyStatus := proxyStatus old, proxyMeta := nextVersion (proxyMeta old) (proxyMeta p)\<rparr>"
  shows "storeUpdateProxy pol (\<lambda>old p. p\<lparr>proxyStatus := proxyStatus old\<rparr>) p c =
    (Inr new, c\<lparr>clProxies := writeObj proxyMeta new (clProxies c)\<rparr>)"
  using assms(3,4) unfolding storeUpdateProxy_def assms(1,2) new_def
  by (auto simp: updateError_def Let_def)

text \<open>An update that only takes finalizers away is accepted.\<close>

lemma run_dropFinalizers:
  assumes "clFaults c = []" and "findObj proxyMeta n (clProxies c) = Some p"
    and "set fs \<subseteq> set (metaFinalizers (proxyMeta p))"
  defines "p' \<equiv> p\<lparr>proxyMeta := bump ((proxyMeta p)\<lparr>metaFinalizers := fs\<rparr>)\<rparr>"
  shows "run_state (apiUpdateProxy (storeReconciler pol l) (p\<lparr>proxyMeta := (proxyMeta p)\<lparr>metaFinalizers := fs\<rparr>\<rparr>)) c =
    (Inr p', c\<lparr>clProxies := writeObj proxyMeta p' (clProxies c)\<rparr>)"
proof -
  let ?q = "p\<lparr>proxyMeta := (proxyMeta p)\<lparr>metaFinalizers := fs\<rparr>\<rparr>"
  have key: "keyOf (proxyMeta ?q) = n" using findObj_key [OF assms(2)] by (simp add: keyOf_def)
  have new: "?q\<lparr>proxyStatus := proxyStatus p, proxyMeta := nextVersion (proxyMeta p) (proxyMeta ?q)\<rparr> = p'"
    by (simp add: p'_def nextVersion_def bump_def)
  have "storeUpdateProxy pol (\<lambda>old p. p\<lparr>proxyStatus := proxyStatus old\<rparr>) ?q c =
      (Inr p', c\<lparr>clProxies := writeObj proxyMeta p' (clProxies c)\<rparr>)"
    using storeUpdateProxy_ok [OF assms(2) key] assms(3) by (simp only: new) simp
  then show ?thesis unfolding store_calls run_serve [OF assms(1)] .
qed

lemma run_proxy_deleting:
  fixes pol :: policy
  assumes "libLaws l" and "clFaults c = []" and "findObj proxyMeta n (clProxies c) = Some p"
    and "proxyConditions (proxyStatus p) \<noteq> []" and "metaDeletionTimestamp (proxyMeta p) \<noteq> None"
    and "villipproxyFinalizer \<in> set (metaFinalizers (proxyMeta p))"
  defines "p1 \<equiv> withProxyCondition l (clockTime pol (clClock c)) (finalizing n) p"
  defines "p2 \<equiv> withProxyCondition l (clockTime pol (Suc (clClock c))) (finalizedCondition n) p1"
  defines "p3 \<equiv> p2\<lparr>proxyMeta := bump ((proxyMeta p2)\<lparr>metaFinalizers :=
      filter (\<lambda>f. f \<noteq> villipproxyFinalizer) (metaFinalizers (proxyMeta p))\<rparr>)\<rparr>"
  shows "run_state (reconcileProxy (storeReconciler pol l) n) c =
    (Value (noRequeue, None),
     c\<lparr>clClock := Suc (Suc (clClock c)), clEvents := clEvents c @ [deletionEvent n],
       clProxies := writeObj proxyMeta p3
         (replaceObj proxyMeta p2 (replaceObj proxyMeta p1 (clProxies c)))\<rparr>)"
proof -
  have key: "keyOf (proxyMeta p) = n" using assms(3) by (rule findObj_key)
  note nm = proxy_names [OF assms(3)]
  have nf: "\<not> finalized (proxyMeta p)" using assms(6) by (auto simp: finalized_def)
  let ?r = "storeReconciler pol l"
  have p1: "proxyMeta p1 = bump (proxyMeta p)" and p2: "proxyMeta p2 = bump (bump (proxyMeta p))"
    by (simp_all add: p1_def p2_def)
  let ?c1 = "c\<lparr>clClock := Suc (clClock c), clProxies := replaceObj proxyMeta p1 (clProxies c)\<rparr>"
  let ?c2 = "?c1\<lparr>clEvents := clEvents c @ [deletionEvent n]\<rparr>"
  let ?c3 = "?c2\<lparr>clClock := Suc (Suc (clClock c)), clProxies := replaceObj proxyMeta p2 (clProxies ?c2)\<rparr>"
  have st1: "run_state (setProxyStatus ?r p (finalizing n)) c = ((None, p1), ?c1)"
    using run_setProxyStatus [OF assms(2,3) nf] by (simp add: p1_def)
  have ev: "run_state (doFinalizerOperationsForVillipProxy ?r p1) ?c1 = ((), ?c2)"
    using nm key by (simp add: doFinalizerOperationsForVillipProxy_def store_calls deletionEvent_def p1)
  have f1: "findObj proxyMeta n (clProxies ?c2) = Some p1"
    using assms(3) key by (simp add: findObj_replaceObj p1)
  have get: "run_state (apiGetProxy ?r n) ?c2 = (Inr p1, ?c2)"
    using f1 by (simp add: store_calls run_serve assms(2) found_def)
  have st2: "run_state (setProxyStatus ?r p1 (finalizedCondition n)) ?c2 = ((None, p2), ?c3)"
    using run_setProxyStatus [OF _ f1, of pol l "finalizedCondition n"] nf by (simp add: p2_def assms(2) p1)
  have f2: "findObj proxyMeta n (clProxies ?c3) = Some p2"
    using assms(3) key by (simp add: findObj_replaceObj p1 p2)
  have fs2: "metaFinalizers (proxyMeta p2) = metaFinalizers (proxyMeta p)" by (simp add: p2)
  let ?fs = "filter (\<lambda>f. f \<noteq> villipproxyFinalizer) (metaFinalizers (proxyMeta p))"
  have upd: "run_state (apiUpdateProxy ?r (p2\<lparr>proxyMeta := (proxyMeta p2)\<lparr>metaFinalizers := ?fs\<rparr>\<rparr>)) ?c3 =
      (Inr p3, ?c3\<lparr>clProxies := writeObj proxyMeta p3 (clProxies ?c3)\<rparr>)"
    unfolding p3_def by (rule run_dropFinalizers [OF _ f2]) (simp_all add: assms(2) fs2)
  have get0: "run_state (apiGetProxy ?r n) c = (Inr p, c)"
    using assms(3) by (simp add: store_calls run_serve assms(2) found_def)
  have fin: "finalizing n = mkCondition typeDegradedVillipProxy ConditionUnknown ''Finalizing''
       (''Performing finalizer operations for the custom resource: '' @ metaName (proxyMeta p) @ '' '')"
    "finalizedCondition n = mkCondition typeDegradedVillipProxy ConditionTrue ''Finalizing''
       (''Finalizer operations for custom resource '' @ metaName (proxyMeta p1) @ '' name were successfully accomplished'')"
    using nm by (simp_all only: finalizing_def finalizedCondition_def p1 bump_sel)
  have "run_state (villipProxyMarkedToBeDeleted ?r p n) c =
      (None, ?c3\<lparr>clProxies := writeObj proxyMeta p3 (clProxies ?c3)\<rparr>)"
    using assms(1,6) unfolding villipProxyMarkedToBeDeleted_def store_calls(1)
    by (simp add: run_simps st1 [unfolded fin] ev get st2 [unfolded fin] upd [simplified] fs2 del: append.simps append_Cons)
  then show ?thesis
    using assms(1,4-6)
    by (simp add: reconcileProxy_def run_simps store_calls(1) get0)
qed

text \<open>What the pass makes of the proxy: gone with the last finalizer, or stored as \<open>p3\<close>.\<close>

lemma proxy_after_deletion:
  fixes pol :: policy
  assumes "libLaws l" and "findObj proxyMeta n (clProxies c) = Some p"
    and "metaDeletionTimestamp (proxyMeta p) \<noteq> None" and "villipproxyFinalizer \<in> set (metaFinalizers (proxyMeta p))"
  defines "p1 \<equiv> withProxyCondition l (clockTime pol (clClock c)) (finalizing n) p"
  defines "p2 \<equiv> withProxyCondition l (clockTime pol (Suc (clClock c))) (finalizedCondition n) p1"
  defines "fs \<equiv> filter (\<lambda>f. f \<noteq> villipproxyFinalizer) (metaFinalizers (proxyMeta p))"
  defines "p3 \<equiv> p2\<lparr>proxyMeta := bump ((proxyMeta p2)\<lparr>metaFinalizers := fs\<rparr>)\<rparr>"
  defines "ys \<equiv> writeObj proxyMeta p3 (replaceObj proxyMeta p2 (replaceObj proxyMeta p1 (clProxies c)))"
  shows "m \<noteq> n \<Longrightarrow> findObj proxyMeta m ys = findObj proxyMeta m (clProxies c)"
    and "findObj proxyMeta n ys = (if set (metaFinalizers (proxyMeta p)) = {villipproxyFinalizer} then None else Some p3)"
    and "metaFinalizers (proxyMeta p3) = fs"
    and "metaDeletionTimestamp (proxyMeta p3) = metaDeletionTimestamp (proxyMeta p)"
    and "\<exists>d. conditionOf typeDegradedVillipProxy (proxyConditions (proxyStatus p3)) = Some d \<and>
      sameVerdict d (finalizedCondition n)"
proof -
  have key: "keyOf (proxyMeta p) = n" using assms(2) by (rule findObj_key)
  have keys: "keyOf (proxyMeta p1) = n" "keyOf (proxyMeta p2) = n" "keyOf (proxyMeta p3) = n"
    using key by (simp_all add: p1_def p2_def p3_def) (simp add: keyOf_def)
  show fin: "metaFinalizers (proxyMeta p3) = fs"
    and del: "metaDeletionTimestamp (proxyMeta p3) = metaDeletionTimestamp (proxyMeta p)"
    by (simp_all add: p1_def p2_def p3_def)
  show "m \<noteq> n \<Longrightarrow> findObj proxyMeta m ys = findObj proxyMeta m (clProxies c)"
    using keys by (simp add: writeObj_def ys_def findObj_removeObj_other findObj_replaceObj split: option.split)
  have "fs = [] \<longleftrightarrow> set (metaFinalizers (proxyMeta p)) = {villipproxyFinalizer}"
    using assms(4) by (auto simp: fs_def filter_empty_conv)
  then have "finalized (proxyMeta p3) \<longleftrightarrow> set (metaFinalizers (proxyMeta p)) = {villipproxyFinalizer}"
    using assms(3) by (simp add: finalized_def fin del)
  then show "findObj proxyMeta n ys = (if set (metaFinalizers (proxyMeta p)) = {villipproxyFinalizer} then None else Some p3)"
    using keys assms(2) by (simp add: ys_def writeObj_def findObj_removeObj findObj_replaceObj)
  have "conditionType (finalizedCondition n) = typeDegradedVillipProxy"
    by (simp add: finalizedCondition_def mkCondition_def)
  moreover obtain d where "conditionOf (conditionType (finalizedCondition n)) (proxyConditions (proxyStatus p2)) = Some d"
      "sameVerdict d (finalizedCondition n)"
    unfolding p2_def withProxyCondition_sel by (rule libLaws_set_same [OF assms(1)])
  ultimately show "\<exists>d. conditionOf typeDegradedVillipProxy (proxyConditions (proxyStatus p3)) = Some d \<and>
      sameVerdict d (finalizedCondition n)"
    by (auto simp: p3_def)
qed

text \<open>The request that takes the finalizer away is the fifth of the pass; here it fails.\<close>

lemma run_setProxyStatus_served:
  assumes "clFaults c = None # fs" and "findObj proxyMeta n (clProxies c) = Some p"
    and "\<not> finalized (proxyMeta p)"
  shows "run_state (setProxyStatus (storeReconciler pol l) p cond) c =
    ((None, withProxyCondition l (clockTime pol (clClock c)) cond p),
     c\<lparr>clFaults := fs, clClock := Suc (clClock c),
       clProxies := replaceObj proxyMeta (withProxyCondition l (clockTime pol (clClock c)) cond p) (clProxies c)\<rparr>)"
proof -
  have k: "findObj proxyMeta (keyOf (proxyMeta p)) (clProxies c) = Some p"
    using assms(2) findObj_key [OF assms(2)] by simp
  show ?thesis
    using assms(1,3)
    by (simp add: setProxyStatus_def setProxyCondition_def run_simps store_calls run_serve_served
        storeUpdateProxy_def k withProxyCondition_def writeObj_def Let_def)
qed

lemma run_proxy_deleting_fails:
  fixes pol :: policy
  assumes "libLaws l" and "clFaults c = [None, None, None, None, Some e]"
    and "findObj proxyMeta n (clProxies c) = Some p"
    and "proxyConditions (proxyStatus p) \<noteq> []" and "metaDeletionTimestamp (proxyMeta p) \<noteq> None"
    and "villipproxyFinalizer \<in> set (metaFinalizers (proxyMeta p))"
  defines "p1 \<equiv> withProxyCondition l (clockTime pol (clClock c)) (finalizing n) p"
  defines "p2 \<equiv> withProxyCondition l (clockTime pol (Suc (clClock c))) (finalizedCondition n) p1"
  shows "run_state (reconcileProxy (storeReconciler pol l) n) c =
    (Value (noRequeue, Some e),
     c\<lparr>clFaults := [], clClock := Suc (Suc (clClock c)), clEvents := clEvents c @ [deletionEvent n],
       clProxies := replaceObj proxyMeta p2 (replaceObj proxyMeta p1 (clProxies c))\<rparr>)"
proof -
  have key: "keyOf (proxyMeta p) = n" using assms(3) by (rule findObj_key)
  note nm = proxy_names [OF assms(3)]
  have nf: "\<not> finalized (proxyMeta p)" using assms(6) by (auto simp: finalized_def)
  let ?r = "storeReconciler pol l"
  have p1: "proxyMeta p1 = bump (proxyMeta p)" and p2: "proxyMeta p2 = bump (bump (proxyMeta p))"
    by (simp_all add: p1_def p2_def)
  define c0 where "c0 = c\<lparr>clFaults := [None, None, None, Some e]\<rparr>"
  define c1 where "c1 = c\<lparr>clFaults := [None, None, Some e], clClock := Suc (clClock c),
    clProxies := replaceObj proxyMeta p1 (clProxies c)\<rparr>"
  define c2 where "c2 = c1\<lparr>clEvents := clEvents c @ [deletionEvent n]\<rparr>"
  define c2' where "c2' = c2\<lparr>clFaults := [None, Some e]\<rparr>"
  define c3 where "c3 = c2\<lparr>clFaults := [Some e], clClock := Suc (Suc (clClock c)),
    clProxies := replaceObj proxyMeta p2 (clProxies c2)\<rparr>"
  have get0: "run_state (apiGetProxy ?r n) c = (Inr p, c0)"
    using assms(3) by (simp add: store_calls run_serve_served assms(2) found_def c0_def)
  have st1: "run_state (setProxyStatus ?r p (finalizing n)) c0 = ((None, p1), c1)"
    using run_setProxyStatus_served [of c0 "[None, None, Some e]" n p pol l "finalizing n"] assms(3) nf
    by (simp add: p1_def c0_def c1_def)
  have ev: "run_state (doFinalizerOperationsForVillipProxy ?r p1) c1 = ((), c2)"
    using nm key by (simp add: doFinalizerOperationsForVillipProxy_def store_calls deletionEvent_def p1 c2_def c1_def)
  have f1: "findObj proxyMeta n (clProxies c2) = Some p1"
    using assms(3) key by (simp add: findObj_replaceObj p1 c2_def c1_def)
  have get: "run_state (apiGetProxy ?r n) c2 = (Inr p1, c2')"
    using f1 by (simp add: store_calls run_serve_served found_def c2'_def c2_def c1_def)
  have st2: "run_state (setProxyStatus ?r p1 (finalizedCondition n)) c2' = ((None, p2), c3)"
    using run_setProxyStatus_served [of c2' "[Some e]" n p1 pol l "finalizedCondition n"] f1 nf
    by (simp add: p2_def p1 c3_def c2'_def c2_def c1_def)
  have fs2: "metaFinalizers (proxyMeta p2) = metaFinalizers (proxyMeta p)" by (simp add: p2)
  have upd: "run_state (apiUpdateProxy ?r q) c3 = (Inl e, c3\<lparr>clFaults := []\<rparr>)" for q
    by (simp add: store_calls run_serve_failed c3_def)
  have fin: "finalizing n = mkCondition typeDegradedVillipProxy ConditionUnknown ''Finalizing''
       (''Performing finalizer operations for the custom resource: '' @ metaName (proxyMeta p) @ '' '')"
    "finalizedCondition n = mkCondition typeDegradedVillipProxy ConditionTrue ''Finalizing''
       (''Finalizer operations for custom resource '' @ metaName (proxyMeta p1) @ '' name were successfully accomplished'')"
    using nm by (simp_all only: finalizing_def finalizedCondition_def p1 bump_sel)
  have "run_state (villipProxyMarkedToBeDeleted ?r p n) c0 = (Some e, c3\<lparr>clFaults := []\<rparr>)"
    using assms(1,6) unfolding villipProxyMarkedToBeDeleted_def store_calls(1)
    by (simp add: run_simps st1 [unfolded fin] ev get st2 [unfolded fin] upd fs2 del: append.simps append_Cons)
  then show ?thesis
    using assms(1,4-6) by (simp add: reconcileProxy_def run_simps store_calls(1) get0)
       (simp add: c3_def c2_def c1_def)
qed

text \<open>What the finalization leaves of a proxy: all but finalizers, version and conditions; of the
  conditions all but \<open>Degraded\<close>.\<close>

definition finalizedFrom :: "namespacedName \<Rightarrow> string list \<Rightarrow> villipProxy \<Rightarrow> villipProxy \<Rightarrow> bool" where
  "finalizedFrom n fs p q \<longleftrightarrow>
     (\<exists>v cs. q = p\<lparr>proxyMeta := (proxyMeta p)\<lparr>metaFinalizers := fs, metaResourceVersion := v\<rparr>,
         proxyStatus := (proxyStatus p)\<lparr>proxyConditions := cs\<rparr>\<rparr> \<and>
       (\<forall>u. u \<noteq> typeDegradedVillipProxy \<longrightarrow> conditionOf u cs = conditionOf u (proxyConditions (proxyStatus p))) \<and>
       (\<exists>d. conditionOf typeDegradedVillipProxy cs = Some d \<and> sameVerdict d (finalizedCondition n)))"

lemma finalizedFrom_writes:
  fixes p :: villipProxy and n :: namespacedName and t1 t2 :: int
  assumes "libLaws l"
  defines "p2 \<equiv> withProxyCondition l t2 (finalizedCondition n) (withProxyCondition l t1 (finalizing n) p)"
  shows "finalizedFrom n (metaFinalizers (proxyMeta p)) p p2"
    and "finalizedFrom n fs p (p2\<lparr>proxyMeta := bump ((proxyMeta p2)\<lparr>metaFinalizers := fs\<rparr>)\<rparr>)"
proof -
  let ?cs1 = "setStatusConditionAt l t1 (proxyConditions (proxyStatus p)) (finalizing n)"
  let ?cs = "setStatusConditionAt l t2 ?cs1 (finalizedCondition n)"
  have ty: "conditionType (finalizing n) = typeDegradedVillipProxy"
      "conditionType (finalizedCondition n) = typeDegradedVillipProxy"
    by (simp_all add: finalizing_def finalizedCondition_def mkCondition_def)
  have other: "\<forall>u. u \<noteq> typeDegradedVillipProxy \<longrightarrow> conditionOf u ?cs = conditionOf u (proxyConditions (proxyStatus p))"
    using libLaws_set_other [OF assms(1)] ty by metis
  have degraded: "\<exists>d. conditionOf typeDegradedVillipProxy ?cs = Some d \<and> sameVerdict d (finalizedCondition n)"
    using libLaws_set_same [OF assms(1), of "finalizedCondition n" t2 ?cs1] ty by metis
  have "p2 = p\<lparr>proxyMeta := (proxyMeta p)\<lparr>metaFinalizers := metaFinalizers (proxyMeta p),
          metaResourceVersion := Suc (Suc (metaResourceVersion (proxyMeta p)))\<rparr>,
        proxyStatus := (proxyStatus p)\<lparr>proxyConditions := ?cs\<rparr>\<rparr>"
    by (simp add: p2_def withProxyCondition_def bump_def)
  with other degraded show "finalizedFrom n (metaFinalizers (proxyMeta p)) p p2"
    unfolding finalizedFrom_def by blast
  have "p2\<lparr>proxyMeta := bump ((proxyMeta p2)\<lparr>metaFinalizers := fs\<rparr>)\<rparr> =
      p\<lparr>proxyMeta := (proxyMeta p)\<lparr>metaFinalizers := fs,
          metaResourceVersion := Suc (Suc (Suc (metaResourceVersion (proxyMeta p))))\<rparr>,
        proxyStatus := (proxyStatus p)\<lparr>proxyConditions := ?cs\<rparr>\<rparr>"
    by (simp add: p2_def withProxyCondition_def bump_def)
  with other degraded show "finalizedFrom n fs p (p2\<lparr>proxyMeta := bump ((proxyMeta p2)\<lparr>metaFinalizers := fs\<rparr>)\<rparr>)"
    unfolding finalizedFrom_def by blast
qed

text \<open>C25: deleting a proxy takes one pass.  A proxy that is being deleted and carries the operator's
  finalizer loses exactly that finalizer, and one event is recorded: the proxy goes away when
  there was no other finalizer; otherwise it stays with the others, the condition \<open>Degraded\<close>
  is true, and its spec, labels, annotations and other conditions are as they were.  Nothing
  else in the cluster changes but the reading of the clock.  The event comes before the removal:
  if the request that removes the finalizer is the one that fails, the pass returns its error,
  the event is there, and the proxy still has all its finalizers.\<close>

theorem proxy_deletion:
  assumes "behavesLike \<alpha> pol r" and "libLaws (lib r)" and "clFaults (\<alpha> w) = []"
    and "findObj proxyMeta n (clProxies (\<alpha> w)) = Some p"
    and "proxyConditions (proxyStatus p) \<noteq> []" and "metaDeletionTimestamp (proxyMeta p) \<noteq> None"
    and "villipproxyFinalizer \<in> set (metaFinalizers (proxyMeta p))"
  shows "(\<exists>w' ps. run_state (reconcileProxy r n) w = (Value (noRequeue, None), w') \<and>
      \<alpha> w' = (\<alpha> w)\<lparr>clClock := clClock (\<alpha> w) + 2, clEvents := clEvents (\<alpha> w) @ [deletionEvent n],
        clProxies := ps\<rparr> \<and>
      (\<forall>m. m \<noteq> n \<longrightarrow> findObj proxyMeta m ps = findObj proxyMeta m (clProxies (\<alpha> w))) \<and>
      (if set (metaFinalizers (proxyMeta p)) = {villipproxyFinalizer} then findObj proxyMeta n ps = None
       else \<exists>q. findObj proxyMeta n ps = Some q \<and>
         finalizedFrom n (filter (\<lambda>f. f \<noteq> villipproxyFinalizer) (metaFinalizers (proxyMeta p))) p q)) \<and>
    (\<forall>v e. \<alpha> v = (\<alpha> w)\<lparr>clFaults := [None, None, None, None, Some e]\<rparr> \<longrightarrow>
      (\<exists>v' q. run_state (reconcileProxy r n) v = (Value (noRequeue, Some e), v') \<and>
        clEvents (\<alpha> v') = clEvents (\<alpha> v) @ [deletionEvent n] \<and>
        findObj proxyMeta n (clProxies (\<alpha> v')) = Some q \<and>
        finalizedFrom n (metaFinalizers (proxyMeta p)) p q))"
proof (intro conjI allI impI)
  let ?s = "storeReconciler pol (lib r)"
  note sim = simulates_run [OF transfer_reconcileProxy [OF assms(1)], of n]
  have key: "keyOf (proxyMeta p) = n" using assms(4) by (rule findObj_key)
  let ?p1 = "withProxyCondition (lib r) (clockTime pol (clClock (\<alpha> w))) (finalizing n) p"
  let ?p2 = "withProxyCondition (lib r) (clockTime pol (Suc (clClock (\<alpha> w)))) (finalizedCondition n) ?p1"
  let ?fs = "filter (\<lambda>f. f \<noteq> villipproxyFinalizer) (metaFinalizers (proxyMeta p))"
  define p3 where "p3 = ?p2\<lparr>proxyMeta := bump ((proxyMeta ?p2)\<lparr>metaFinalizers := ?fs\<rparr>)\<rparr>"
  define ps where
    "ps = writeObj proxyMeta p3 (replaceObj proxyMeta ?p2 (replaceObj proxyMeta ?p1 (clProxies (\<alpha> w))))"
  obtain w' where run: "run_state (reconcileProxy r n) w = (Value (noRequeue, None), w')"
    and w': "\<alpha> w' = (\<alpha> w)\<lparr>clClock := clClock (\<alpha> w) + 2, clEvents := clEvents (\<alpha> w) @ [deletionEvent n],
      clProxies := ps\<rparr>"
    using run_proxy_deleting [OF assms(2-7), of pol] sim [of w]
    by (cases "run_state (reconcileProxy r n) w") (auto simp: ps_def p3_def)
  note after = proxy_after_deletion [OF assms(2,4,6,7), where pol = pol, folded p3_def, folded ps_def]
  have "finalizedFrom n ?fs p p3" unfolding p3_def by (rule finalizedFrom_writes(2) [OF assms(2)])
  with after(2) have "if set (metaFinalizers (proxyMeta p)) = {villipproxyFinalizer} then findObj proxyMeta n ps = None
       else \<exists>q. findObj proxyMeta n ps = Some q \<and> finalizedFrom n ?fs p q" by simp
  with run w' after(1)
  show "\<exists>w' ps. run_state (reconcileProxy r n) w = (Value (noRequeue, None), w') \<and>
      \<alpha> w' = (\<alpha> w)\<lparr>clClock := clClock (\<alpha> w) + 2, clEvents := clEvents (\<alpha> w) @ [deletionEvent n],
        clProxies := ps\<rparr> \<and>
      (\<forall>m. m \<noteq> n \<longrightarrow> findObj proxyMeta m ps = findObj proxyMeta m (clProxies (\<alpha> w))) \<and>
      (if set (metaFinalizers (proxyMeta p)) = {villipproxyFinalizer} then findObj proxyMeta n ps = None
       else \<exists>q. findObj proxyMeta n ps = Some q \<and> finalizedFrom n ?fs p q)"
    by blast
  fix v e
  assume v: "\<alpha> v = (\<alpha> w)\<lparr>clFaults := [None, None, None, None, Some e]\<rparr>"
  have "run_state (reconcileProxy ?s n) (\<alpha> v) = (Value (noRequeue, Some e),
      (\<alpha> v)\<lparr>clFaults := [], clClock := Suc (Suc (clClock (\<alpha> v))), clEvents := clEvents (\<alpha> v) @ [deletionEvent n],
        clProxies := replaceObj proxyMeta ?p2 (replaceObj proxyMeta ?p1 (clProxies (\<alpha> v)))\<rparr>)"
    using run_proxy_deleting_fails [OF assms(2), of "\<alpha> v" e n p pol] assms(4-7) by (simp add: v)
  then obtain v' where run: "run_state (reconcileProxy r n) v = (Value (noRequeue, Some e), v')"
    and v': "clEvents (\<alpha> v') = clEvents (\<alpha> v) @ [deletionEvent n]"
      "clProxies (\<alpha> v') = replaceObj proxyMeta ?p2 (replaceObj proxyMeta ?p1 (clProxies (\<alpha> w)))"
    using sim [of v] by (cases "run_state (reconcileProxy r n) v") (auto simp: v)
  have "findObj proxyMeta n (clProxies (\<alpha> v')) = Some ?p2"
    using assms(4) key by (simp add: v'(2) findObj_replaceObj)
  with run v'(1) finalizedFrom_writes(1) [OF assms(2)]
  show "\<exists>v' q. run_state (reconcileProxy r n) v = (Value (noRequeue, Some e), v') \<and>
      clEvents (\<alpha> v') = clEvents (\<alpha> v) @ [deletionEvent n] \<and>
      findObj proxyMeta n (clProxies (\<alpha> v')) = Some q \<and> finalizedFrom n (metaFinalizers (proxyMeta p)) p q"
    by blast
qed

definition deletedProxy :: "string list \<Rightarrow> villipProxy" where
  "deletedProxy fs = exampleProxy
     \<lparr>proxyMeta := (proxyMeta exampleProxy)\<lparr>metaFinalizers := fs, metaDeletionTimestamp := Some 0\<rparr>,
      proxyStatus := (proxyStatus exampleProxy)\<lparr>proxyConditions :=
        [mkCondition typeAvailableVillipProxy ConditionTrue ''Reconciling'' '''']\<rparr>\<rparr>"

definition deletedCluster :: "string list \<Rightarrow> cluster" where
  "deletedCluster fs = exampleCluster\<lparr>clProxies := [deletedProxy fs]\<rparr>"

lemma deletedProxy_simps:
  "findObj proxyMeta (exampleKey ''villip'') (clProxies (deletedCluster fs)) = Some (deletedProxy fs)"
  "proxyConditions (proxyStatus (deletedProxy fs)) \<noteq> []"
  "metaDeletionTimestamp (proxyMeta (deletedProxy fs)) \<noteq> None"
  "metaFinalizers (proxyMeta (deletedProxy fs)) = fs"
  "clFaults (deletedCluster fs) = []"
  by (simp_all add: deletedProxy_def deletedCluster_def exampleCluster_def example_simps findObj_def
      keyOf_def exampleKey_def)

text \<open>With another finalizer the proxy stays; with the operator's alone it is gone.\<close>

lemma proxy_deletion_witness:
  "findObj proxyMeta (exampleKey ''villip'')
     (clProxies (snd (run_state (reconcileProxy exampleReconciler (exampleKey ''villip''))
        (deletedCluster [villipproxyFinalizer])))) = None \<and>
   (\<exists>q. findObj proxyMeta (exampleKey ''villip'')
     (clProxies (snd (run_state (reconcileProxy exampleReconciler (exampleKey ''villip''))
        (deletedCluster [villipproxyFinalizer, ''other/finalizer''])))) = Some q \<and>
      metaFinalizers (proxyMeta q) = [''other/finalizer''] \<and> proxySpec q = proxySpec exampleProxy)"
proof -
  have other: "''other/finalizer'' \<noteq> villipproxyFinalizer" by (simp add: villipproxyFinalizer_def)
  note pass = proxy_deletion [OF behavesLike_store [of examplePolicy exampleLib], unfolded store_calls(1),
      OF exampleLib_laws deletedProxy_simps(5,1,2,3), THEN conjunct1]
  have spec: "proxySpec (deletedProxy fs) = proxySpec exampleProxy" for fs by (simp add: deletedProxy_def)
  have "villipproxyFinalizer \<in> set (metaFinalizers (proxyMeta (deletedProxy [villipproxyFinalizer])))"
    "villipproxyFinalizer \<in> set (metaFinalizers (proxyMeta (deletedProxy [villipproxyFinalizer, ''other/finalizer''])))"
    by (simp_all add: deletedProxy_simps)
  from pass [OF this(1)] pass [OF this(2)] show ?thesis
    using other by (auto simp: deletedProxy_simps finalizedFrom_def spec)
qed

text \<open>C26: a proxy that is being deleted and no longer carries the operator's finalizer (another
  controller still holds one) makes every further pass fail: the code adds the finalizer
  before it looks at the deletion timestamp, the server refuses new finalizers on an object
  that is being deleted, and the error goes back to the work queue.\<close>

theorem deletion_without_finalizer_fails:
  assumes "behavesLike \<alpha> pol r" and "libLaws (lib r)" and "clFaults (\<alpha> w) = []"
    and "findObj proxyMeta n (clProxies (\<alpha> w)) = Some p"
    and "proxyConditions (proxyStatus p) \<noteq> []" and "metaDeletionTimestamp (proxyMeta p) \<noteq> None"
    and "villipproxyFinalizer \<notin> set (metaFinalizers (proxyMeta p))"
  shows "\<alpha> (proxyPasses r n k w) = \<alpha> w \<and>
    fst (run_state (reconcileProxy r n) (proxyPasses r n k w)) =
      Value (noRequeue, Some (errInvalid pol ''VillipProxy'' n))"
proof -
  let ?r = "storeReconciler pol (lib r)" and ?c = "\<alpha> w"
  have key: "keyOf (proxyMeta p) = n" using assms(4) by (rule findObj_key)
  have get: "run_state (apiGetProxy ?r n) ?c = (Inr p, ?c)"
    using assms(4) by (simp add: store_calls run_serve assms(3) found_def)
  let ?q = "p\<lparr>proxyMeta := (proxyMeta p)\<lparr>metaFinalizers := metaFinalizers (proxyMeta p) @ [villipproxyFinalizer]\<rparr>\<rparr>"
  have kq: "keyOf (proxyMeta ?q) = n" using key by (simp add: keyOf_def)
  have "storeUpdateProxy pol (\<lambda>old p. p\<lparr>proxyStatus := proxyStatus old\<rparr>) ?q ?c =
      (Inl (errInvalid pol ''VillipProxy'' n), ?c)"
    unfolding storeUpdateProxy_def kq assms(4) using assms(6,7) by (simp add: Let_def updateError_def key)
  then have upd: "run_state (apiUpdateProxy ?r ?q) ?c = (Inl (errInvalid pol ''VillipProxy'' n), ?c)"
    by (simp add: store_calls run_serve assms(3))
  have one: "run_state (reconcileProxy ?r n) ?c = (Value (noRequeue, Some (errInvalid pol ''VillipProxy'' n)), ?c)"
    using assms(2,5,7) by (simp add: reconcileProxy_def run_simps store_calls(1) get addProxyFinalizer_def upd)
  have "proxyPasses ?r n k ?c = ?c" for k by (induction k) (simp_all add: one)
  then have eq: "\<alpha> (proxyPasses r n k w) = ?c" by (simp add: proxyPasses_transfer [OF assms(1)])
  then show ?thesis
    using simulates_run [OF transfer_reconcileProxy [OF assms(1)], of n "proxyPasses r n k w"] by (simp add: one)
qed

lemma deletion_without_finalizer_fails_witness:
  "fst (run_state (reconcileProxy exampleReconciler (exampleKey ''villip''))
     (proxyPasses exampleReconciler (exampleKey ''villip'') 3 (deletedCluster [''other/finalizer'']))) =
   Value (noRequeue, Some (errInvalid examplePolicy ''VillipProxy'' (exampleKey ''villip'')))"
proof (rule deletion_without_finalizer_fails [OF behavesLike_store, THEN conjunct2])
  show "findObj proxyMeta (exampleKey ''villip'') (clProxies (deletedCluster [''other/finalizer''])) =
      Some (deletedProxy [''other/finalizer''])"
    by (rule deletedProxy_simps(1))
qed (simp_all add: store_calls(1) exampleLib_laws deletedProxy_simps villipproxyFinalizer_def)

end
