(* ===== verification/Rules_Convergence.thy ===== *)
theory Rules_Convergence
  imports Api_Validation Store_Transfer Ranked_Loop
begin

text \<open>
  The rules reconciler as a control loop against the reference server: the effect of a rollout
  on the Deployments of a namespace, and the phases through which a rule reaches the state in
  which its ConfigMap has the checksum of its rendered spec.
\<close>

section \<open>Rolling out\<close>

text \<open>
  A Deployment in the form the server stores: encoded, valid, not waiting to be removed.
  \<open>reloadable\<close> says of a server that it admits the Deployments that are valid, and that the
  text of the time is short.
\<close>

definition storedDeployment :: "deployment \<Rightarrow> bool" where
  "storedDeployment d \<longleftrightarrow>
     encodeDeployment d = d \<and> validDeployment d \<and> \<not> finalized (deploymentMeta d)"

definition reloadable :: "policy \<Rightarrow> bool" where
  "reloadable pol \<longleftrightarrow>
     (\<forall>d. validDeployment d \<longrightarrow> admitDeployment pol d = None) \<and>
     (\<forall>k. length (clockString pol k) \<le> 1000)"

definition dependsOn :: "string \<Rightarrow> deployment \<Rightarrow> bool" where
  "dependsOn name d \<longleftrightarrow>
     (\<exists>a. metaAnnotations (deploymentMeta d) confAnnotation = Some a \<and> name \<in> set (splitString (CHR '','') a))"

text \<open>What may differ between a Deployment and its rolled out version.\<close>

definition reloaded :: "deployment \<Rightarrow> deployment \<Rightarrow> bool" where
  "reloaded d d' \<longleftrightarrow>
     (\<exists>now v. d' = (setReloadedAt now d)\<lparr>deploymentMeta := (deploymentMeta d)\<lparr>metaResourceVersion := v\<rparr>\<rparr>)"

lemma setReloadedAt_twice:
  "(setReloadedAt now ((setReloadedAt before d)\<lparr>deploymentMeta := m\<rparr>))\<lparr>deploymentMeta := m'\<rparr> =
     (setReloadedAt now d)\<lparr>deploymentMeta := m'\<rparr>"
  by (simp add: setReloadedAt_def)

lemma reloaded_again: "reloaded d d' \<Longrightarrow> reloaded d' d'' \<Longrightarrow> reloaded d d''"
  by (clarsimp simp: reloaded_def setReloadedAt_def) blast

lemma reloaded_key: "reloaded d d' \<Longrightarrow> keyOf (deploymentMeta d') = keyOf (deploymentMeta d)"
  by (auto simp: reloaded_def keyOf_def)

text \<open>What two states of the cluster agree on when only Deployments and the clock moved.\<close>

definition sameButDeployments :: "cluster \<Rightarrow> cluster \<Rightarrow> bool" where
  "sameButDeployments c c' \<longleftrightarrow>
     (\<exists>ds t. c' = c\<lparr>clDeployments := ds, clClock := t\<rparr>)"

lemma sameButDeployments_refl [simp]: "sameButDeployments c c"
  unfolding sameButDeployments_def by (rule exI [of _ "clDeployments c"], rule exI [of _ "clClock c"]) simp

lemma sameButDeployments_trans:
  "sameButDeployments c c1 \<Longrightarrow> sameButDeployments c1 c2 \<Longrightarrow> sameButDeployments c c2"
  by (auto simp: sameButDeployments_def) metis

lemma sameButDeployments_sel:
  assumes "sameButDeployments c c'"
  shows "clFaults c' = clFaults c" "clRules c' = clRules c" "clConfigMaps c' = clConfigMaps c"
    "clProxies c' = clProxies c" "clServices c' = clServices c" "clEvents c' = clEvents c"
  using assms by (auto simp: sameButDeployments_def)

text \<open>Whatever happens, a rollout writes Deployments only and returns nil.\<close>

lemma storeUpdateDeployment_same:
  "sameButDeployments c (snd (storeUpdateDeployment pol d c))"
proof -
  have "sameButDeployments c (c\<lparr>clDeployments := ds\<rparr>)" for ds
    unfolding sameButDeployments_def by (rule exI [of _ ds], rule exI [of _ "clClock c"]) simp
  then show ?thesis
    by (simp add: storeUpdateDeployment_def Let_def split: option.splits)
qed

lemma rolloutNames_same:
  "clFaults c = [] \<Longrightarrow> \<exists>c'. run_state (rolloutNames (storeReconciler pol l) name ns d) c = ((), c') \<and>
     sameButDeployments c c'"
proof (induction ns arbitrary: c d)
  case Nil
  show ?case by simp
next
  case (Cons x ns)
  let ?c1 = "c\<lparr>clClock := Suc (clClock c)\<rparr>"
  obtain res c2 where u: "storeUpdateDeployment pol (setReloadedAt (clockString pol (clClock c)) d) ?c1 = (res, c2)"
    by (cases "storeUpdateDeployment pol (setReloadedAt (clockString pol (clClock c)) d) ?c1")
  have s1: "sameButDeployments c ?c1"
    unfolding sameButDeployments_def by (rule exI [of _ "clDeployments c"]) auto
  have s2: "sameButDeployments c c2"
    using sameButDeployments_trans [OF s1 storeUpdateDeployment_same] u by (metis snd_conv)
  have nf: "clFaults c2 = []" using sameButDeployments_sel(1) [OF s2] Cons.prems by simp
  show ?case
  proof (cases "x = name")
    case True
    show ?thesis
      using Cons.IH [OF nf] sameButDeployments_trans [OF s2]
      by (simp add: True run_simps store_calls run_serve Cons.prems u) (metis (no_types, lifting))
  next
    case False
    then show ?thesis using Cons.IH [OF Cons.prems] by simp
  qed
qed


lemma rolloutDeployments_same:
  "clFaults c = [] \<Longrightarrow> \<exists>c'. run_state (rolloutDeployments (storeReconciler pol l) name ds) c = ((), c') \<and>
     sameButDeployments c c'"
proof (induction ds arbitrary: c)
  case Nil
  show ?case by simp
next
  case (Cons d ds)
  obtain c1 where c1: "run_state (case metaAnnotations (deploymentMeta d) confAnnotation of None \<Rightarrow> ret ()
        | Some dependOn \<Rightarrow> rolloutNames (storeReconciler pol l) name (splitString (CHR '','') dependOn) d) c = ((), c1)"
    and s: "sameButDeployments c c1"
    using rolloutNames_same [OF Cons.prems, of pol l name _ d]
    by (cases "metaAnnotations (deploymentMeta d) confAnnotation") auto
  have "clFaults c1 = []" using sameButDeployments_sel(1) [OF s] Cons.prems by simp
  from Cons.IH [OF this] show ?case
    using sameButDeployments_trans [OF s] c1 by (simp add: run_simps) (metis (no_types, lifting))
qed

lemma rolloutDependentProxies_same:
  assumes "clFaults c = []"
  shows "\<exists>c'. run_state (rolloutDependentProxies (storeReconciler pol l) ns name) c = (None, c') \<and>
     sameButDeployments c c'"
proof -
  let ?ds = "selectDeployments pol ns ''app.kubernetes.io/managed-by=VillipProxyController'' (clDeployments c)"
  obtain c' where "run_state (rolloutDeployments (storeReconciler pol l) name ?ds) c = ((), c')"
    and "sameButDeployments c c'"
    using rolloutDeployments_same [OF assms] by blast
  then show ?thesis
    by (simp add: rolloutDependentProxies_def run_simps store_calls run_serve assms)
qed

section \<open>Exactly the dependent Deployments are rolled out\<close>

text \<open>A new reload stamp keeps a Deployment valid.\<close>

lemma valid_reload:
  assumes "validDeployment d" and "length now \<le> 1000"
  shows "validDeployment ((setReloadedAt now d)\<lparr>deploymentMeta := (deploymentMeta d)\<lparr>metaResourceVersion := v\<rparr>\<rparr>)"
proof -
  have "labelKey ''villip-operator/config-reloaded-at''"
    by (simp add: labelKey_def dnsSubdomain_def name_defs)
  then have "validAnnotations [''villip-operator/config-reloaded-at'' \<mapsto> now]"
    using assms(2) by (simp add: validAnnotations_def)
  then show ?thesis
    using assms(1) by (simp add: validDeployment_def setReloadedAt_def validMeta_def)
qed

lemma reload_stored:
  assumes "length now \<le> 1000" and "storedDeployment d"
  shows "storedDeployment ((setReloadedAt now d)\<lparr>deploymentMeta := bump (deploymentMeta d)\<rparr>)"
proof -
  have "encodeDeployment ((setReloadedAt now d)\<lparr>deploymentMeta := m\<rparr>) =
      (setReloadedAt now (encodeDeployment d))\<lparr>deploymentMeta := m\<rparr>" for m
    by (simp add: encodeDeployment_def setReloadedAt_def Let_def)
  then show ?thesis
    using assms valid_reload [of d now] by (simp add: storedDeployment_def bump_def finalized_def)
qed

lemma run_reload:
  assumes "clFaults c = []" and "findObj deploymentMeta (keyOf (deploymentMeta d)) (clDeployments c) = Some d"
    and "reloadable pol" and "storedDeployment d" and "length now \<le> 1000"
    and "new = (setReloadedAt now d)\<lparr>deploymentMeta := bump (deploymentMeta d)\<rparr>"
  shows "storeUpdateDeployment pol (setReloadedAt now d) c =
    (Inr new, c\<lparr>clDeployments := replaceObj deploymentMeta new (clDeployments c)\<rparr>)"
proof -
  have mt: "deploymentMeta (setReloadedAt now d) = deploymentMeta d"
      "deploymentMatchLabels (deploymentSpec (setReloadedAt now d)) = deploymentMatchLabels (deploymentSpec d)"
    by (simp_all add: setReloadedAt_def)
  have enc: "(encodeDeployment (setReloadedAt now d))\<lparr>deploymentMeta := m\<rparr> =
      (setReloadedAt now d)\<lparr>deploymentMeta := m\<rparr>" for m
  proof -
    have "encodeDeployment (setReloadedAt now d) = setReloadedAt now (encodeDeployment d)"
      by (simp add: encodeDeployment_def setReloadedAt_def Let_def)
    then show ?thesis using assms(4) by (simp add: storedDeployment_def)
  qed
  have st: "storedDeployment new" unfolding assms(6) by (rule reload_stored [OF assms(5,4)])
  then have "admitDeployment pol new = None" "\<not> finalized (deploymentMeta new)"
    using assms(3) by (simp_all add: storedDeployment_def reloadable_def)
  then show ?thesis
    using assms(2) by (simp add: storeUpdateDeployment_def mt enc assms(6) [symmetric] writeObj_def Let_def)
qed

lemma findObj_replaceObj_other:
  "m \<noteq> keyOf (meta x) \<Longrightarrow> findObj meta m (replaceObj meta x xs) = findObj meta m xs"
  by (auto simp: findObj_replaceObj split: option.splits)

lemma rolloutNames_effect:
  assumes "clFaults c = []" and "findObj deploymentMeta (keyOf (deploymentMeta d)) (clDeployments c) = Some d"
    and "reloadable pol" and "storedDeployment d"
  shows "\<exists>c' d'. run_state (rolloutNames (storeReconciler pol l) name ns d) c = ((), c') \<and>
    findObj deploymentMeta (keyOf (deploymentMeta d)) (clDeployments c') = Some d' \<and>
    (if name \<in> set ns then reloaded d d' else d' = d) \<and>
    (\<forall>m. m \<noteq> keyOf (deploymentMeta d) \<longrightarrow>
       findObj deploymentMeta m (clDeployments c') = findObj deploymentMeta m (clDeployments c))"
  using assms
proof (induction ns arbitrary: c d)
  case Nil
  then show ?case by simp
next
  case (Cons x ns)
  show ?case
  proof (cases "x = name")
    case False
    then show ?thesis using Cons.IH [OF Cons.prems] by simp
  next
    case True
    let ?c1 = "c\<lparr>clClock := Suc (clClock c)\<rparr>"
    let ?new = "(setReloadedAt (clockString pol (clClock c)) d)\<lparr>deploymentMeta := bump (deploymentMeta d)\<rparr>"
    let ?c2 = "?c1\<lparr>clDeployments := replaceObj deploymentMeta ?new (clDeployments c)\<rparr>"
    have u: "storeUpdateDeployment pol (setReloadedAt (clockString pol (clClock c)) d) ?c1 = (Inr ?new, ?c2)"
      using run_reload [of ?c1 d pol "clockString pol (clClock c)" ?new] Cons.prems
      by (simp add: reloadable_def)
    have f: "findObj deploymentMeta (keyOf (deploymentMeta ?new)) (clDeployments ?c2) = Some ?new"
      using Cons.prems(2) by (simp add: findObj_replaceObj)
    have st: "storedDeployment ?new" using Cons.prems(3,4) by (intro reload_stored) (simp_all add: reloadable_def)
    have r: "reloaded d ?new" unfolding reloaded_def bump_def by blast
    obtain c' d' where IH: "run_state (rolloutNames (storeReconciler pol l) name ns ?new) ?c2 = ((), c')"
      "findObj deploymentMeta (keyOf (deploymentMeta ?new)) (clDeployments c') = Some d'"
      "if name \<in> set ns then reloaded ?new d' else d' = ?new"
      "\<forall>m. m \<noteq> keyOf (deploymentMeta ?new) \<longrightarrow>
         findObj deploymentMeta m (clDeployments c') = findObj deploymentMeta m (clDeployments ?c2)"
      using Cons.IH [OF _ f Cons.prems(3) st] Cons.prems(1) by auto
    have "run_state (rolloutNames (storeReconciler pol l) name (x # ns) d) c = ((), c')"
      using IH(1) by (simp add: True run_simps store_calls run_serve Cons.prems(1) u)
    moreover have "reloaded d d'" using IH(3) r reloaded_again by (auto split: if_splits)
    moreover have "\<forall>m. m \<noteq> keyOf (deploymentMeta d) \<longrightarrow>
       findObj deploymentMeta m (clDeployments c') = findObj deploymentMeta m (clDeployments c)"
      using IH(4) by (simp add: findObj_replaceObj_other)
    ultimately show ?thesis using IH(2) by (simp add: True)
  qed
qed

lemma rolloutDeployments_effect:
  assumes "clFaults c = []" and "reloadable pol" and "distinct (map (\<lambda>d. keyOf (deploymentMeta d)) ds)"
    and "\<And>d. d \<in> set ds \<Longrightarrow> findObj deploymentMeta (keyOf (deploymentMeta d)) (clDeployments c) = Some d"
    and "\<And>d. d \<in> set ds \<Longrightarrow> storedDeployment d"
  shows "\<exists>c'. run_state (rolloutDeployments (storeReconciler pol l) name ds) c = ((), c') \<and>
    (\<forall>d \<in> set ds. \<exists>d'. findObj deploymentMeta (keyOf (deploymentMeta d)) (clDeployments c') = Some d' \<and>
       (if dependsOn name d then reloaded d d' else d' = d)) \<and>
    (\<forall>m. m \<notin> (\<lambda>d. keyOf (deploymentMeta d)) ` set ds \<longrightarrow>
       findObj deploymentMeta m (clDeployments c') = findObj deploymentMeta m (clDeployments c))"
  using assms
proof (induction ds arbitrary: c)
  case Nil
  then show ?case by simp
next
  case (Cons d ds)
  let ?k = "keyOf (deploymentMeta d)"
  let ?m = "case metaAnnotations (deploymentMeta d) confAnnotation of None \<Rightarrow> ret ()
    | Some dependOn \<Rightarrow> rolloutNames (storeReconciler pol l) name (splitString (CHR '','') dependOn) d"
  have fd: "findObj deploymentMeta ?k (clDeployments c) = Some d" and sd: "storedDeployment d"
    using Cons.prems(4,5) by simp_all
  obtain c1 d1 where c1: "run_state ?m c = ((), c1)"
    and d1: "findObj deploymentMeta ?k (clDeployments c1) = Some d1"
      "if dependsOn name d then reloaded d d1 else d1 = d"
    and other: "\<And>m. m \<noteq> ?k \<Longrightarrow> findObj deploymentMeta m (clDeployments c1) = findObj deploymentMeta m (clDeployments c)"
    and s: "sameButDeployments c c1"
  proof (cases "metaAnnotations (deploymentMeta d) confAnnotation")
    case None
    then show ?thesis using that [of c d] fd by (simp add: dependsOn_def)
  next
    case (Some a)
    obtain c1 d1 where *: "run_state (rolloutNames (storeReconciler pol l) name (splitString (CHR '','') a) d) c = ((), c1)"
      "findObj deploymentMeta ?k (clDeployments c1) = Some d1"
      "if name \<in> set (splitString (CHR '','') a) then reloaded d d1 else d1 = d"
      "\<forall>m. m \<noteq> ?k \<longrightarrow> findObj deploymentMeta m (clDeployments c1) = findObj deploymentMeta m (clDeployments c)"
      using rolloutNames_effect [OF Cons.prems(1) fd Cons.prems(2) sd] by blast
    moreover have "sameButDeployments c c1"
      using rolloutNames_same [OF Cons.prems(1), of pol l name "splitString (CHR '','') a" d] *(1) by simp
    ultimately show ?thesis using that [of c1 d1] Some by (simp add: dependsOn_def)
  qed
  have ne: "?k \<noteq> keyOf (deploymentMeta e)" if "e \<in> set ds" for e
    using Cons.prems(3) imageI [OF that, of "\<lambda>d. keyOf (deploymentMeta d)"] by auto
  have f1: "findObj deploymentMeta (keyOf (deploymentMeta e)) (clDeployments c1) = Some e" if "e \<in> set ds" for e
    using other [of "keyOf (deploymentMeta e)"] ne [OF that] Cons.prems(4) that by simp
  have nf: "clFaults c1 = []" using sameButDeployments_sel(1) [OF s] Cons.prems(1) by simp
  have dist: "distinct (map (\<lambda>d. keyOf (deploymentMeta d)) ds)" using Cons.prems(3) by simp
  obtain c' where IH: "run_state (rolloutDeployments (storeReconciler pol l) name ds) c1 = ((), c')"
    "\<forall>d \<in> set ds. \<exists>d'. findObj deploymentMeta (keyOf (deploymentMeta d)) (clDeployments c') = Some d' \<and>
       (if dependsOn name d then reloaded d d' else d' = d)"
    "\<forall>m. m \<notin> (\<lambda>d. keyOf (deploymentMeta d)) ` set ds \<longrightarrow>
       findObj deploymentMeta m (clDeployments c') = findObj deploymentMeta m (clDeployments c1)"
    using Cons.IH [OF nf Cons.prems(2) dist f1] Cons.prems(5) by auto
  have "run_state (rolloutDeployments (storeReconciler pol l) name (d # ds)) c = ((), c')"
    using c1 IH(1) by (simp add: run_simps)
  moreover have "findObj deploymentMeta ?k (clDeployments c') = Some d1"
    using IH(3) [rule_format, of ?k] Cons.prems(3) d1(1) by simp
  ultimately show ?case
    using IH(2,3) d1(2) other by (intro exI [of _ c']) auto
qed


section \<open>Phases\<close>

datatype rulesPhase = RulesAbsent | RulesUnstatused | RulesUnguarded | RulesDeleting | Unrendered | Stale | Synced

text \<open>The ConfigMap has the checksum of the rendered rule.\<close>

definition dataSynced :: "lib \<Rightarrow> villipRules \<Rightarrow> configMap \<Rightarrow> bool" where
  "dataSynced l p cm \<longleftrightarrow>
     (case yamlMarshal l (rulesSpec p) of
        Inl e \<Rightarrow> False
      | Inr data \<Rightarrow>
          sumVillipRulesData (dataAt (configMapData cm) (configMapKey p)) = sumVillipRulesData data)"

definition rulesPhase :: "lib \<Rightarrow> cluster \<Rightarrow> namespacedName \<Rightarrow> rulesPhase" where
  "rulesPhase l c n =
     (case findObj rulesMeta n (clRules c) of
        None \<Rightarrow> RulesAbsent
      | Some p \<Rightarrow>
          if rulesConditions (rulesStatus p) = [] then RulesUnstatused
          else if villiprulesFinalizer \<notin> set (metaFinalizers (rulesMeta p)) then RulesUnguarded
          else if metaDeletionTimestamp (rulesMeta p) \<noteq> None then RulesDeleting
          else (case findObj configMapMeta n (clConfigMaps c) of
                  None \<Rightarrow> Unrendered
                | Some cm \<Rightarrow> if dataSynced l p cm then Synced else Stale))"

inductive rulesStep :: "rulesPhase \<Rightarrow> rulesPhase \<Rightarrow> bool" where
  status: "q \<in> {RulesUnguarded, Unrendered, Stale, Synced} \<Longrightarrow> rulesStep RulesUnstatused q"
| guard: "q \<in> {Unrendered, Stale, Synced} \<Longrightarrow> rulesStep RulesUnguarded q"
| render: "rulesStep Unrendered Synced"
| refresh: "rulesStep Stale Synced"
| stay: "rulesStep Synced Synced"

inductive_simps rulesStep_from [simp]:
  "rulesStep RulesAbsent q" "rulesStep RulesUnstatused q" "rulesStep RulesUnguarded q"
  "rulesStep RulesDeleting q" "rulesStep Unrendered q" "rulesStep Stale q" "rulesStep Synced q"

fun rulesRank :: "rulesPhase \<Rightarrow> nat" where
  "rulesRank RulesUnstatused = 3"
| "rulesRank RulesUnguarded = 2"
| "rulesRank Unrendered = 1"
| "rulesRank Stale = 1"
| "rulesRank _ = 0"

lemma rulesStep_rank: "rulesStep p q \<Longrightarrow> p \<noteq> Synced \<Longrightarrow> rulesRank q < rulesRank p"
  by (cases p) auto

text \<open>The invariant of the loop: the rule exists, is not going away and can be rendered.\<close>

definition healthyRules :: "lib \<Rightarrow> namespacedName \<Rightarrow> cluster \<Rightarrow> bool" where
  "healthyRules l n c \<longleftrightarrow>
     clFaults c = [] \<and>
     (\<exists>p data. findObj rulesMeta n (clRules c) = Some p \<and> metaDeletionTimestamp (rulesMeta p) = None \<and>
        yamlMarshal l (rulesSpec p) = Inr data) \<and>
     (\<forall>cm. findObj configMapMeta n (clConfigMaps c) = Some cm \<longrightarrow>
        metaDeletionTimestamp (configMapMeta cm) = None)"

definition keepsRules :: "namespacedName \<Rightarrow> cluster \<Rightarrow> cluster \<Rightarrow> bool" where
  "keepsRules n c c' \<longleftrightarrow>
     clProxies c' = clProxies c \<and> clServices c' = clServices c \<and>
     map_option rulesSpec (findObj rulesMeta n (clRules c')) =
       map_option rulesSpec (findObj rulesMeta n (clRules c))"

text \<open>What is recorded when the ConfigMap was written: its data, the checksum and the condition.\<close>

definition recorded :: "lib \<Rightarrow> cluster \<Rightarrow> namespacedName \<Rightarrow> bool" where
  "recorded l c n \<longleftrightarrow>
     (\<exists>p cm data av msg. findObj rulesMeta n (clRules c) = Some p \<and>
        findObj configMapMeta n (clConfigMaps c) = Some cm \<and>
        yamlMarshal l (rulesSpec p) = Inr data \<and>
        configMapData cm = [nnName n @ ''.yml'' \<mapsto> data] \<and>
        sumVillipRulesData data = Inr (lastSum (rulesStatus p)) \<and>
        conditionOf typeAvailableVillipRules (rulesConditions (rulesStatus p)) = Some av \<and>
        sameVerdict av (mkCondition typeAvailableVillipRules ConditionTrue ''Reconciled'' msg))"

definition rulesPassTo ::
  "policy \<Rightarrow> lib \<Rightarrow> namespacedName \<Rightarrow> cluster \<Rightarrow> reconcileResult \<Rightarrow> cluster \<Rightarrow> bool" where
  "rulesPassTo pol l n c res c' \<longleftrightarrow>
     run_state (reconcileRules (storeReconciler pol l) n) c = ((res, None), c') \<and>
     healthyRules l n c' \<and> keepsRules n c c' \<and> rulesStep (rulesPhase l c n) (rulesPhase l c' n)"

section \<open>One pass from each phase\<close>

lemma rules_key: "findObj rulesMeta n xs = Some p \<Longrightarrow> configMapKey p = nnName n @ ''.yml''"
  using findObj_key [of rulesMeta n xs p] by (auto simp: configMapKey_def)

lemma dataSynced_cong:
  assumes "rulesSpec p' = rulesSpec p" and "metaName (rulesMeta p') = metaName (rulesMeta p)"
  shows "dataSynced l p' cm = dataSynced l p cm"
  using assms by (simp add: dataSynced_def configMapKey_def cong: sum.case_cong)

lemma rules_write:
  assumes "healthyRules l n c" and "findObj rulesMeta n (clRules c) = Some p"
    and "clFaults c' = []" and "clConfigMaps c' = clConfigMaps c" and "clProxies c' = clProxies c"
    and "clServices c' = clServices c"
    and "clRules c' = replaceObj rulesMeta p' (clRules c)"
    and "keyOf (rulesMeta p') = n" and "rulesSpec p' = rulesSpec p"
    and "metaDeletionTimestamp (rulesMeta p') = metaDeletionTimestamp (rulesMeta p)"
  shows "healthyRules l n c'" and "keepsRules n c c'" and "findObj rulesMeta n (clRules c') = Some p'"
proof -
  show f: "findObj rulesMeta n (clRules c') = Some p'"
    using assms(2,7,8) by (simp add: findObj_replaceObj)
  show "healthyRules l n c'" using f assms(1,2,3,4,9,10) by (auto simp: healthyRules_def)
  show "keepsRules n c c'" using f assms(2,5,6,9) by (simp add: keepsRules_def)
qed

lemma rulesPhase_cases:
  assumes "findObj rulesMeta n (clRules c) = Some p" and "metaDeletionTimestamp (rulesMeta p) = None"
    and "rulesConditions (rulesStatus p) \<noteq> []"
  shows "rulesPhase l c n \<in> {RulesUnguarded, Unrendered, Stale, Synced}"
    and "villiprulesFinalizer \<in> set (metaFinalizers (rulesMeta p)) \<Longrightarrow>
      rulesPhase l c n \<in> {Unrendered, Stale, Synced}"
  using assms by (simp_all add: rulesPhase_def split: option.splits)

lemma rules_pass_Unstatused:
  assumes "libLaws l" and "healthyRules l n c" and "rulesPhase l c n = RulesUnstatused"
  shows "\<exists>c'. rulesPassTo pol l n c requeueMinute c'"
proof -
  obtain p where p: "findObj rulesMeta n (clRules c) = Some p" and del: "metaDeletionTimestamp (rulesMeta p) = None"
    and nofault: "clFaults c = []"
    using assms(2) by (auto simp: healthyRules_def)
  have un: "rulesConditions (rulesStatus p) = []"
    using assms(3) p by (auto simp: rulesPhase_def split: if_splits option.splits)
  let ?p' = "withRulesCondition l (clockTime pol (clClock c))
    (mkCondition typeAvailableVillipRules ConditionUnknown ''Reconciling'' ''Starting reconciliation'') p"
  let ?c' = "c\<lparr>clClock := Suc (clClock c), clRules := replaceObj rulesMeta ?p' (clRules c)\<rparr>"
  have run: "run_state (reconcileRules (storeReconciler pol l) n) c = ((requeueMinute, None), ?c')"
    by (simp add: reconcileRules_def initRulesStatus_def run_simps store_runs nofault p un
        run_setRulesStatus [OF nofault p not_finalized [OF del] refl refl])
  note w = rules_write [OF assms(2) p, of ?c' ?p']
  have h: "healthyRules l n ?c'" and k: "keepsRules n c ?c'" and f: "findObj rulesMeta n (clRules ?c') = Some ?p'"
    by (rule w; simp add: nofault findObj_key [OF p])+
  have "rulesPhase l ?c' n \<in> {RulesUnguarded, Unrendered, Stale, Synced}"
    by (rule rulesPhase_cases(1) [OF f]) (simp_all add: del libLaws_set_nonempty [OF assms(1)])
  then show ?thesis using run h k by (auto simp: rulesPassTo_def assms(3))
qed

lemma rules_pass_Unguarded:
  assumes "libLaws l" and "healthyRules l n c" and "rulesPhase l c n = RulesUnguarded"
  shows "\<exists>c'. rulesPassTo pol l n c requeueMinute c'"
proof -
  obtain p where p: "findObj rulesMeta n (clRules c) = Some p" and del: "metaDeletionTimestamp (rulesMeta p) = None"
    and nofault: "clFaults c = []"
    using assms(2) by (auto simp: healthyRules_def)
  have ph: "rulesConditions (rulesStatus p) \<noteq> []" "villiprulesFinalizer \<notin> set (metaFinalizers (rulesMeta p))"
    using assms(3) p by (auto simp: rulesPhase_def split: if_splits option.splits)
  have key: "keyOf (rulesMeta p) = n" using p by (rule findObj_key)
  let ?m = "(rulesMeta p)\<lparr>metaFinalizers := metaFinalizers (rulesMeta p) @ [villiprulesFinalizer]\<rparr>"
  let ?p' = "p\<lparr>rulesMeta := nextVersion (rulesMeta p) ?m\<rparr>"
  let ?c' = "c\<lparr>clRules := replaceObj rulesMeta ?p' (clRules c)\<rparr>"
  have key': "keyOf ?m = n" using key by (simp add: keyOf_def)
  have fin: "\<not> finalized (nextVersion (rulesMeta p) ?m)" by (simp add: finalized_def nextVersion_def del)
  have run: "run_state (reconcileRules (storeReconciler pol l) n) c = ((requeueMinute, None), ?c')"
    using ph
    by (simp add: reconcileRules_def addRulesFinalizer_def run_simps store_runs nofault p
        libLaws_finalizer [OF assms(1)] storeUpdateRules_def key' updateError_def del writeObj_def fin Let_def)
  note w = rules_write [OF assms(2) p, of ?c' ?p']
  have h: "healthyRules l n ?c'" and k: "keepsRules n c ?c'" and f: "findObj rulesMeta n (clRules ?c') = Some ?p'"
    by (rule w; simp add: nofault key' nextVersion_def; simp add: keyOf_def key [unfolded keyOf_def])+
  have "rulesPhase l ?c' n \<in> {Unrendered, Stale, Synced}"
    by (rule rulesPhase_cases(2) [OF f]) (use del ph in \<open>simp_all add: nextVersion_def\<close>)
  then show ?thesis using run h k by (auto simp: rulesPassTo_def assms(3))
qed


text \<open>A rule whose own guards have passed.\<close>

definition rulesGuarded :: "villipRules \<Rightarrow> bool" where
  "rulesGuarded p \<longleftrightarrow> rulesConditions (rulesStatus p) \<noteq> [] \<and>
     villiprulesFinalizer \<in> set (metaFinalizers (rulesMeta p)) \<and>
     metaDeletionTimestamp (rulesMeta p) = None"

lemma rulesWorkE:
  assumes "healthyRules l n c" and "rulesPhase l c n \<in> {Unrendered, Stale, Synced}"
  obtains p data where "findObj rulesMeta n (clRules c) = Some p" and "rulesGuarded p"
    and "clFaults c = []" and "yamlMarshal l (rulesSpec p) = Inr data"
    and "rulesPhase l c n = (case findObj configMapMeta n (clConfigMaps c) of
           None \<Rightarrow> Unrendered | Some cm \<Rightarrow> if dataSynced l p cm then Synced else Stale)"
proof -
  obtain p data where p: "findObj rulesMeta n (clRules c) = Some p" "clFaults c = []"
    "yamlMarshal l (rulesSpec p) = Inr data" "metaDeletionTimestamp (rulesMeta p) = None"
    using assms(1) by (auto simp: healthyRules_def)
  moreover have "rulesGuarded p" using assms(2) p by (auto simp: rulesPhase_def rulesGuarded_def split: if_splits)
  ultimately show thesis
    by (intro that [of p data]) (simp_all add: rulesPhase_def rulesGuarded_def)
qed

lemma run_rulesGuarded:
  assumes "libLaws l" and "clFaults c = []" and "findObj rulesMeta n (clRules c) = Some p" and "rulesGuarded p"
  shows "run_state (reconcileRules (storeReconciler pol l) n) c =
    (case findObj configMapMeta n (clConfigMaps c) of
       None \<Rightarrow> run_state (createConfigMap (storeReconciler pol l) p) c
     | Some cm \<Rightarrow> run_state (reconcileRulesData (storeReconciler pol l) n p cm) c)"
  using assms
  by (simp add: reconcileRules_def run_simps store_calls run_serve rulesGuarded_def libLaws_finalizer
      findObj_key [OF assms(3)] split: option.splits)

lemma configMapForVillipRule_value:
  assumes "libLaws l" and "yamlMarshal l (rulesSpec p) = Inr data"
  obtains cm where "configMapForVillipRule (storeReconciler pol l) p = Inr cm"
    and "configMapData cm = [configMapKey p \<mapsto> data]" and "keyOf (configMapMeta cm) = keyOf (rulesMeta p)"
    and "metaDeletionTimestamp (configMapMeta cm) = None"
    and "setControllerReference l (RulesOwner p) (configMapMeta cm) = Inr (configMapMeta cm)"
proof -
  let ?m = "emptyMeta\<lparr>metaName := metaName (rulesMeta p), metaNamespace := metaNamespace (rulesMeta p),
    metaLabels := Map.empty ++ metaLabels (rulesMeta p)\<rparr>"
  obtain ref where ref: "setControllerReference l (RulesOwner p) ?m = Inr (?m\<lparr>metaOwnerReferences := [ref]\<rparr>)"
    by (rule libLaws_owner [OF assms(1), of ?m "RulesOwner p"]) (simp_all add: emptyMeta_def ownerMeta_def)
  show thesis
    by (rule that [of "\<lparr>configMapMeta = ?m\<lparr>metaOwnerReferences := [ref]\<rparr>, configMapData = [configMapKey p \<mapsto> data]\<rparr>"])
       (use ref libLaws_owner_again [OF assms(1) ref] in
         \<open>simp_all add: configMapForVillipRule_def store_calls(1) assms(2) Let_def emptyMeta_def keyOf_def\<close>)
qed

lemma rulesPhase_synced:
  assumes "findObj rulesMeta n (clRules c) = Some p" and "rulesGuarded p"
    and "findObj configMapMeta n (clConfigMaps c) = Some cm" and "dataSynced l p cm"
  shows "rulesPhase l c n = Synced"
  using assms by (simp add: rulesPhase_def rulesGuarded_def)

lemma rulesGuarded_withCondition:
  assumes "libLaws l" and "rulesGuarded p"
  shows "rulesGuarded (withRulesCondition l t cond (p\<lparr>rulesStatus := (rulesStatus p)\<lparr>lastSum := s\<rparr>\<rparr>))"
  using assms by (simp add: rulesGuarded_def libLaws_set_nonempty)

text \<open>The state after a status with a checksum was written and the ConfigMap holds the data.\<close>

lemma recordedI:
  assumes "libLaws l" and "findObj rulesMeta n (clRules c) =
      Some (withRulesCondition l t (mkCondition typeAvailableVillipRules ConditionTrue ''Reconciled'' msg) p)"
    and "findObj configMapMeta n (clConfigMaps c) = Some cm"
    and "yamlMarshal l (rulesSpec p) = Inr data" and "configMapData cm = [nnName n @ ''.yml'' \<mapsto> data]"
    and "sumVillipRulesData data = Inr (lastSum (rulesStatus p))"
  shows "recorded l c n"
proof -
  let ?c = "mkCondition typeAvailableVillipRules ConditionTrue ''Reconciled'' msg"
  have "conditionType ?c = typeAvailableVillipRules" by (simp add: mkCondition_def)
  moreover obtain av where "conditionOf (conditionType ?c)
      (setStatusConditionAt l t (rulesConditions (rulesStatus p)) ?c) = Some av" "sameVerdict av ?c"
    by (rule libLaws_set_same [OF assms(1)])
  ultimately show ?thesis using assms by (fastforce simp: recorded_def)
qed

lemma dataSynced_written:
  "yamlMarshal l (rulesSpec p) = Inr data \<Longrightarrow> configMapData cm = [configMapKey p \<mapsto> data] \<Longrightarrow> dataSynced l p cm"
  by (simp add: dataSynced_def dataAt_def)

lemma rules_pass_Unrendered:
  assumes "libLaws l" and "healthyRules l n c" and "rulesPhase l c n = Unrendered"
  shows "\<exists>c' p cm. rulesPassTo pol l n c noRequeue c' \<and> recorded l c' n \<and>
    findObj rulesMeta n (clRules c) = Some p \<and> configMapForVillipRule (storeReconciler pol l) p = Inr cm \<and>
    findObj configMapMeta n (clConfigMaps c) = None \<and> clConfigMaps c' = clConfigMaps c @ [cm] \<and>
    clDeployments c' = clDeployments c"
proof -
  obtain p data where p: "findObj rulesMeta n (clRules c) = Some p" and g: "rulesGuarded p"
    and nofault: "clFaults c = []" and data: "yamlMarshal l (rulesSpec p) = Inr data"
    and none: "findObj configMapMeta n (clConfigMaps c) = None"
    by (rule rulesWorkE [OF assms(2)]) (use assms(3) in \<open>auto split: option.splits if_splits\<close>)
  have key: "keyOf (rulesMeta p) = n" using p by (rule findObj_key)
  have del: "metaDeletionTimestamp (rulesMeta p) = None" using g by (simp add: rulesGuarded_def)
  obtain s where s: "sumVillipRulesData data = Inr s" using rulesSum.sum_total by blast
  obtain cm where cm: "configMapForVillipRule (storeReconciler pol l) p = Inr cm"
      "configMapData cm = [configMapKey p \<mapsto> data]" "keyOf (configMapMeta cm) = n"
      "metaDeletionTimestamp (configMapMeta cm) = None"
      "setControllerReference l (RulesOwner p) (configMapMeta cm) = Inr (configMapMeta cm)"
    by (rule configMapForVillipRule_value [OF assms(1) data, of pol]) (use key in auto)
  let ?q = "p\<lparr>rulesStatus := (rulesStatus p)\<lparr>lastSum := s\<rparr>\<rparr>"
  let ?cond = "mkCondition typeAvailableVillipRules ConditionTrue ''Reconciled'' ''ConfigMap created''"
  let ?p' = "withRulesCondition l (clockTime pol (clClock c)) ?cond ?q"
  let ?c1 = "c\<lparr>clConfigMaps := clConfigMaps c @ [cm]\<rparr>"
  let ?c' = "?c1\<lparr>clClock := Suc (clClock c), clRules := replaceObj rulesMeta ?p' (clRules c)\<rparr>"
  have st: "run_state (setRulesStatus (storeReconciler pol l) ?q ?cond) ?c1 = ((None, ?p'), ?c')"
    using run_setRulesStatus [of ?c1 n p ?q pol l ?cond] nofault p not_finalized [OF del] by simp
  have run: "run_state (reconcileRules (storeReconciler pol l) n) c = ((noRequeue, None), ?c')"
    by (simp add: run_rulesGuarded [OF assms(1) nofault p g] none createConfigMap_def cm dataAt_def s
        run_simps store_calls run_serve nofault storeCreateConfigMap_def st)
  have f: "findObj rulesMeta n (clRules ?c') = Some ?p'"
    using findObj_replaceObj_Some [OF p, of ?p'] key by simp
  have fcm: "findObj configMapMeta n (clConfigMaps ?c') = Some cm" by (simp add: findObj_snoc none cm)
  have syn: "dataSynced l ?p' cm"
    by (rule dataSynced_written) (simp_all add: data cm configMapKey_def)
  have g': "rulesGuarded ?p'" using g by (rule rulesGuarded_withCondition [OF assms(1)])
  have "rulesPhase l ?c' n = Synced" by (rule rulesPhase_synced [OF f g' fcm syn])
  moreover have "healthyRules l n ?c'" using f fcm nofault data del cm(4) by (simp add: healthyRules_def)
  moreover have "keepsRules n c ?c'" using f p by (simp add: keepsRules_def)
  moreover have "recorded l ?c' n"
    by (rule recordedI [OF assms(1) f fcm, where data = data])
       (use s in \<open>simp_all add: data cm rules_key [OF p]\<close>)
  ultimately show ?thesis
    using run assms(3) p cm(1) none
    by (intro exI [of _ ?c'] exI [of _ p] exI [of _ cm]) (simp add: rulesPassTo_def)
qed

lemma rules_pass_Synced:
  assumes "libLaws l" and "healthyRules l n c" and "rulesPhase l c n = Synced"
  shows "rulesPassTo pol l n c requeueMinute c"
proof -
  obtain p data where p: "findObj rulesMeta n (clRules c) = Some p" and g: "rulesGuarded p"
    and nofault: "clFaults c = []" and data: "yamlMarshal l (rulesSpec p) = Inr data"
    and ph: "rulesPhase l c n = (case findObj configMapMeta n (clConfigMaps c) of
           None \<Rightarrow> Unrendered | Some cm \<Rightarrow> if dataSynced l p cm then Synced else Stale)"
    by (rule rulesWorkE [OF assms(2)]) (use assms(3) in auto)
  obtain cm where cm: "findObj configMapMeta n (clConfigMaps c) = Some cm" and syn: "dataSynced l p cm"
    using ph assms(3) by (auto split: option.splits if_splits)
  obtain s where s: "sumVillipRulesData data = Inr s" using rulesSum.sum_total by blast
  then have t: "sumVillipRulesData (dataAt (configMapData cm) (configMapKey p)) = Inr s"
    using syn data s by (simp add: dataSynced_def)
  have "run_state (reconcileRules (storeReconciler pol l) n) c = ((requeueMinute, None), c)"
    by (simp add: run_rulesGuarded [OF assms(1) nofault p g] cm reconcileRulesData_def store_calls(1) data s t)
  then show ?thesis using assms(2,3) by (simp add: rulesPassTo_def keepsRules_def)
qed


text \<open>The tail of an update: the checksum and the condition are stored, dependent proxies rolled out.\<close>

lemma run_finishConfigMapUpdate:
  assumes "clFaults c = []" and p: "findObj rulesMeta n (clRules c) = Some p"
    and del: "metaDeletionTimestamp (rulesMeta p) = None"
  obtains p' t c' where
    "run_state (finishConfigMapUpdate (storeReconciler pol l) p s) c = ((requeueMinute, None), c')"
    and "findObj rulesMeta n (clRules c') = Some (withRulesCondition l t
           (mkCondition typeAvailableVillipRules ConditionTrue ''Reconciled'' ''ConfigMap updated'') p')"
    and "rulesSpec p' = rulesSpec p" and "rulesMeta p' = rulesMeta p" and "lastSum (rulesStatus p') = s"
    and "clFaults c' = []" and "clConfigMaps c' = clConfigMaps c" and "clProxies c' = clProxies c"
    and "clServices c' = clServices c"
proof -
  let ?r = "storeReconciler pol l"
  let ?cond = "mkCondition typeAvailableVillipRules ConditionTrue ''Reconciled'' ''ConfigMap updated''"
  define p2 where "p2 = (if lastSum (rulesStatus p) \<noteq> s
    then p\<lparr>rulesStatus := (rulesStatus p)\<lparr>lastSum := s\<rparr>\<rparr> else p)"
  define p3 where "p3 = withRulesCondition l (clockTime pol (clClock c)) ?cond p2"
  define c3 where "c3 = c\<lparr>clClock := Suc (clClock c), clRules := replaceObj rulesMeta p3 (clRules c)\<rparr>"
  have m2: "rulesMeta p2 = rulesMeta p" "rulesSpec p2 = rulesSpec p" "lastSum (rulesStatus p2) = s"
    by (simp_all add: p2_def)
  have s2: "run_state (setRulesStatus ?r p2 ?cond) c = ((None, p3), c3)"
    unfolding p3_def c3_def
    by (rule run_setRulesStatus [OF assms(1) p]) (use del in \<open>simp_all add: not_finalized m2\<close>)
  have f3: "findObj rulesMeta n (clRules c3) = Some p3"
    using findObj_replaceObj_Some [OF p, of p3] findObj_key [OF p] m2 by (simp add: c3_def p3_def)
  have nf: "clFaults c3 = []" using assms(1) by (simp add: c3_def)
  obtain c' where ro: "run_state (rolloutDependentProxies ?r (metaNamespace (rulesMeta p3))
      (metaName (rulesMeta p3))) c3 = (None, c')" and same: "sameButDeployments c3 c'"
    using rolloutDependentProxies_same [OF nf] by blast
  have run: "run_state (finishConfigMapUpdate ?r p s) c = ((requeueMinute, None), c')"
    unfolding finishConfigMapUpdate_def p2_def [symmetric] by (simp add: run_simps s2 ro)
  show thesis
    by (rule that [OF run, of "clockTime pol (clClock c)" p2])
       (use f3 nf sameButDeployments_sel [OF same] in \<open>simp_all add: p3_def c3_def m2\<close>)
qed

lemma run_updateConfigMap_ok:
  assumes "clFaults c = []" and p: "findObj rulesMeta n (clRules c) = Some p"
    and del: "metaDeletionTimestamp (rulesMeta p) = None"
    and cm: "findObj configMapMeta n (clConfigMaps c) = Some cm"
    and cdel: "metaDeletionTimestamp (configMapMeta cm) = None"
    and "configMapMeta cm' = configMapMeta cm"
  obtains p' t c' where
    "run_state (updateConfigMap (storeReconciler pol l) req p cm' s) c = ((requeueMinute, None), c')"
    and "findObj rulesMeta n (clRules c') = Some (withRulesCondition l t
           (mkCondition typeAvailableVillipRules ConditionTrue ''Reconciled'' ''ConfigMap updated'') p')"
    and "rulesSpec p' = rulesSpec p" and "keyOf (rulesMeta p') = n"
    and "metaFinalizers (rulesMeta p') = metaFinalizers (rulesMeta p)"
    and "metaDeletionTimestamp (rulesMeta p') = None" and "lastSum (rulesStatus p') = s"
    and "findObj configMapMeta n (clConfigMaps c') = Some (cm'\<lparr>configMapMeta := bump (configMapMeta cm)\<rparr>)"
    and "clFaults c' = []" and "clProxies c' = clProxies c" and "clServices c' = clServices c"
proof -
  let ?r = "storeReconciler pol l"
  let ?cond1 = "mkCondition typeDegradedVillipRules ConditionFalse ''Updating''
    (''Update the data for the custom resource ('' @ metaName (rulesMeta p) @ '')'')"
  let ?cm = "cm'\<lparr>configMapMeta := bump (configMapMeta cm)\<rparr>"
  define p1 where "p1 = withRulesCondition l (clockTime pol (clClock c)) ?cond1 p"
  define c1 where "c1 = c\<lparr>clClock := Suc (clClock c), clRules := replaceObj rulesMeta p1 (clRules c)\<rparr>"
  define c2 where "c2 = c1\<lparr>clConfigMaps := replaceObj configMapMeta ?cm (clConfigMaps c1)\<rparr>"
  have key: "keyOf (rulesMeta p) = n" "keyOf (configMapMeta cm) = n"
    using p cm by (auto dest: findObj_key)
  have m1: "rulesMeta p1 = bump (rulesMeta p)" "rulesSpec p1 = rulesSpec p" by (simp_all add: p1_def)
  have s1: "run_state (setRulesStatus ?r p ?cond1) c = ((None, p1), c1)"
    unfolding p1_def c1_def by (rule run_setRulesStatus [OF assms(1) p not_finalized [OF del] refl refl])
  have f1: "findObj rulesMeta n (clRules c2) = Some p1"
    using findObj_replaceObj_Some [OF p, of p1] key m1 by (simp add: c1_def c2_def)
  have cm1: "findObj configMapMeta n (clConfigMaps c1) = Some cm" using cm by (simp add: c1_def)
  have nf: "clFaults c1 = []" "clFaults c2 = []" using assms(1) by (simp_all add: c1_def c2_def)
  have u: "storeUpdateConfigMap pol cm' c1 = (Inr ?cm, c2)"
    by (simp add: storeUpdateConfigMap_def assms(6) key cm1 writeObj_def not_finalized cdel Let_def c2_def)
  have del1: "metaDeletionTimestamp (rulesMeta p1) = None" using del m1 by simp
  obtain p' t c' where fin: "run_state (finishConfigMapUpdate ?r p1 s) c2 = ((requeueMinute, None), c')"
    and f: "findObj rulesMeta n (clRules c') = Some (withRulesCondition l t
           (mkCondition typeAvailableVillipRules ConditionTrue ''Reconciled'' ''ConfigMap updated'') p')"
    and p': "rulesSpec p' = rulesSpec p1" "rulesMeta p' = rulesMeta p1" "lastSum (rulesStatus p') = s"
    and rest: "clFaults c' = []" "clConfigMaps c' = clConfigMaps c2" "clProxies c' = clProxies c2"
      "clServices c' = clServices c2"
    by (rule run_finishConfigMapUpdate [OF nf(2) f1 del1, of pol l s]) (use that in auto)
  have run: "run_state (updateConfigMap ?r req p cm' s) c = ((requeueMinute, None), c')"
    using s1 by (simp add: updateConfigMap_def run_simps store_calls run_serve nf u fin)
  have fcm: "findObj configMapMeta n (clConfigMaps c2) = Some ?cm"
    using findObj_replaceObj_Some [OF cm1, of ?cm] key by (simp add: c2_def)
  show thesis
    by (rule that [OF run f])
       (use fcm key del in \<open>simp_all add: p' m1 rest c1_def c2_def\<close>)
qed

lemma rules_pass_Stale:
  assumes "libLaws l" and "healthyRules l n c" and "rulesPhase l c n = Stale"
  shows "\<exists>c'. rulesPassTo pol l n c requeueMinute c' \<and> recorded l c' n"
proof -
  obtain p data where p: "findObj rulesMeta n (clRules c) = Some p" and g: "rulesGuarded p"
    and nofault: "clFaults c = []" and data: "yamlMarshal l (rulesSpec p) = Inr data"
    and ph: "rulesPhase l c n = (case findObj configMapMeta n (clConfigMaps c) of
           None \<Rightarrow> Unrendered | Some cm \<Rightarrow> if dataSynced l p cm then Synced else Stale)"
    by (rule rulesWorkE [OF assms(2)]) (use assms(3) in auto)
  obtain cm where cm: "findObj configMapMeta n (clConfigMaps c) = Some cm" and stale: "\<not> dataSynced l p cm"
    using ph assms(3) by (auto split: option.splits if_splits)
  have del: "metaDeletionTimestamp (rulesMeta p) = None" using g by (simp add: rulesGuarded_def)
  have cdel: "metaDeletionTimestamp (configMapMeta cm) = None"
    using assms(2) cm by (simp add: healthyRules_def)
  obtain s where s: "sumVillipRulesData data = Inr s" using rulesSum.sum_total by blast
  obtain t where t: "sumVillipRulesData (dataAt (configMapData cm) (configMapKey p)) = Inr t"
    using rulesSum.sum_total by blast
  have ne: "t \<noteq> s" using stale s t data by (simp add: dataSynced_def)
  let ?cm' = "cm\<lparr>configMapData := [configMapKey p \<mapsto> data]\<rparr>"
  obtain p' t' c' where u: "run_state (updateConfigMap (storeReconciler pol l) n p ?cm' s) c = ((requeueMinute, None), c')"
    and f: "findObj rulesMeta n (clRules c') = Some (withRulesCondition l t'
           (mkCondition typeAvailableVillipRules ConditionTrue ''Reconciled'' ''ConfigMap updated'') p')"
    and p': "rulesSpec p' = rulesSpec p" "keyOf (rulesMeta p') = n"
      "metaFinalizers (rulesMeta p') = metaFinalizers (rulesMeta p)"
      "metaDeletionTimestamp (rulesMeta p') = None" "lastSum (rulesStatus p') = s"
    and fcm: "findObj configMapMeta n (clConfigMaps c') = Some (?cm'\<lparr>configMapMeta := bump (configMapMeta cm)\<rparr>)"
    and rest: "clFaults c' = []" "clProxies c' = clProxies c" "clServices c' = clServices c"
    by (rule run_updateConfigMap_ok [OF nofault p del cm cdel, of ?cm' pol l n s]) (use that in auto)
  have run: "run_state (reconcileRules (storeReconciler pol l) n) c = ((requeueMinute, None), c')"
    using u ne by (simp add: run_rulesGuarded [OF assms(1) nofault p g] cm reconcileRulesData_def
        store_calls(1) data s t)
  let ?p' = "withRulesCondition l t'
           (mkCondition typeAvailableVillipRules ConditionTrue ''Reconciled'' ''ConfigMap updated'') p'"
  let ?cm = "?cm'\<lparr>configMapMeta := bump (configMapMeta cm)\<rparr>"
  have keys: "configMapKey ?p' = configMapKey p"
    using rules_key [OF f] rules_key [OF p] by simp
  have syn: "dataSynced l ?p' ?cm"
    by (rule dataSynced_written) (use keys in \<open>simp_all add: p' data\<close>)
  have g': "rulesGuarded ?p'"
    using g p' by (simp add: rulesGuarded_def libLaws_set_nonempty [OF assms(1)])
  have "rulesPhase l c' n = Synced" by (rule rulesPhase_synced [OF f g' fcm syn])
  moreover have "healthyRules l n c'" using f fcm rest data cdel p' by (simp add: healthyRules_def)
  moreover have "keepsRules n c c'" using f p rest p' by (simp add: keepsRules_def)
  moreover have "recorded l c' n"
    by (rule recordedI [OF assms(1) f fcm, where data = data])
       (use s in \<open>simp_all add: p' data rules_key [OF p]\<close>)
  ultimately show ?thesis using run assms(3) by (auto simp: rulesPassTo_def)
qed


section \<open>The control loop\<close>

lemma healthyRules_phases:
  assumes "healthyRules l n c"
  shows "rulesPhase l c n \<noteq> RulesAbsent" and "rulesPhase l c n \<noteq> RulesDeleting"
  using assms by (auto simp: healthyRules_def rulesPhase_def split: option.splits)

lemma rules_one_pass:
  assumes "libLaws l" and "healthyRules l n c"
  shows "\<exists>res c'. rulesPassTo pol l n c res c' \<and>
    (rulesPhase l c n \<in> {Unrendered, Stale} \<longrightarrow> recorded l c' n) \<and>
    (rulesPhase l c n = Synced \<longrightarrow> c' = c)"
  using healthyRules_phases [OF assms(2)] rules_pass_Unstatused [OF assms, of pol]
    rules_pass_Unguarded [OF assms, of pol] rules_pass_Unrendered [OF assms, of pol]
    rules_pass_Stale [OF assms, of pol] rules_pass_Synced [OF assms, of pol]
  by (cases "rulesPhase l c n") (simp_all; blast)+

primrec rulesPasses :: "'w reconciler \<Rightarrow> namespacedName \<Rightarrow> nat \<Rightarrow> 'w \<Rightarrow> 'w" where
  "rulesPasses r n 0 w = w"
| "rulesPasses r n (Suc k) w = snd (run_state (reconcileRules r n) (rulesPasses r n k w))"

lemma rulesPasses_transfer:
  assumes "behavesLike \<alpha> pol r"
  shows "\<alpha> (rulesPasses r n k w) = rulesPasses (storeReconciler pol (lib r)) n k (\<alpha> w)"
  using simulates_run [OF transfer_reconcileRules [OF assms]] by (induction k) simp_all

text \<open>One pass on the reference server.\<close>

definition rulesPassOn :: "policy \<Rightarrow> lib \<Rightarrow> namespacedName \<Rightarrow> cluster \<Rightarrow> cluster" where
  "rulesPassOn pol l n c = snd (run_state (reconcileRules (storeReconciler pol l) n) c)"

lemma rulesPasses_funpow: "rulesPasses (storeReconciler pol l) n k c = (rulesPassOn pol l n ^^ k) c"
  by (induction k) (simp_all add: rulesPassOn_def)

lemma rulesPassOn_step:
  assumes "libLaws l" and "healthyRules l n c"
  shows "healthyRules l n (rulesPassOn pol l n c)" and "keepsRules n c (rulesPassOn pol l n c)"
    and "rulesStep (rulesPhase l c n) (rulesPhase l (rulesPassOn pol l n c) n)"
  using rules_one_pass [OF assms, of pol] by (auto simp: rulesPassTo_def rulesPassOn_def)

interpretation rulesLoop: ranked_loop "rulesPassOn pol l n" "\<lambda>c. libLaws l \<and> healthyRules l n c" "keepsRules n"
    "\<lambda>c. rulesRank (rulesPhase l c n)" "\<lambda>c. rulesPhase l c n = Synced" for pol l n
proof
  fix c
  assume c: "libLaws l \<and> healthyRules l n c"
  then have step: "rulesStep (rulesPhase l c n) (rulesPhase l (rulesPassOn pol l n c) n)"
    using rulesPassOn_step by blast
  show "libLaws l \<and> healthyRules l n (rulesPassOn pol l n c)"
    and "keepsRules n c (rulesPassOn pol l n c)"
    using c rulesPassOn_step by blast+
  show "rulesPhase l c n = Synced \<Longrightarrow> rulesPhase l (rulesPassOn pol l n c) n = Synced"
    using step by simp
  show "rulesPhase l c n \<noteq> Synced \<Longrightarrow>
      rulesRank (rulesPhase l (rulesPassOn pol l n c) n) < rulesRank (rulesPhase l c n)"
    using step by (intro rulesStep_rank)
qed (simp_all add: keepsRules_def)

lemma rulesPasses_inv:
  assumes "libLaws l" and "healthyRules l n c"
  shows "healthyRules l n (rulesPasses (storeReconciler pol l) n k c)"
    and "keepsRules n c (rulesPasses (storeReconciler pol l) n k c)"
  using rulesLoop.passes_inv [of l n c k pol] assms by (simp_all add: rulesPasses_funpow)

lemma synced_after_3:
  assumes "libLaws l" and "healthyRules l n c" and "3 \<le> k"
  shows "rulesPhase l (rulesPasses (storeReconciler pol l) n k c) n = Synced"
proof -
  have "rulesRank q \<le> 3" for q by (cases q) simp_all
  then have "rulesRank (rulesPhase l c n) \<le> k" using assms(3) order_trans by blast
  with assms(1,2) show ?thesis by (simp add: rulesPasses_funpow rulesLoop.settles)
qed

end
