(* ===== verification/Rules_Loop.thy ===== *)
theory Rules_Loop
  imports Rules_Convergence Example_Cluster
begin

text \<open>
  The properties of the rules reconciler as a control loop, for every client that behaves like
  the reference server, and of the rollout it triggers.
\<close>

section \<open>Convergence\<close>

lemma example_healthyRules: "healthyRules exampleLib (exampleKey ''tcpexample'') exampleCluster"
proof -
  have "findObj configMapMeta (exampleKey ''tcpexample'') (clConfigMaps exampleCluster) = Some exampleConfigMap"
    by (simp add: findObj_def exampleCluster_def exampleConfigMap_def example_simps exampleKey_def keyOf_def)
  moreover have "metaDeletionTimestamp (configMapMeta exampleConfigMap) = None"
    by (simp add: exampleConfigMap_def example_simps)
  moreover have "\<exists>data. yamlMarshal exampleLib (rulesSpec exampleRule) = Inr data"
    by (simp add: exampleLib_def)
  moreover have "metaDeletionTimestamp (rulesMeta exampleRule) = None" "clFaults exampleCluster = []"
    by (simp_all add: example_simps exampleCluster_def)
  ultimately show ?thesis by (simp add: healthyRules_def example_findRule)
qed

text \<open>C7: the rules loop converges.  From any healthy cluster, after three passes and for ever
  after, the ConfigMap of the rule exists and the entry the operator owns has the checksum of
  the rendered rule, a pass reports no error, and a further pass writes nothing at all.\<close>

theorem rules_converge:
  assumes "behavesLike \<alpha> pol r" and "libLaws (lib r)" and "healthyRules (lib r) n (\<alpha> w)" and "3 \<le> k"
  shows "let c = \<alpha> (rulesPasses r n k w) in
    (\<exists>p cm data. findObj rulesMeta n (clRules c) = Some p \<and>
       findObj configMapMeta n (clConfigMaps c) = Some cm \<and>
       yamlMarshal (lib r) (rulesSpec p) = Inr data \<and>
       sumVillipRulesData (dataAt (configMapData cm) (configMapKey p)) = sumVillipRulesData data) \<and>
    keepsRules n (\<alpha> w) c \<and>
    fst (run_state (reconcileRules r n) (rulesPasses r n k w)) = (requeueMinute, None) \<and>
    \<alpha> (rulesPasses r n (Suc k) w) = c"
proof -
  let ?s = "storeReconciler pol (lib r)"
  let ?c = "rulesPasses ?s n k (\<alpha> w)"
  have eq: "\<alpha> (rulesPasses r n j w) = rulesPasses ?s n j (\<alpha> w)" for j
    by (rule rulesPasses_transfer [OF assms(1)])
  have ph: "rulesPhase (lib r) ?c n = Synced" by (rule synced_after_3 [OF assms(2-4)])
  have inv: "healthyRules (lib r) n ?c" "keepsRules n (\<alpha> w) ?c"
    using rulesPasses_inv [OF assms(2,3)] by blast+
  have run: "run_state (reconcileRules ?s n) ?c = ((requeueMinute, None), ?c)"
    using rules_pass_Synced [OF assms(2) inv(1) ph] by (simp add: rulesPassTo_def)
  then have "fst (run_state (reconcileRules r n) (rulesPasses r n k w)) = (requeueMinute, None)"
    using simulates_run [OF transfer_reconcileRules [OF assms(1)], of n "rulesPasses r n k w"] by (simp add: eq)
  moreover have "\<alpha> (rulesPasses r n (Suc k) w) = ?c" using run eq [of "Suc k"] by simp
  moreover have "\<exists>p cm data. findObj rulesMeta n (clRules ?c) = Some p \<and>
       findObj configMapMeta n (clConfigMaps ?c) = Some cm \<and>
       yamlMarshal (lib r) (rulesSpec p) = Inr data \<and>
       sumVillipRulesData (dataAt (configMapData cm) (configMapKey p)) = sumVillipRulesData data"
    using ph by (auto simp: rulesPhase_def dataSynced_def split: option.splits if_splits sum.splits)
  ultimately show ?thesis using inv(2) by (simp add: eq Let_def)
qed

lemma rules_converge_witness:
  "fst (run_state (reconcileRules exampleReconciler (exampleKey ''tcpexample''))
     (rulesPasses exampleReconciler (exampleKey ''tcpexample'') 3 exampleCluster)) = (requeueMinute, None)"
  using rules_converge [OF behavesLike_store [of examplePolicy exampleLib], of "exampleKey ''tcpexample''" exampleCluster 3]
    exampleLib_laws example_healthyRules
  by (simp add: store_calls(1) Let_def)

text \<open>C11: when the ConfigMap is missing or has another checksum, one pass writes it: afterwards it
  holds exactly the rendered rule under \<open><name>.yml\<close>, the checksum of that document is in
  the status, and the condition \<open>Available\<close> is true with reason \<open>Reconciled\<close>.\<close>

theorem rules_pass_writes:
  assumes "behavesLike \<alpha> pol r" and "libLaws (lib r)" and "healthyRules (lib r) n (\<alpha> w)"
    and "rulesPhase (lib r) (\<alpha> w) n \<in> {Unrendered, Stale}"
  shows "\<exists>res w' p cm data av msg. run_state (reconcileRules r n) w = ((res, None), w') \<and>
    findObj rulesMeta n (clRules (\<alpha> w')) = Some p \<and>
    findObj configMapMeta n (clConfigMaps (\<alpha> w')) = Some cm \<and>
    yamlMarshal (lib r) (rulesSpec p) = Inr data \<and>
    configMapData cm = [nnName n @ ''.yml'' \<mapsto> data] \<and>
    sumVillipRulesData data = Inr (lastSum (rulesStatus p)) \<and>
    conditionOf typeAvailableVillipRules (rulesConditions (rulesStatus p)) = Some av \<and>
    sameVerdict av (mkCondition typeAvailableVillipRules ConditionTrue ''Reconciled'' msg)"
proof -
  obtain res c' where st: "rulesPassTo pol (lib r) n (\<alpha> w) res c'" and rec: "recorded (lib r) c' n"
    using rules_one_pass [OF assms(2,3)] assms(4) by blast
  obtain w' where "run_state (reconcileRules r n) w = ((res, None), w')" "\<alpha> w' = c'"
    using simulates_run [OF transfer_reconcileRules [OF assms(1)], of n w] st
    by (cases "run_state (reconcileRules r n) w") (simp add: rulesPassTo_def)
  with rec show ?thesis by (auto simp: recorded_def)
qed

text \<open>A rule whose ConfigMap is still missing.\<close>

definition readyRule :: villipRules where
  "readyRule = exampleRule
     \<lparr>rulesMeta := (exampleMeta ''tcpexample'')\<lparr>metaFinalizers := [villiprulesFinalizer]\<rparr>,
      rulesStatus := \<lparr>rulesConditions = [mkCondition typeAvailableVillipRules ConditionUnknown ''Reconciling'' ''''],
        lastSum = ''''\<rparr>\<rparr>"

definition readyCluster :: cluster where
  "readyCluster = exampleCluster\<lparr>clRules := [readyRule], clConfigMaps := []\<rparr>"

lemma ready_find:
  "findObj rulesMeta (exampleKey ''tcpexample'') (clRules readyCluster) = Some readyRule"
  "findObj configMapMeta n (clConfigMaps readyCluster) = None"
  by (simp_all add: findObj_def readyCluster_def readyRule_def example_simps exampleKey_def keyOf_def)

lemma ready_healthy: "healthyRules exampleLib (exampleKey ''tcpexample'') readyCluster"
  by (simp add: healthyRules_def ready_find)
     (simp add: readyCluster_def exampleCluster_def readyRule_def example_simps exampleLib_def)

lemma ready_phase: "rulesPhase exampleLib readyCluster (exampleKey ''tcpexample'') = Unrendered"
  by (simp add: rulesPhase_def ready_find) (simp add: readyRule_def example_simps)

lemma rules_pass_writes_witness:
  "\<exists>w' cm. snd (run_state (reconcileRules exampleReconciler (exampleKey ''tcpexample'')) readyCluster) = w' \<and>
    findObj configMapMeta (exampleKey ''tcpexample'') (clConfigMaps w') = Some cm \<and>
    configMapData cm = [''tcpexample.yml'' \<mapsto> ''type: tcp'']"
proof -
  obtain res w' p cm data where w': "run_state (reconcileRules exampleReconciler (exampleKey ''tcpexample''))
      readyCluster = ((res, None), w')"
    and cm: "findObj configMapMeta (exampleKey ''tcpexample'') (clConfigMaps w') = Some cm"
      "configMapData cm = [nnName (exampleKey ''tcpexample'') @ ''.yml'' \<mapsto> data]"
    and p: "findObj rulesMeta (exampleKey ''tcpexample'') (clRules w') = Some p"
      "yamlMarshal exampleLib (rulesSpec p) = Inr data"
    using rules_pass_writes [OF behavesLike_store [of examplePolicy exampleLib], of "exampleKey ''tcpexample''" readyCluster]
      exampleLib_laws ready_healthy ready_phase
    by (auto simp: store_calls(1))
  have "keepsRules (exampleKey ''tcpexample'') readyCluster w'"
    using rules_one_pass [OF exampleLib_laws ready_healthy, of examplePolicy] w' by (auto simp: rulesPassTo_def)
  then have "rulesSpec p = rulesSpec readyRule" using p(1) by (simp add: keepsRules_def ready_find)
  then have "data = ''type: tcp''"
    using p(2) by (simp add: exampleLib_def readyRule_def exampleRule_def)
  with w' cm show ?thesis by (simp add: exampleKey_def)
qed

section \<open>Rollouts\<close>

text \<open>What a rollout over a selection of the stored Deployments does to each stored one.\<close>

lemma rollout_selection:
  assumes "clFaults c = []" and "reloadable pol"
    and "distinct (map (\<lambda>d. keyOf (deploymentMeta d)) (clDeployments c))"
    and "\<And>d. d \<in> set (clDeployments c) \<Longrightarrow> P d \<Longrightarrow> storedDeployment d"
  shows "\<exists>c'. run_state (rolloutDeployments (storeReconciler pol l) name (filter P (clDeployments c))) c = ((), c') \<and>
    (\<forall>d \<in> set (clDeployments c).
      \<exists>d'. findObj deploymentMeta (keyOf (deploymentMeta d)) (clDeployments c') = Some d' \<and>
        (if P d \<and> dependsOn name d then reloaded d d' else d' = d)) \<and>
    (\<forall>m. findObj deploymentMeta m (clDeployments c) = None \<longrightarrow> findObj deploymentMeta m (clDeployments c') = None)"
proof -
  let ?ds = "filter P (clDeployments c)"
  have found: "findObj deploymentMeta (keyOf (deploymentMeta d)) (clDeployments c) = Some d"
    if "d \<in> set (clDeployments c)" for d
    using findObj_distinct [OF assms(3) that] .
  have dist: "distinct (map (\<lambda>d. keyOf (deploymentMeta d)) ?ds)"
    using assms(3) by (simp add: distinct_map_filter)
  obtain c' where run: "run_state (rolloutDeployments (storeReconciler pol l) name ?ds) c = ((), c')"
    and hit: "\<And>d. d \<in> set ?ds \<Longrightarrow> \<exists>d'. findObj deploymentMeta (keyOf (deploymentMeta d)) (clDeployments c') = Some d' \<and>
       (if dependsOn name d then reloaded d d' else d' = d)"
    and miss: "\<And>m. m \<notin> (\<lambda>d. keyOf (deploymentMeta d)) ` set ?ds \<Longrightarrow>
       findObj deploymentMeta m (clDeployments c') = findObj deploymentMeta m (clDeployments c)"
    using rolloutDeployments_effect [OF assms(1,2) dist, of l name] found assms(4) by force
  have "\<exists>d'. findObj deploymentMeta (keyOf (deploymentMeta d)) (clDeployments c') = Some d' \<and>
      (if P d \<and> dependsOn name d then reloaded d d' else d' = d)" if d: "d \<in> set (clDeployments c)" for d
  proof (cases "P d")
    case True
    then show ?thesis using hit [of d] d by simp
  next
    case False
    then have "keyOf (deploymentMeta d) \<notin> (\<lambda>d. keyOf (deploymentMeta d)) ` set ?ds"
      using found [OF d] found by force
    then show ?thesis using miss found [OF d] False by simp
  qed
  moreover have "findObj deploymentMeta m (clDeployments c') = None" if "findObj deploymentMeta m (clDeployments c) = None" for m
  proof -
    have "m \<notin> (\<lambda>d. keyOf (deploymentMeta d)) ` set ?ds" using found that by auto
    then show ?thesis using miss that by simp
  qed
  ultimately show ?thesis using run by blast
qed

text \<open>An equality-based label selector, given as text, selects the objects with that label.\<close>

definition equalitySelectors :: "policy \<Rightarrow> bool" where
  "equalitySelectors pol \<longleftrightarrow>
     (\<forall>k v d. labelKey k \<and> labelValue v \<longrightarrow>
        selectDeployment pol (k @ ''='' @ v) d = (metaLabels (deploymentMeta d) k = Some v))"

text \<open>The Deployments a change of the rule restarts.\<close>

definition mustReload :: "string \<Rightarrow> string \<Rightarrow> deployment \<Rightarrow> bool" where
  "mustReload ns name d \<longleftrightarrow>
     metaNamespace (deploymentMeta d) = ns \<and>
     metaLabels (deploymentMeta d) ''app.kubernetes.io/managed-by'' = Some ''VillipProxyController'' \<and>
     dependsOn name d"

lemma managed_selector:
  assumes "equalitySelectors pol"
  shows "selectDeployment pol ''app.kubernetes.io/managed-by=VillipProxyController'' d \<longleftrightarrow>
    metaLabels (deploymentMeta d) ''app.kubernetes.io/managed-by'' = Some ''VillipProxyController''"
proof -
  have "labelKey ''app.kubernetes.io/managed-by''" "labelValue ''VillipProxyController''"
    by (simp_all add: labelKey_def dnsSubdomain_def name_defs)
  then have "selectDeployment pol (''app.kubernetes.io/managed-by'' @ ''='' @ ''VillipProxyController'') d =
      (metaLabels (deploymentMeta d) ''app.kubernetes.io/managed-by'' = Some ''VillipProxyController'')"
    using assms unfolding equalitySelectors_def by blast
  then show ?thesis by simp
qed

text \<open>C12: a rollout hits exactly the dependent Deployments that carry the operator's own managed-by
  label.  Of the stored Deployments, those in the namespace of the rule whose label
  \<open>app.kubernetes.io/managed-by\<close> is \<open>VillipProxyController\<close> and whose annotation lists the
  rule come back with a pod template whose annotations are a fresh reload stamp and nothing
  else changed but the resource version.  Every other Deployment is as it was, also one that
  mounts the rule but carries another managed-by label, as a label of the proxy of that name
  brings about; no Deployment appears, and no proxy, rule, Service, ConfigMap or event changes.
  (No request fails, the server admits what is valid, the Deployments to restart are valid.)\<close>

theorem rollout_exact:
  assumes "behavesLike \<alpha> pol r" and "clFaults (\<alpha> w) = []" and "reloadable pol" and "equalitySelectors pol"
    and "distinct (map (\<lambda>d. keyOf (deploymentMeta d)) (clDeployments (\<alpha> w)))"
    and "\<And>d. d \<in> set (clDeployments (\<alpha> w)) \<Longrightarrow>
      metaLabels (deploymentMeta d) ''app.kubernetes.io/managed-by'' = Some ''VillipProxyController'' \<Longrightarrow>
      storedDeployment d"
  shows "\<exists>w'. run_state (rolloutDependentProxies r ns name) w = (None, w') \<and>
    (\<forall>d. d \<in> set (clDeployments (\<alpha> w)) \<longrightarrow>
      (\<exists>d'. findObj deploymentMeta (keyOf (deploymentMeta d)) (clDeployments (\<alpha> w')) = Some d' \<and>
        (if mustReload ns name d then reloaded d d' else d' = d))) \<and>
    (\<forall>m. findObj deploymentMeta m (clDeployments (\<alpha> w)) = None \<longrightarrow>
      findObj deploymentMeta m (clDeployments (\<alpha> w')) = None) \<and>
    clProxies (\<alpha> w') = clProxies (\<alpha> w) \<and> clRules (\<alpha> w') = clRules (\<alpha> w) \<and>
    clServices (\<alpha> w') = clServices (\<alpha> w) \<and> clConfigMaps (\<alpha> w') = clConfigMaps (\<alpha> w) \<and>
    clEvents (\<alpha> w') = clEvents (\<alpha> w)"
proof -
  let ?s = "storeReconciler pol (lib r)"
  let ?P = "\<lambda>d. metaNamespace (deploymentMeta d) = ns \<and>
      metaLabels (deploymentMeta d) ''app.kubernetes.io/managed-by'' = Some ''VillipProxyController''"
  obtain c' where run: "run_state (rolloutDeployments ?s name (filter ?P (clDeployments (\<alpha> w)))) (\<alpha> w) = ((), c')"
    and all: "\<forall>d \<in> set (clDeployments (\<alpha> w)).
      \<exists>d'. findObj deploymentMeta (keyOf (deploymentMeta d)) (clDeployments c') = Some d' \<and>
        (if ?P d \<and> dependsOn name d then reloaded d d' else d' = d)"
    and none: "\<forall>m. findObj deploymentMeta m (clDeployments (\<alpha> w)) = None \<longrightarrow>
      findObj deploymentMeta m (clDeployments c') = None"
    using rollout_selection [OF assms(2,3,5), of ?P "lib r" name] assms(6) by blast
  have "run_state (rolloutDependentProxies ?s ns name) (\<alpha> w) = (None, c')"
    using run by (simp add: rolloutDependentProxies_def selectDeployments_def managed_selector [OF assms(4)]
        run_simps store_calls run_serve assms(2))
  moreover have same: "sameButDeployments (\<alpha> w) c'"
    using rolloutDependentProxies_same [OF assms(2), of pol "lib r" ns name] calculation by auto
  ultimately obtain w' where w': "run_state (rolloutDependentProxies r ns name) w = (None, w')" "\<alpha> w' = c'"
    using simulates_run [OF transfer_rolloutDependentProxies [OF assms(1)], of ns name w]
    by (cases "run_state (rolloutDependentProxies r ns name) w") simp
  show ?thesis
  proof (intro exI [of _ w'] conjI allI impI)
    fix d
    assume "d \<in> set (clDeployments (\<alpha> w))"
    then show "\<exists>d'. findObj deploymentMeta (keyOf (deploymentMeta d)) (clDeployments (\<alpha> w')) = Some d' \<and>
        (if mustReload ns name d then reloaded d d' else d' = d)"
      using all by (simp add: w' mustReload_def conj_assoc)
  qed (use none in \<open>simp_all add: w' sameButDeployments_sel [OF same]\<close>)
qed

subsection \<open>Two Deployments that mount the same rule\<close>

text \<open>A server with validation, real selectors and a short clock.\<close>

definition labelPolicy :: policy where
  "labelPolicy = examplePolicy
     \<lparr>admitDeployment := (\<lambda>d. if validDeployment d then None
        else Some (errInvalid examplePolicy ''Deployment'' (keyOf (deploymentMeta d)))),
      selectDeployment := (\<lambda>sel d. metaLabels (deploymentMeta d) (takeWhile (\<lambda>x. x \<noteq> CHR ''='') sel) =
        Some (drop 1 (dropWhile (\<lambda>x. x \<noteq> CHR ''='') sel))),
      clockString := (\<lambda>i. ''2026-01-01 00:00:00 UTC'')\<rparr>"

lemma qualifiedPart_chars: "qualifiedPart n \<Longrightarrow> CHR ''='' \<notin> set n"
proof -
  have "CHR ''='' \<notin> letters \<union> digits \<union> set ''-_.''" by (simp add: name_defs)
  then show "qualifiedPart n \<Longrightarrow> CHR ''='' \<notin> set n" unfolding qualifiedPart_def by blast
qed

lemma splitString_kept: "x \<in> set s \<Longrightarrow> x \<noteq> c \<Longrightarrow> \<exists>p \<in> set (splitString c s). x \<in> set p"
proof (induction s)
  case (Cons y s)
  then show ?case by (cases "splitString c s") auto
qed simp

lemma dnsSubdomain_chars: "dnsSubdomain n \<Longrightarrow> CHR ''='' \<notin> set n"
proof
  assume n: "dnsSubdomain n" "CHR ''='' \<in> set n"
  then obtain p where p: "p \<in> set (splitString CHR ''.'' n)" "CHR ''='' \<in> set p"
    using splitString_kept [of "CHR ''=''" n "CHR ''.''"] by auto
  have "CHR ''='' \<notin> insert CHR ''-'' lowerAlnum" by (simp add: name_defs)
  moreover have "set p \<subseteq> insert CHR ''-'' lowerAlnum" using n(1) p(1) by (simp add: dnsSubdomain_def dnsPart_def)
  ultimately show False using p(2) by blast
qed

lemma labelKey_chars: "labelKey k \<Longrightarrow> CHR ''='' \<notin> set k"
proof
  assume k: "labelKey k" "CHR ''='' \<in> set k"
  then obtain p where p: "p \<in> set (splitString CHR ''/'' k)" "CHR ''='' \<in> set p"
    using splitString_kept [of "CHR ''=''" k "CHR ''/''"] by auto
  then have "\<not> qualifiedPart p" "\<not> dnsSubdomain p" using qualifiedPart_chars dnsSubdomain_chars by blast+
  then show False using k(1) p(1) by (auto simp: labelKey_def split: list.splits)
qed

lemma labelPolicy_laws: "reloadable labelPolicy" "equalitySelectors labelPolicy"
proof -
  show "reloadable labelPolicy" by (simp add: reloadable_def labelPolicy_def)
  have "takeWhile (\<lambda>x. x \<noteq> CHR ''='') (k @ CHR ''='' # v) = k \<and>
      dropWhile (\<lambda>x. x \<noteq> CHR ''='') (k @ CHR ''='' # v) = CHR ''='' # v" if "labelKey k" for k v
  proof -
    have "\<forall>x \<in> set k. x \<noteq> CHR ''=''" using labelKey_chars [OF that] by blast
    then show ?thesis by (simp add: takeWhile_append2 dropWhile_append2)
  qed
  then show "equalitySelectors labelPolicy" by (simp add: equalitySelectors_def labelPolicy_def)
qed

definition dependentDeployment :: "string \<Rightarrow> string \<Rightarrow> deployment" where
  "dependentDeployment name manager =
     \<lparr>deploymentMeta = (exampleMeta name)
        \<lparr>metaLabels := [''app.kubernetes.io/managed-by'' \<mapsto> manager],
         metaAnnotations := [confAnnotation \<mapsto> ''tcpexample'']\<rparr>,
      deploymentSpec =
        \<lparr>deploymentReplicas = Some 2, deploymentMatchLabels = [''app.kubernetes.io/name'' \<mapsto> name],
         templateMeta = emptyMeta\<lparr>metaLabels := [''app.kubernetes.io/name'' \<mapsto> name]\<rparr>,
         templateSpec =
           \<lparr>podRunAsNonRoot = None, podSeccomp = None, podVolumes = [],
            podContainers =
              [\<lparr>containerImage = ''marema31/villip:latest'', containerName = ''villip'',
                containerPullPolicy = ''IfNotPresent'', containerSecurity = None, containerEnv = [],
                containerPorts = None, containerMounts = [], containerLiveness = None,
                containerReadiness = None\<rparr>]\<rparr>\<rparr>\<rparr>"

lemma dependent_sel:
  "deploymentMeta (dependentDeployment name manager) = (exampleMeta name)
     \<lparr>metaLabels := [''app.kubernetes.io/managed-by'' \<mapsto> manager],
      metaAnnotations := [confAnnotation \<mapsto> ''tcpexample'']\<rparr>"
  "keyOf (deploymentMeta (dependentDeployment name manager)) = exampleKey name"
  by (simp_all add: dependentDeployment_def exampleKey_def keyOf_def exampleMeta_def emptyMeta_def)

lemma dependentDeployment_stored:
  assumes "serviceName name" and "labelValue manager"
  shows "storedDeployment (dependentDeployment name manager)"
proof -
  have keys: "labelKey ''app.kubernetes.io/managed-by''" "labelKey ''app.kubernetes.io/name''" "labelKey confAnnotation"
    "dnsLabel ''default''" "dnsLabel ''villip''"
    by (simp_all add: labelKey_def dnsSubdomain_def name_defs confAnnotation_def)
  have name: "dnsSubdomain name" "labelValue name"
    using assms(1) by (simp_all add: serviceName_def dnsLabel_subdomain labelValue_dnsLabel)
  have "validMeta dnsSubdomain (deploymentMeta (dependentDeployment name manager))"
    using assms name keys by (simp add: dependent_sel validMeta_def validLabels_def validAnnotations_def exampleMeta_def
        emptyMeta_def confAnnotation_def)
  moreover have "validImage ''marema31/villip:latest''" by (simp add: validImage_def visible_def)
  ultimately have "validDeployment (dependentDeployment name manager)"
    using keys name
    by (simp add: validDeployment_def dependentDeployment_def validLabels_def validAnnotations_def emptyMeta_def
        validPod_def validContainer_def validPorts_def sliceList_def)
  then show ?thesis
    by (simp add: storedDeployment_def dependentDeployment_def encodeDeployment_def finalized_def exampleMeta_def emptyMeta_def)
qed

lemma rollout_exact_witness:
  "\<exists>w' d'. run_state (rolloutDependentProxies (storeReconciler labelPolicy exampleLib) ''default'' ''tcpexample'')
      (exampleCluster\<lparr>clDeployments := [dependentDeployment ''sample'' ''kustomize'',
        dependentDeployment ''villip'' ''VillipProxyController'']\<rparr>) = (None, w') \<and>
    findObj deploymentMeta (exampleKey ''sample'') (clDeployments w') = Some (dependentDeployment ''sample'' ''kustomize'') \<and>
    findObj deploymentMeta (exampleKey ''villip'') (clDeployments w') = Some d' \<and>
    reloaded (dependentDeployment ''villip'' ''VillipProxyController'') d'"
proof -
  let ?sample = "dependentDeployment ''sample'' ''kustomize''"
  let ?villip = "dependentDeployment ''villip'' ''VillipProxyController''"
  let ?c = "exampleCluster\<lparr>clDeployments := [?sample, ?villip]\<rparr>"
  have two: "clDeployments ?c = [?sample, ?villip]" and nofault: "clFaults ?c = []"
    by (simp_all add: exampleCluster_def)
  have "serviceName ''villip''" "labelValue ''VillipProxyController''"
    by (simp_all add: serviceName_def name_defs)
  then have stored: "storedDeployment ?villip" by (rule dependentDeployment_stored)
  have labels: "metaLabels (deploymentMeta ?sample) ''app.kubernetes.io/managed-by'' = Some ''kustomize''"
    by (simp add: dependent_sel)
  have must: "mustReload ''default'' ''tcpexample'' ?villip" "\<not> mustReload ''default'' ''tcpexample'' ?sample"
    by (simp_all add: mustReload_def dependent_sel dependsOn_def splitString_no_sep exampleMeta_def emptyMeta_def)
  have "exampleKey ''sample'' \<noteq> exampleKey ''villip''" by (simp add: exampleKey_def)
  then have dist: "distinct (map (\<lambda>d. keyOf (deploymentMeta d)) (clDeployments ?c))"
    by (simp add: two dependent_sel(2))
  note res = rollout_exact [OF behavesLike_store [of labelPolicy exampleLib], of ?c "''default''" "''tcpexample''",
      OF nofault labelPolicy_laws dist]
  have "\<And>d. d \<in> set (clDeployments ?c) \<Longrightarrow>
      metaLabels (deploymentMeta d) ''app.kubernetes.io/managed-by'' = Some ''VillipProxyController'' \<Longrightarrow>
      storedDeployment d"
    using stored labels by (auto simp: two)
  from res [OF this] obtain w' where
    "run_state (rolloutDependentProxies (storeReconciler labelPolicy exampleLib) ''default'' ''tcpexample'') ?c = (None, w')"
    and all: "\<forall>d. d \<in> set (clDeployments ?c) \<longrightarrow>
      (\<exists>d'. findObj deploymentMeta (keyOf (deploymentMeta d)) (clDeployments w') = Some d' \<and>
        (if mustReload ''default'' ''tcpexample'' d then reloaded d d' else d' = d))"
    by blast
  moreover have "findObj deploymentMeta (exampleKey ''sample'') (clDeployments w') = Some ?sample"
    using all must(2) unfolding two by (simp add: dependent_sel(2))
  moreover obtain d' where "findObj deploymentMeta (exampleKey ''villip'') (clDeployments w') = Some d'" "reloaded ?villip d'"
    using all must(1) unfolding two by (auto simp: dependent_sel(2))
  ultimately show ?thesis by blast
qed

end
