(* ===== verification/Store_Frame.thy ===== *)
theory Store_Frame
  imports Store_Run Store_Transfer
begin

text \<open>
  What a pass may touch on the reference server, whatever requests fail: the objects of its own
  key.  \<open>proxyFrame n\<close> and \<open>rulesFrame n\<close> relate two states of the cluster; every
  operation of the reconcilers stays within them, by the rules of \<open>steers\<close>.
\<close>

section \<open>Requests\<close>

lemma steers_serve:
  assumes "preorderly R"
    and "\<And>c fs. length fs \<le> length (clFaults c) \<Longrightarrow> R c (c\<lparr>clFaults := fs\<rparr>)"
    and "\<And>c. R c (snd (f c)) \<and> Q (fst (f c))" and "\<And>e. Q (Inl e)"
  shows "steers R Q (serve f)"
  unfolding steers_def
proof
  fix c
  have "R c (snd (f (c\<lparr>clFaults := fs\<rparr>)))" if "length fs \<le> length (clFaults c)" for fs
    using that assms(1,2,3) unfolding preorderly_def by blast
  then show "R c (snd (run_state (serve f) c)) \<and> Q (fst (run_state (serve f) c))"
    using assms by (simp add: serve_def split: list.split option.split)
qed

text \<open>
  The two contracts of a relation between states of the cluster that the requests of a
  computation respect: consuming scheduled failures is always within it; for the frames, so are
  the clock and the events.
\<close>

locale fault_frame =
  fixes R :: "cluster \<Rightarrow> cluster \<Rightarrow> bool"
  assumes pre: "preorderly R"
    and faults: "length fs \<le> length (clFaults c) \<Longrightarrow> R c (c\<lparr>clFaults := fs\<rparr>)"
begin

lemmas bind = steers_bind [OF pre]
lemmas ret = steers_ret [OF pre]
lemmas serve = steers_serve [OF pre faults]

lemma reading:
  assumes "\<And>c. Q (g c)" and "\<And>e. Q (Inl e)"
  shows "steers R Q (serve (\<lambda>c. (g c, c)))"
  by (rule serve) (use assms pre in \<open>simp_all add: preorderly_def\<close>)

lemma listing:
  "steers R (\<lambda>_. True) (apiListConfigMaps (storeReconciler pol l) ns sel)"
  "steers R (\<lambda>_. True) (apiListDeployments (storeReconciler pol l) ns sel')"
  by (simp_all add: store_calls reading)

end

locale request_frame = fault_frame +
  assumes clock: "R c (c\<lparr>clClock := t\<rparr>)" and events: "R c (c\<lparr>clEvents := es\<rparr>)"
begin

lemma ticking:
  "steers R (\<lambda>_. True) (timeNow (storeReconciler pol l))"
  "steers R (\<lambda>_. True) (timeNowString (storeReconciler pol l))"
  "steers R (\<lambda>_. True) (recordEvent (storeReconciler pol l) m t y z)"
  by (simp_all add: store_calls steers_def clock events)

end

text \<open>Agreement of two object lists away from a key.\<close>

definition sameAway :: "('a \<Rightarrow> objectMeta) \<Rightarrow> namespacedName \<Rightarrow> 'a list \<Rightarrow> 'a list \<Rightarrow> bool" where
  "sameAway meta n xs ys \<longleftrightarrow>
     filter (\<lambda>x. keyOf (meta x) \<noteq> n) ys = filter (\<lambda>x. keyOf (meta x) \<noteq> n) xs"

lemma sameAway_refl [simp]: "sameAway meta n xs xs"
  by (simp add: sameAway_def)

lemma sameAway_trans: "sameAway meta n xs ys \<Longrightarrow> sameAway meta n ys zs \<Longrightarrow> sameAway meta n xs zs"
  by (simp add: sameAway_def)

lemma sameAway_replace: "keyOf (meta x) = n \<Longrightarrow> sameAway meta n xs (replaceObj meta x xs)"
  by (induction xs) (auto simp: sameAway_def replaceObj_def)

lemma sameAway_remove: "sameAway meta n xs (removeObj meta n xs)"
  by (induction xs) (auto simp: sameAway_def removeObj_def)

lemma sameAway_write: "keyOf (meta x) = n \<Longrightarrow> sameAway meta n xs (writeObj meta x xs)"
  by (auto simp: writeObj_def sameAway_replace sameAway_remove)

lemma sameAway_snoc: "keyOf (meta x) = n \<Longrightarrow> sameAway meta n xs (xs @ [x])"
  by (simp add: sameAway_def)

lemma sameAway_find:
  "sameAway meta n xs ys \<Longrightarrow> m \<noteq> n \<Longrightarrow> findObj meta m ys = findObj meta m xs"
proof -
  have f: "findObj meta m zs = findObj meta m (filter (\<lambda>x. keyOf (meta x) \<noteq> n) zs)" if "m \<noteq> n" for zs
    using that by (induction zs) (auto simp: findObj_def)
  assume "sameAway meta n xs ys" "m \<noteq> n"
  then show ?thesis by (simp add: f [of xs] f [of ys] sameAway_def)
qed

section \<open>The proxy controller\<close>

definition proxyFrame :: "namespacedName \<Rightarrow> cluster \<Rightarrow> cluster \<Rightarrow> bool" where
  "proxyFrame n c c' \<longleftrightarrow>
     sameAway proxyMeta n (clProxies c) (clProxies c') \<and>
     sameAway deploymentMeta n (clDeployments c) (clDeployments c') \<and>
     sameAway serviceMeta n (clServices c) (clServices c') \<and>
     clRules c' = clRules c \<and> clConfigMaps c' = clConfigMaps c \<and>
     length (clFaults c') \<le> length (clFaults c)"

interpretation proxyFr: request_frame "proxyFrame n" for n
proof
  show "preorderly (proxyFrame n)"
    unfolding preorderly_def proxyFrame_def by (auto intro: sameAway_trans order_trans)
qed (simp_all add: proxyFrame_def)

lemmas proxy_bind = proxyFr.bind
lemmas proxy_ret [steers_intros] = proxyFr.ret
lemmas proxy_serve = proxyFr.serve

lemma proxyFrame_refl [simp]: "proxyFrame n c c"
  by (simp add: proxyFrame_def)

text \<open>Results that carry an object of the key.\<close>

definition atKey :: "('a \<Rightarrow> objectMeta) \<Rightarrow> namespacedName \<Rightarrow> goError + 'a \<Rightarrow> bool" where
  "atKey meta n x \<longleftrightarrow> (\<forall>y. x = Inr y \<longrightarrow> keyOf (meta y) = n)"

lemma atKey_simps [simp]: "atKey meta n (Inl e)" "atKey meta n (Inr y) \<longleftrightarrow> keyOf (meta y) = n"
  by (simp_all add: atKey_def)

lemma atKey_found [simp]: "atKey meta n (found pol k n (findObj meta n xs))"
  by (auto simp: found_def atKey_def dest: findObj_key split: option.splits)

named_theorems proxy_frame

lemma frame_getProxy [proxy_frame]:
  "steers (proxyFrame n) (atKey proxyMeta n) (apiGetProxy (storeReconciler pol l) n)"
  by (simp add: store_calls proxyFr.reading)

lemma frame_getDeployment [proxy_frame]:
  "steers (proxyFrame n) (atKey deploymentMeta n) (apiGetDeployment (storeReconciler pol l) n)"
  by (simp add: store_calls proxyFr.reading)

lemma frame_getService [proxy_frame]:
  "steers (proxyFrame n) (atKey serviceMeta n) (apiGetService (storeReconciler pol l) n)"
  by (simp add: store_calls proxyFr.reading)

lemmas frame_listConfigMaps [proxy_frame] = proxyFr.listing(1)
lemmas frame_timeNow [proxy_frame] = proxyFr.ticking(1)
lemmas frame_recordEvent [proxy_frame] = proxyFr.ticking(3)

lemma frame_updateProxy [proxy_frame]:
  assumes "keyOf (proxyMeta p) = n"
  shows "steers (proxyFrame n) (atKey proxyMeta n) (apiUpdateProxy (storeReconciler pol l) p)"
    and "steers (proxyFrame n) (atKey proxyMeta n) (apiUpdateProxyStatus (storeReconciler pol l) p)"
  using assms
  by (auto simp: store_calls storeUpdateProxy_def proxyFrame_def Let_def
      intro!: proxy_serve sameAway_write split: option.splits)
    (erule findObj_key)+

lemma frame_createDeployment [proxy_frame]:
  assumes "keyOf (deploymentMeta d) = n"
  shows "steers (proxyFrame n) (\<lambda>_. True) (apiCreateDeployment (storeReconciler pol l) d)"
  using assms
  by (auto simp: store_calls storeCreateDeployment_def proxyFrame_def Let_def encodeDeployment_def
      intro!: proxy_serve sameAway_snoc split: option.splits)

lemma frame_updateDeployment [proxy_frame]:
  assumes "keyOf (deploymentMeta d) = n"
  shows "steers (proxyFrame n) (atKey deploymentMeta n) (apiUpdateDeployment (storeReconciler pol l) d)"
  using assms
  by (auto simp: store_calls storeUpdateDeployment_def proxyFrame_def Let_def
      intro!: proxy_serve sameAway_write split: option.splits)

lemma frame_createService [proxy_frame]:
  assumes "keyOf (serviceMeta d) = n"
  shows "steers (proxyFrame n) (\<lambda>_. True) (apiCreateService (storeReconciler pol l) d)"
  using assms
  by (auto simp: store_calls storeCreateService_def proxyFrame_def Let_def encodeService_def
      intro!: proxy_serve sameAway_snoc split: option.splits)

lemma frame_updateService [proxy_frame]:
  assumes "keyOf (serviceMeta d) = n"
  shows "steers (proxyFrame n) (atKey serviceMeta n) (apiUpdateService (storeReconciler pol l) d)"
  using assms
  by (auto simp: store_calls storeUpdateService_def proxyFrame_def Let_def
      intro!: proxy_serve sameAway_write split: option.splits)


subsection \<open>Steps\<close>

text \<open>A pair whose second component is the proxy of the key.\<close>

definition proxyAt :: "namespacedName \<Rightarrow> 'a \<times> villipProxy \<Rightarrow> bool" where
  "proxyAt n x \<longleftrightarrow> keyOf (proxyMeta (snd x)) = n"

lemma proxyAt_simps [simp]: "proxyAt n (e, p) \<longleftrightarrow> keyOf (proxyMeta p) = n"
  by (simp add: proxyAt_def)

lemma frame_setProxyStatus [proxy_frame]:
  assumes "keyOf (proxyMeta p) = n"
  shows "steers (proxyFrame n) (proxyAt n) (setProxyStatus (storeReconciler pol l) p cond)"
  unfolding setProxyStatus_def setProxyCondition_def
  by (intro proxy_bind [OF proxy_bind [OF frame_timeNow proxy_ret [of "\<lambda>p. keyOf (proxyMeta p) = n"]]]
        proxy_bind [OF frame_updateProxy(2)] steers_intros)
     (simp_all add: assms)

lemma frame_deploymentUpdate [proxy_frame]:
  assumes "keyOf (proxyMeta p) = n" and "keyOf (deploymentMeta d) = n"
  shows "steers (proxyFrame n) (\<lambda>x. keyOf (proxyMeta (fst (snd x))) = n)
    (deploymentUpdate (storeReconciler pol l) n p d)"
  unfolding deploymentUpdate_def
  by (intro proxy_bind [OF frame_updateDeployment] proxy_bind [OF frame_getProxy]
        proxy_bind [OF frame_setProxyStatus] steers_intros)
     (simp_all add: assms)

lemma frame_serviceUpdate [proxy_frame]:
  assumes "keyOf (proxyMeta p) = n" and "keyOf (serviceMeta d) = n"
  shows "steers (proxyFrame n) (\<lambda>_. True) (serviceUpdate (storeReconciler pol l) n p d)"
  unfolding serviceUpdate_def
  by (intro proxy_bind [OF frame_updateService] proxy_bind [OF frame_getProxy]
        proxy_bind [OF frame_setProxyStatus] steers_intros)
     (simp_all add: assms)

lemma frame_mountRulesets:
  "steers (proxyFrame n) (\<lambda>_. True) (mountRulesets (storeReconciler pol l) ns rss acc)"
proof (induction rss arbitrary: acc)
  case Nil
  show ?case by (simp add: proxy_ret)
next
  case (Cons rs rss)
  show ?case
    unfolding mountRulesets.simps
    by (intro proxy_bind [OF frame_listConfigMaps] steers_intros Cons.IH) simp_all
qed

lemma frame_mountsForVillipProxy [proxy_frame]:
  "steers (proxyFrame n) (\<lambda>_. True) (mountsForVillipProxy (storeReconciler pol l) rss ns)"
  unfolding mountsForVillipProxy_def
  by (intro proxy_bind [OF frame_mountRulesets] steers_intros) simp_all

lemma frame_collectNames:
  "steers (proxyFrame n) (\<lambda>_. True) (collectNames (storeReconciler pol l) ns rss acc)"
proof (induction rss arbitrary: acc)
  case Nil
  show ?case by (simp add: proxy_ret)
next
  case (Cons rs rss)
  show ?case
    unfolding collectNames.simps
    by (intro proxy_bind [OF frame_listConfigMaps] steers_intros Cons.IH) simp_all
qed

lemma frame_isRulesetsChanged [proxy_frame]:
  "steers (proxyFrame n) (\<lambda>_. True) (isRulesetsChanged (storeReconciler pol l) p d)"
  unfolding isRulesetsChanged_def
  by (intro proxy_bind [OF frame_collectNames] steers_intros) simp_all

text \<open>What \<open>SetControllerReference\<close> returns keeps the key.\<close>

lemma owner_key:
  assumes "libLaws l" and "setControllerReference l (ProxyOwner p) m = Inr m'"
    and "metaOwnerReferences m = []" and "metaNamespace m = metaNamespace (proxyMeta p)"
  shows "keyOf m' = keyOf m"
proof -
  obtain ref where "setControllerReference l (ProxyOwner p) m = Inr (m\<lparr>metaOwnerReferences := [ref]\<rparr>)"
    by (rule libLaws_owner [OF assms(1,3), of "ProxyOwner p"]) (use assms(4) in \<open>simp_all add: ownerMeta_def\<close>)
  with assms(2) have "m' = m\<lparr>metaOwnerReferences := [ref]\<rparr>" by simp
  then show ?thesis by (simp add: keyOf_def)
qed

lemma frame_deploymentForVillipProxy:
  assumes "libLaws l"
  shows "steers (proxyFrame n)
    (\<lambda>x. \<forall>d. x = Value (Inr d) \<longrightarrow> keyOf (deploymentMeta d) = keyOf (proxyMeta p))
    (deploymentForVillipProxy (storeReconciler pol l) p)"
proof -
  obtain ls where ls: "labelsForVillipProxy p = Value ls" using labels_value [of p] by blast
  have key: "keyOf m = keyOf (proxyMeta p)"
    if "setControllerReference l (ProxyOwner p) (deploymentMeta (deploymentObject l p ls vm vol ann)) = Inr m"
    for vm vol ann m
    using owner_key [OF assms that] by (simp add: deploymentObject_def emptyMeta_def keyOf_def)
  show ?thesis
    unfolding deploymentForVillipProxy_def ls outcome.case store_calls(1)
    by (intro proxy_bind [OF frame_mountsForVillipProxy] steers_intros) (auto dest: key)
qed

lemma frame_createDeployment_step [proxy_frame]:
  assumes "libLaws l" and "keyOf (proxyMeta p) = n"
  shows "steers (proxyFrame n) (\<lambda>_. True) (createDeployment (storeReconciler pol l) p)"
  unfolding createDeployment_def
  by (intro proxy_bind [OF frame_deploymentForVillipProxy [OF assms(1)]] proxy_bind [OF frame_createDeployment]
        proxy_bind [OF frame_setProxyStatus] steers_intros)
     (simp_all add: assms)

lemma frame_createService_step [proxy_frame]:
  assumes "libLaws l" and "keyOf (proxyMeta p) = n"
  shows "steers (proxyFrame n) (\<lambda>_. True) (createService (storeReconciler pol l) p)"
proof -
  have key: "keyOf (serviceMeta s) = n" if s: "serviceForVillipProxy (storeReconciler pol l) p = Inr s" for s
  proof -
    obtain m where m: "setControllerReference l (ProxyOwner p) (serviceMeta (serviceObject l p)) = Inr m"
      and "serviceMeta s = m"
      using s by (auto simp: serviceForVillipProxy_def store_calls(1) Let_def split: sum.splits)
    moreover have "keyOf m = keyOf (serviceMeta (serviceObject l p))"
      by (rule owner_key [OF assms(1) m]) (simp_all add: serviceObject_def emptyMeta_def)
    ultimately show ?thesis using assms(2) by (simp add: serviceObject_def keyOf_def)
  qed
  show ?thesis
    unfolding createService_def
    by (intro proxy_bind [OF frame_createService] proxy_bind [OF frame_setProxyStatus] steers_intros)
       (simp_all add: assms key)
qed

lemma frame_managePortChange [proxy_frame]:
  assumes "keyOf (proxyMeta p) = n" and "keyOf (deploymentMeta d) = n" and "keyOf (serviceMeta s) = n"
  shows "steers (proxyFrame n) (\<lambda>_. True) (managePortChange (storeReconciler pol l) p n d s)"
proof -
  have dep: "steers (proxyFrame n) (proxyAt n)
      (if b then do {
         (e, p', _) \<leftarrow> deploymentUpdate (storeReconciler pol l) n p (setFirstContainer f d);
         ret (e, p')
       } else ret (None, p))" for b f
    by (intro steers_if proxy_bind [OF frame_deploymentUpdate] steers_prod proxy_ret)
       (simp_all add: assms)
  show ?thesis
    unfolding managePortChange_def Let_def
    by (intro steers_intros proxy_bind [OF dep] proxy_bind [OF frame_serviceUpdate])
       (simp_all add: assms)
qed

lemma frame_markedToBeDeleted [proxy_frame]:
  assumes "keyOf (proxyMeta p) = n"
  shows "steers (proxyFrame n) (\<lambda>_. True) (villipProxyMarkedToBeDeleted (storeReconciler pol l) p n)"
  unfolding villipProxyMarkedToBeDeleted_def doFinalizerOperationsForVillipProxy_def
  by (intro steers_intros proxy_bind [OF frame_setProxyStatus] proxy_bind [OF frame_recordEvent]
        proxy_bind [OF frame_getProxy] proxy_bind [OF frame_updateProxy(1)])
     (simp_all add: assms, simp_all add: keyOf_def)

lemma frame_reconcileProxyService [proxy_frame]:
  assumes "libLaws l" and "keyOf (proxyMeta p) = n" and "keyOf (deploymentMeta d) = n"
  shows "steers (proxyFrame n) (\<lambda>_. True) (reconcileProxyService (storeReconciler pol l) n p d)"
  unfolding reconcileProxyService_def assms(2)
  by (intro proxy_bind [OF frame_getService] proxy_bind [OF frame_createService_step]
        proxy_bind [OF frame_managePortChange] proxy_bind [OF frame_setProxyStatus] steers_intros)
     (simp_all add: assms)

lemma frame_reconcileProxyRulesets [proxy_frame]:
  assumes "libLaws l" and "keyOf (proxyMeta p) = n" and "keyOf (deploymentMeta d) = n"
  shows "steers (proxyFrame n) (\<lambda>_. True) (reconcileProxyRulesets (storeReconciler pol l) n p d)"
  unfolding reconcileProxyRulesets_def
  by (intro proxy_bind [OF frame_isRulesetsChanged] proxy_bind [OF frame_mountsForVillipProxy]
        proxy_bind [OF frame_deploymentUpdate] frame_reconcileProxyService steers_intros)
     (simp_all add: assms)

lemma frame_reconcileProxyDeployment [proxy_frame]:
  assumes "libLaws l" and "keyOf (proxyMeta p) = n"
  shows "steers (proxyFrame n) (\<lambda>_. True) (reconcileProxyDeployment (storeReconciler pol l) n p)"
  unfolding reconcileProxyDeployment_def Let_def assms(2)
  by (intro proxy_bind [OF frame_getDeployment] frame_createDeployment_step
        proxy_bind [OF frame_deploymentUpdate] frame_reconcileProxyRulesets steers_intros)
     (simp_all add: assms)

lemma frame_initProxyStatus [proxy_frame]:
  assumes "keyOf (proxyMeta p) = n"
  shows "steers (proxyFrame n) (\<lambda>_. True) (initProxyStatus (storeReconciler pol l) p)"
  unfolding initProxyStatus_def
  by (intro proxy_bind [OF frame_setProxyStatus] steers_intros) (simp_all add: assms)

lemma frame_addProxyFinalizer [proxy_frame]:
  assumes "keyOf (proxyMeta p) = n"
  shows "steers (proxyFrame n) (\<lambda>_. True) (addProxyFinalizer (storeReconciler pol l) p)"
  unfolding addProxyFinalizer_def
  by (intro proxy_bind [OF frame_updateProxy(1)] steers_intros)
     (use assms in \<open>simp_all add: keyOf_def\<close>)

lemma frame_reconcileProxy:
  assumes "libLaws l"
  shows "steers (proxyFrame n) (\<lambda>_. True) (reconcileProxy (storeReconciler pol l) n)"
  unfolding reconcileProxy_def
  by (intro proxy_bind [OF frame_getProxy] frame_reconcileProxyDeployment steers_intros
        proxy_bind [OF frame_initProxyStatus] proxy_bind [OF frame_addProxyFinalizer]
        proxy_bind [OF frame_markedToBeDeleted])
     (simp_all add: assms)

end
