(* ===== verification/Rules_Frame.thy ===== *)
theory Rules_Frame
  imports Store_Frame
begin

text \<open>
  The counterpart of \<open>proxyFrame\<close> for the rules reconciler: a pass over the rule \<open>n\<close>
  leaves every proxy, every Service, and the rules and ConfigMaps of other keys as they were,
  whatever requests fail.  (Deployments are the business of the rollout, see \<open>Rules_Loop\<close> and
  \<open>Isolation\<close>.)
\<close>

definition rulesFrame :: "namespacedName \<Rightarrow> cluster \<Rightarrow> cluster \<Rightarrow> bool" where
  "rulesFrame n c c' \<longleftrightarrow>
     sameAway rulesMeta n (clRules c) (clRules c') \<and>
     sameAway configMapMeta n (clConfigMaps c) (clConfigMaps c') \<and>
     clProxies c' = clProxies c \<and> clServices c' = clServices c \<and>
     length (clFaults c') \<le> length (clFaults c)"

interpretation rulesFr: request_frame "rulesFrame n" for n
proof
  show "preorderly (rulesFrame n)"
    unfolding preorderly_def rulesFrame_def by (auto intro: sameAway_trans order_trans)
qed (simp_all add: rulesFrame_def)

lemma rulesFrame_update [simp]: "rulesFrame n c (c\<lparr>clDeployments := ds\<rparr>)" "rulesFrame n c c"
  by (simp_all add: rulesFrame_def)

lemmas rules_bind = rulesFr.bind
lemmas rules_ret [steers_intros] = rulesFr.ret
lemmas rules_serve = rulesFr.serve

section \<open>Requests\<close>

lemma frame_getRules:
  "steers (rulesFrame n) (atKey rulesMeta n) (apiGetRules (storeReconciler pol l) n)"
  by (simp add: store_calls rulesFr.reading)

lemma frame_getConfigMap:
  "steers (rulesFrame n) (atKey configMapMeta n) (apiGetConfigMap (storeReconciler pol l) n)"
  by (simp add: store_calls rulesFr.reading)

lemmas frame_listDeployments = rulesFr.listing(2)
lemmas frame_rulesTimeNow = rulesFr.ticking(1)
lemmas frame_timeNowString = rulesFr.ticking(2)
lemmas frame_rulesEvent = rulesFr.ticking(3)

lemma frame_updateRules:
  assumes "keyOf (rulesMeta p) = n"
  shows "steers (rulesFrame n) (atKey rulesMeta n) (apiUpdateRules (storeReconciler pol l) p)"
    and "steers (rulesFrame n) (atKey rulesMeta n) (apiUpdateRulesStatus (storeReconciler pol l) p)"
  using assms
  by (auto simp: store_calls storeUpdateRules_def rulesFrame_def Let_def
      intro!: rules_serve sameAway_write split: option.splits)
    (erule findObj_key)+

lemma frame_patchRules:
  assumes "keyOf (rulesMeta p) = n"
  shows "steers (rulesFrame n) (atKey rulesMeta n) (apiPatchRules (storeReconciler pol l) p x)"
proof -
  have drop: "keyOf (m\<lparr>metaFinalizers := fs\<rparr>) = keyOf m" for m fs by (simp add: keyOf_def)
  show ?thesis
    using assms
    by (auto simp: store_calls storePatchRules_def rulesFrame_def Let_def drop
        intro!: rules_serve sameAway_write split: option.splits)
      (erule findObj_key)+
qed

lemma frame_createConfigMap:
  assumes "keyOf (configMapMeta m) = n"
  shows "steers (rulesFrame n) (\<lambda>_. True) (apiCreateConfigMap (storeReconciler pol l) m)"
  using assms
  by (auto simp: store_calls storeCreateConfigMap_def rulesFrame_def Let_def
      intro!: rules_serve sameAway_snoc split: option.splits)

lemma frame_updateConfigMap:
  assumes "keyOf (configMapMeta m) = n"
  shows "steers (rulesFrame n) (\<lambda>_. True) (apiUpdateConfigMap (storeReconciler pol l) m)"
  using assms
  by (auto simp: store_calls storeUpdateConfigMap_def rulesFrame_def Let_def
      intro!: rules_serve sameAway_write split: option.splits)

lemma frame_rollout_update:
  "steers (rulesFrame n) (\<lambda>_. True) (apiUpdateDeployment (storeReconciler pol l) d)"
  by (auto simp: store_calls storeUpdateDeployment_def Let_def
      intro!: rules_serve split: option.splits)

section \<open>Steps\<close>

definition rulesAt :: "namespacedName \<Rightarrow> 'a \<times> villipRules \<Rightarrow> bool" where
  "rulesAt n x \<longleftrightarrow> keyOf (rulesMeta (snd x)) = n"

lemma rulesAt_simps [simp]: "rulesAt n (e, p) \<longleftrightarrow> keyOf (rulesMeta p) = n"
  by (simp add: rulesAt_def)

lemma frame_setRulesStatus:
  assumes "keyOf (rulesMeta p) = n"
  shows "steers (rulesFrame n) (rulesAt n) (setRulesStatus (storeReconciler pol l) p cond)"
  unfolding setRulesStatus_def setRulesCondition_def
  by (intro rules_bind [OF rules_bind [OF frame_rulesTimeNow rules_ret [of "\<lambda>p. keyOf (rulesMeta p) = n"]]]
        rules_bind [OF frame_updateRules(2)] steers_intros)
     (simp_all add: assms)

lemma frame_patchFinalizers:
  assumes "keyOf (rulesMeta p) = n"
  shows "steers (rulesFrame n) (\<lambda>_. True) (patchFinalizers (storeReconciler pol l) is p)"
  using assms
proof (induction "is" arbitrary: p)
  case Nil
  show ?case by (simp add: rules_ret)
next
  case (Cons i "is")
  show ?case
    unfolding patchFinalizers.simps
    by (intro rules_bind [OF frame_patchRules] steers_intros Cons.IH) (simp_all add: Cons.prems)
qed

lemma frame_rulesDeleted:
  "steers (rulesFrame n) (\<lambda>_. True) (villipRulesMarkedToBeDeleted (storeReconciler pol l) p n)"
  unfolding villipRulesMarkedToBeDeleted_def doFinalizerOperationsForVillipRules_def
  by (intro steers_intros rules_bind [OF frame_rulesEvent] rules_bind [OF frame_getRules]
        frame_patchFinalizers) simp_all

lemma frame_rolloutNames: "steers (rulesFrame n) (\<lambda>_. True) (rolloutNames (storeReconciler pol l) name ns d)"
proof (induction ns arbitrary: d)
  case Nil
  show ?case by (simp add: rules_ret)
next
  case (Cons m ns)
  show ?case
    unfolding rolloutNames.simps
    by (intro rules_bind [OF frame_timeNowString] rules_bind [OF frame_rollout_update]
          steers_intros Cons.IH)
qed

lemma frame_rolloutDeployments:
  "steers (rulesFrame n) (\<lambda>_. True) (rolloutDeployments (storeReconciler pol l) name ds)"
proof (induction ds)
  case Nil
  show ?case by (simp add: rules_ret)
next
  case (Cons d ds)
  have "steers (rulesFrame n) (\<lambda>_. True)
      (case metaAnnotations (deploymentMeta d) confAnnotation of None \<Rightarrow> ret ()
       | Some a \<Rightarrow> rolloutNames (storeReconciler pol l) name (splitString (CHR '','') a) d)"
    by (intro steers_intros frame_rolloutNames) simp
  then show ?case unfolding rolloutDeployments.simps by (rule rules_bind) (rule Cons.IH)
qed

lemma frame_rolloutDependentProxies:
  "steers (rulesFrame n) (\<lambda>_. True) (rolloutDependentProxies (storeReconciler pol l) ns name)"
  unfolding rolloutDependentProxies_def
  by (intro rules_bind [OF frame_listDeployments] rules_bind [OF frame_rolloutDeployments] steers_intros)
     simp_all

lemma frame_finishConfigMapUpdate:
  assumes "keyOf (rulesMeta p) = n"
  shows "steers (rulesFrame n) (\<lambda>_. True) (finishConfigMapUpdate (storeReconciler pol l) p s)"
  unfolding finishConfigMapUpdate_def
  by (intro rules_bind [OF frame_setRulesStatus] rules_bind [OF frame_rolloutDependentProxies] steers_intros)
     (simp_all add: assms)

lemma frame_updateConfigMap_step:
  assumes "keyOf (rulesMeta p) = n" and "keyOf (configMapMeta cm) = n"
  shows "steers (rulesFrame n) (\<lambda>_. True) (updateConfigMap (storeReconciler pol l) n p cm s)"
  unfolding updateConfigMap_def
  by (intro rules_bind [OF frame_setRulesStatus] rules_bind [OF frame_updateConfigMap [OF assms(2)]]
        rules_bind [OF frame_getRules] frame_finishConfigMapUpdate steers_intros)
     (simp_all add: assms(1))

text \<open>What \<open>SetControllerReference\<close> returns for the ConfigMap of a rule keeps the key.\<close>

lemma rules_owner_key:
  assumes "libLaws l" and "configMapForVillipRule (storeReconciler pol l) p = Inr cm"
  shows "keyOf (configMapMeta cm) = keyOf (rulesMeta p)"
proof -
  let ?m = "emptyMeta\<lparr>metaName := metaName (rulesMeta p), metaNamespace := metaNamespace (rulesMeta p),
     metaLabels := Map.empty ++ metaLabels (rulesMeta p)\<rparr>"
  obtain ref where "setControllerReference l (RulesOwner p) ?m = Inr (?m\<lparr>metaOwnerReferences := [ref]\<rparr>)"
    by (rule libLaws_owner [OF assms(1), of ?m "RulesOwner p"]) (simp_all add: emptyMeta_def ownerMeta_def)
  then show ?thesis
    using assms(2) by (auto simp: configMapForVillipRule_def store_calls(1) keyOf_def Let_def split: sum.splits)
qed

lemma frame_createConfigMap_step:
  assumes "libLaws l" and "keyOf (rulesMeta p) = n"
  shows "steers (rulesFrame n) (\<lambda>_. True) (createConfigMap (storeReconciler pol l) p)"
  unfolding createConfigMap_def
  by (intro rules_bind [OF frame_createConfigMap] rules_bind [OF frame_setRulesStatus] steers_intros)
     (simp_all add: assms rules_owner_key [OF assms(1)])

lemma frame_reconcileRulesData:
  assumes "keyOf (rulesMeta p) = n" and "keyOf (configMapMeta cm) = n"
  shows "steers (rulesFrame n) (\<lambda>_. True) (reconcileRulesData (storeReconciler pol l) n p cm)"
  unfolding reconcileRulesData_def
  by (intro frame_updateConfigMap_step steers_intros) (simp_all add: assms)

lemma frame_reconcileRules:
  assumes "libLaws l"
  shows "steers (rulesFrame n) (\<lambda>_. True) (reconcileRules (storeReconciler pol l) n)"
proof -
  have add: "steers (rulesFrame n) (\<lambda>_. True) (addRulesFinalizer (storeReconciler pol l) p)"
    if "keyOf (rulesMeta p) = n" for p
    unfolding addRulesFinalizer_def
    by (intro rules_bind [OF frame_updateRules(1)] steers_intros) (use that in \<open>simp_all add: keyOf_def\<close>)
  have init: "steers (rulesFrame n) (\<lambda>_. True) (initRulesStatus (storeReconciler pol l) p)"
    if "keyOf (rulesMeta p) = n" for p
    unfolding initRulesStatus_def
    by (intro rules_bind [OF frame_setRulesStatus] steers_intros) (simp_all add: that)
  have data: "steers (rulesFrame n) (\<lambda>_. True) (do {
        found \<leftarrow> apiGetConfigMap (storeReconciler pol l) (keyOf (rulesMeta p));
        (case found of
           Inl err \<Rightarrow> if isNotFound err then createConfigMap (storeReconciler pol l) p
                      else ret (noRequeue, Some err)
         | Inr cm \<Rightarrow> reconcileRulesData (storeReconciler pol l) n p cm)
      })" if "keyOf (rulesMeta p) = n" for p
    unfolding that
    by (intro rules_bind [OF frame_getConfigMap] frame_createConfigMap_step [OF assms]
          frame_reconcileRulesData steers_intros) (simp_all add: that)
  show ?thesis
    unfolding reconcileRules_def
    by (intro rules_bind [OF frame_getRules] steers_intros add init data
          rules_bind [OF frame_rulesDeleted]) simp_all
qed

end
