(* ===== verification/Operator_Schedule.thy ===== *)
theory Operator_Schedule
  imports Proxy_Loop Rules_Loop Rules_Frame
begin

text \<open>
  Both controllers together.  A schedule is the sequence of passes the work queues of the two
  controllers hand out, one at a time.  A pass stays within the frame of its key, but for the
  Deployments a pass over a rule rolls out (\<open>Isolation\<close>); a pass over a rule in sync rolls
  out nothing.  So the convergence of one proxy carries over to every interleaving with passes
  of other proxies and of rules that are in sync.
\<close>

datatype request = ProxyPass namespacedName | RulesPass namespacedName

fun runRequest :: "'w reconciler \<Rightarrow> request \<Rightarrow> 'w \<Rightarrow> 'w" where
  "runRequest r (ProxyPass n) w = snd (run_state (reconcileProxy r n) w)"
| "runRequest r (RulesPass n) w = snd (run_state (reconcileRules r n) w)"

primrec runSchedule :: "'w reconciler \<Rightarrow> request list \<Rightarrow> 'w \<Rightarrow> 'w" where
  "runSchedule r [] w = w"
| "runSchedule r (q # qs) w = runSchedule r qs (runRequest r q w)"

lemma runSchedule_append: "runSchedule r (qs @ ps) w = runSchedule r ps (runSchedule r qs w)"
  by (induction qs arbitrary: w) simp_all

lemma runRequest_transfer:
  assumes "behavesLike \<alpha> pol r"
  shows "\<alpha> (runRequest r q w) = runRequest (storeReconciler pol (lib r)) q (\<alpha> w)"
  using simulates_run [OF transfer_reconcileProxy [OF assms]] simulates_run [OF transfer_reconcileRules [OF assms]]
  by (cases q) simp_all

lemma runSchedule_transfer:
  assumes "behavesLike \<alpha> pol r"
  shows "\<alpha> (runSchedule r qs w) = runSchedule (storeReconciler pol (lib r)) qs (\<alpha> w)"
  by (induction qs arbitrary: w) (simp_all add: runRequest_transfer [OF assms])

section \<open>Isolation\<close>

lemma proxyPass_frame: "libLaws l \<Longrightarrow> proxyFrame n c (runRequest (storeReconciler pol l) (ProxyPass n) c)"
  using frame_reconcileProxy [of l n pol] by (simp add: steers_def)

lemma rulesPass_frame: "libLaws l \<Longrightarrow> rulesFrame n c (runRequest (storeReconciler pol l) (RulesPass n) c)"
  using frame_reconcileRules [of l n pol] by (simp add: steers_def)

text \<open>The objects of one proxy, and those of one rule.\<close>

definition proxySide :: "namespacedName \<Rightarrow> cluster \<Rightarrow> villipProxy option \<times> service option" where
  "proxySide n c = (findObj proxyMeta n (clProxies c), findObj serviceMeta n (clServices c))"

definition rulesSide :: "namespacedName \<Rightarrow> cluster \<Rightarrow> villipRules option \<times> configMap option" where
  "rulesSide n c = (findObj rulesMeta n (clRules c), findObj configMapMeta n (clConfigMaps c))"

lemma runRequest_sides:
  assumes "libLaws l"
  shows "ProxyPass n \<noteq> q \<Longrightarrow> proxySide n (runRequest (storeReconciler pol l) q c) = proxySide n c"
    and "RulesPass n \<noteq> q \<Longrightarrow> rulesSide n (runRequest (storeReconciler pol l) q c) = rulesSide n c"
proof -
  let ?c = "runRequest (storeReconciler pol l) q c"
  consider (proxy) m where "proxyFrame m c ?c" "q = ProxyPass m" | (rules) m where "rulesFrame m c ?c" "q = RulesPass m"
    using proxyPass_frame [OF assms] rulesPass_frame [OF assms] by (cases q) simp_all
  then have "(ProxyPass n \<noteq> q \<longrightarrow> proxySide n ?c = proxySide n c) \<and>
      (RulesPass n \<noteq> q \<longrightarrow> rulesSide n ?c = rulesSide n c)"
    by cases (auto simp: proxySide_def rulesSide_def proxyFrame_def rulesFrame_def intro: sameAway_find)
  then show "ProxyPass n \<noteq> q \<Longrightarrow> proxySide n ?c = proxySide n c"
    and "RulesPass n \<noteq> q \<Longrightarrow> rulesSide n ?c = rulesSide n c" by simp_all
qed

lemma runSchedule_sides:
  assumes "libLaws l"
  shows "ProxyPass n \<notin> set qs \<Longrightarrow> proxySide n (runSchedule (storeReconciler pol l) qs c) = proxySide n c"
    and "RulesPass n \<notin> set qs \<Longrightarrow> rulesSide n (runSchedule (storeReconciler pol l) qs c) = rulesSide n c"
  by (induction qs arbitrary: c) (simp_all add: runRequest_sides [OF assms])

section \<open>Convergence under interleaving\<close>

text \<open>What one proxy depends on does not change in passes over other objects.\<close>

lemma proxy_undisturbed:
  assumes "proxyFrame m c c'" and "m \<noteq> n" and "clFaults c = []"
  shows "healthy n c \<Longrightarrow> healthy n c'" and "proxyPhase l c' n = proxyPhase l c n"
    and "availableNow l c' n \<longleftrightarrow> availableNow l c n" and "keeps n c c'"
    and "asBuilt l n c' = asBuilt l n c"
proof -
  have eq: "findObj proxyMeta n (clProxies c') = findObj proxyMeta n (clProxies c)"
    "findObj deploymentMeta n (clDeployments c') = findObj deploymentMeta n (clDeployments c)"
    "findObj serviceMeta n (clServices c') = findObj serviceMeta n (clServices c)"
    "clConfigMaps c' = clConfigMaps c" "clFaults c' = []"
    using assms by (auto simp: proxyFrame_def intro: sameAway_find)
  have sel: "selectedNames c' = selectedNames c" by (rule ext) (simp add: selectedNames_def eq)
  show "healthy n c \<Longrightarrow> healthy n c'" by (simp add: healthy_def plainProxy_def eq sel)
  show "proxyPhase l c' n = proxyPhase l c n"
    by (simp add: proxyPhase_def workloadPhase_def rulesetsAligned_def eq sel cong: option.case_cong if_cong)
  show "availableNow l c' n \<longleftrightarrow> availableNow l c n" by (simp add: availableNow_def eq)
  show "keeps n c c'" by (simp add: keeps_def eq)
  show "asBuilt l n c' = asBuilt l n c" by (simp add: asBuilt_def builtFor_def eq sel)
qed

text \<open>A rule in sync: nothing a proxy pass does disturbs it.\<close>

definition inSync :: "lib \<Rightarrow> cluster \<Rightarrow> namespacedName \<Rightarrow> bool" where
  "inSync l c m \<longleftrightarrow> healthyRules l m c \<and> rulesPhase l c m = Synced"

lemma inSync_proxyFrame:
  assumes "proxyFrame n c c'" and "clFaults c = []" and "inSync l c m"
  shows "inSync l c' m"
proof -
  have "clRules c' = clRules c" "clConfigMaps c' = clConfigMaps c" "clFaults c' = []"
    using assms(1,2) by (simp_all add: proxyFrame_def)
  with assms(3) show ?thesis
    by (simp add: inSync_def healthyRules_def rulesPhase_def cong: option.case_cong if_cong)
qed

lemma inSync_pass: "libLaws l \<Longrightarrow> inSync l c m \<Longrightarrow> runRequest (storeReconciler pol l) (RulesPass m) c = c"
  using rules_pass_Synced [of l m c pol] by (simp add: inSync_def rulesPassTo_def)

text \<open>One more pass over the proxy itself, counted against a bound \<open>b\<close> on its rank.\<close>

lemma own_pass_progress:
  assumes "libLaws l" and "obliging pol l n" and "healthy n d"
    and prog: "if proxyPhase l d n = Aligned then b < k \<longrightarrow> availableNow l d n else rank (proxyPhase l d n) + k \<le> b"
  defines "e \<equiv> runRequest (storeReconciler pol l) (ProxyPass n) d"
  shows "healthy n e" and "keeps n d e" and "asBuilt l n d \<longrightarrow> asBuilt l n e"
    and "if proxyPhase l e n = Aligned then b < Suc k \<longrightarrow> availableNow l e n else rank (proxyPhase l e n) + Suc k \<le> b"
proof -
  obtain res where st: "passTo pol l n d res e" and av: "proxyPhase l d n = Aligned \<Longrightarrow> availableNow l e n"
    using one_pass [OF assms(1-3)] by (auto simp: passTo_def e_def)
  show "healthy n e" "keeps n d e" "asBuilt l n d \<longrightarrow> asBuilt l n e" using st by (simp_all add: passTo_def)
  show "if proxyPhase l e n = Aligned then b < Suc k \<longrightarrow> availableNow l e n else rank (proxyPhase l e n) + Suc k \<le> b"
  proof (cases "proxyPhase l d n = Aligned")
    case True
    then show ?thesis using av st by (simp add: passTo_def)
  next
    case False
    then have "rank (proxyPhase l e n) < rank (proxyPhase l d n)"
      using st healthy_phases(1) [OF assms(3)] by (intro phaseStep_rank) (simp_all add: passTo_def)
    then show ?thesis using prog False by simp
  qed
qed

lemma schedule_inv:
  assumes "libLaws l" and "obliging pol l n" and "healthy n c"
    and "\<And>m. RulesPass m \<in> set qs \<Longrightarrow> inSync l c m"
  shows "let c' = runSchedule (storeReconciler pol l) qs c; k = count_list qs (ProxyPass n) in
    healthy n c' \<and> keeps n c c' \<and> (asBuilt l n c \<longrightarrow> asBuilt l n c') \<and> (\<forall>m. inSync l c m \<longrightarrow> inSync l c' m) \<and>
    (if proxyPhase l c' n = Aligned then rank (proxyPhase l c n) < k \<longrightarrow> availableNow l c' n
     else rank (proxyPhase l c' n) + k \<le> rank (proxyPhase l c n))"
  using assms(4) unfolding Let_def
proof (induction qs rule: rev_induct)
  case Nil
  then show ?case using assms(3) by simp
next
  case (snoc q qs)
  let ?r = "storeReconciler pol l"
  let ?d = "runSchedule ?r qs c" and ?k = "count_list qs (ProxyPass n)"
  let ?e = "runRequest ?r q ?d"
  note IH = snoc.IH [OF snoc.prems, simplified]
  have h: "healthy n ?d" and kp: "keeps n c ?d" and blt: "asBuilt l n c \<longrightarrow> asBuilt l n ?d"
    and syn: "\<And>m. inSync l c m \<Longrightarrow> inSync l ?d m"
    and prog: "if proxyPhase l ?d n = Aligned then rank (proxyPhase l c n) < ?k \<longrightarrow> availableNow l ?d n
       else rank (proxyPhase l ?d n) + ?k \<le> rank (proxyPhase l c n)"
    using IH by blast+
  have nofault: "clFaults ?d = []" using h by (simp add: healthy_def)
  consider (rules) m where "q = RulesPass m" | (other) m where "q = ProxyPass m" "m \<noteq> n" | (own) "q = ProxyPass n"
    by (cases q) auto
  then show ?case
  proof cases
    case rules
    then have "?e = ?d" using inSync_pass [OF assms(1) syn [OF snoc.prems]] by simp
    then show ?thesis using h kp blt syn prog rules by (simp add: runSchedule_append del: runRequest.simps)
  next
    case other
    let ?f = "runRequest ?r (ProxyPass m) ?d"
    have fr: "proxyFrame m ?d ?f" by (rule proxyPass_frame [OF assms(1)])
    note und = proxy_undisturbed [OF fr other(2) nofault]
    have "keeps n c ?f" by (rule keeps_trans [OF kp und(4)])
    then show ?thesis
      using und(1) [OF h] und(5) blt prog syn inSync_proxyFrame [OF fr nofault] other
      by (simp add: runSchedule_append und(2,3) del: runRequest.simps)
  next
    case own
    have fr: "proxyFrame n ?d ?e" using proxyPass_frame [OF assms(1)] own by simp
    note step = own_pass_progress [OF assms(1,2) h prog, folded own]
    have "keeps n c ?e" by (rule keeps_trans [OF kp step(2)])
    then show ?thesis
      using step(1,3,4) blt syn inSync_proxyFrame [OF fr nofault] own
      by (simp add: runSchedule_append split: if_splits del: runRequest.simps)
  qed
qed

text \<open>C3: a proxy converges under every interleaving, on a server that admits what is valid.  Start
  from a healthy cluster in which the proxy is in phase \<open>q\<close>; run any sequence of passes over
  any proxies, mixed with passes over rules that are in sync.  Once the sequence holds more than
  \<open>rank q\<close> passes over the proxy itself (never more than eight), its Deployment and Service have
  the size and ports of the spec, the annotation with the mounted ConfigMaps, when there is one,
  lists those the rulesets select, the status says \<open>Available\<close>, and the rules are still in sync.
  A Deployment that was not there at the start is exactly the one the code builds; one that was
  there keeps its selector, its labels and all of its container but ports and mounts.\<close>

theorem operator_converges:
  assumes "behavesLike \<alpha> pol r" and "libLaws (lib r)" and "valueLaws (lib r)" and "admitsValid pol n"
    and "healthy n (\<alpha> w)"
    and "\<And>m. RulesPass m \<in> set qs \<Longrightarrow>
      healthyRules (lib r) m (\<alpha> w) \<and> rulesPhase (lib r) (\<alpha> w) m = Synced"
    and "rank (proxyPhase (lib r) (\<alpha> w) n) < count_list qs (ProxyPass n)"
  shows "let c = \<alpha> (runSchedule r qs w) in
    (\<exists>p d s. findObj proxyMeta n (clProxies c) = Some p \<and>
       findObj deploymentMeta n (clDeployments c) = Some d \<and>
       findObj serviceMeta n (clServices c) = Some s \<and>
       deploymentReplicas (deploymentSpec d) = Some (specSize (proxySpec p)) \<and>
       rulesetsAligned c p d \<and> portsAligned (lib r) p d s \<and>
       (case findObj deploymentMeta n (clDeployments (\<alpha> w)) of
          None \<Rightarrow> builtFor (lib r) c p d
        | Some d0 \<Rightarrow> podsOf d = podsOf d0)) \<and>
    availableNow (lib r) c n \<and> keeps n (\<alpha> w) c \<and>
    (\<forall>m. RulesPass m \<in> set qs \<longrightarrow> rulesPhase (lib r) c m = Synced)"
proof -
  let ?c = "runSchedule (storeReconciler pol (lib r)) qs (\<alpha> w)"
  have ob: "obliging pol (lib r) n" using assms(3,4) by (simp add: obliging_def)
  have sync: "inSync (lib r) (\<alpha> w) m" if "RulesPass m \<in> set qs" for m
    using assms(6) [OF that] by (simp add: inSync_def)
  note inv = schedule_inv [OF assms(2) ob assms(5), of qs, unfolded Let_def, OF sync, simplified]
  have al: "proxyPhase (lib r) ?c n = Aligned"
    using inv assms(7) by (auto split: if_splits)
  then have "availableNow (lib r) ?c n" using inv assms(7) by simp
  moreover have "rulesPhase (lib r) ?c m = Synced" if "RulesPass m \<in> set qs" for m
    using inv sync [OF that] by (simp add: inSync_def)
  moreover have "keeps n (\<alpha> w) ?c" "healthy n ?c" "asBuilt (lib r) n (\<alpha> w) \<longrightarrow> asBuilt (lib r) n ?c"
    using inv by simp_all
  ultimately show ?thesis
    using workload_aligned_as [OF _ al, of "\<alpha> w"] by (simp add: runSchedule_transfer [OF assms(1)] Let_def)
qed

lemma operator_converges_witness:
  "availableNow exampleLib
     (runSchedule strictReconciler (concat (replicate 8 [ProxyPass (exampleKey ''web''), ProxyPass (exampleKey ''villip'')]))
        exampleCluster) (exampleKey ''villip'')"
proof -
  let ?qs = "concat (replicate 8 [ProxyPass (exampleKey ''web''), ProxyPass (exampleKey ''villip'')])"
  have "exampleKey ''web'' \<noteq> exampleKey ''villip''" by (simp add: exampleKey_def)
  then have "count_list ?qs (ProxyPass (exampleKey ''villip'')) = 8" by (simp add: eval_nat_numeral)
  moreover have "rank q < 8" for q by (cases q) simp_all
  moreover have "RulesPass m \<notin> set ?qs" for m by auto
  ultimately show ?thesis
    using operator_converges [OF behavesLike_store [of strictPolicy exampleLib],
        of "exampleKey ''villip''" exampleCluster ?qs] exampleLib_laws exampleLib_values strict_admits example_healthy
    by (simp add: store_calls(1) Let_def del: replicate.simps)
qed

end
