(* ===== verification/Proxy_Safety.thy ===== *)
theory Proxy_Safety
  imports Operator_Schedule
begin

text \<open>
  What the result of a pass of the proxy reconciler tells, for every schedule of failing
  requests: a pass that neither fails nor asks to be run again left the workload aligned.  Then
  the two ways a deletion can go.
\<close>

section \<open>Results that are not quiet\<close>

definition loud :: "reconcileResult \<times> goError option \<Rightarrow> bool" where
  "loud x \<longleftrightarrow> x \<noteq> (noRequeue, None)"

definition loudValue :: "(reconcileResult \<times> goError option) outcome \<Rightarrow> bool" where
  "loudValue x \<longleftrightarrow> x \<noteq> Value (noRequeue, None)"

lemma loud_simps [simp]:
  "loud (noRequeue, Some e)" "loud (requeueMinute, None)"
  "loudValue Panic" "loudValue (Value y) \<longleftrightarrow> loud y"
  by (auto simp: loud_def loudValue_def requeueMinute_noRequeue)

lemma loud_initProxyStatus: "always loud (initProxyStatus r p)"
  unfolding initProxyStatus_def by (auto intro!: always_intros)

lemma loud_addProxyFinalizer: "always loud (addProxyFinalizer r p)"
  unfolding addProxyFinalizer_def by (auto intro!: always_intros)

lemma loud_createService: "always loud (createService r p)"
  unfolding createService_def by (auto intro!: always_intros)

lemma loud_createDeployment: "always loudValue (createDeployment r p)"
  unfolding createDeployment_def by (auto intro!: always_intros)

lemma loud_managePortChange:
  "always (\<lambda>x. \<forall>res err. x = Value (Some res, err) \<longrightarrow> loud (res, err)) (managePortChange r p req d s)"
  unfolding managePortChange_def Let_def by (auto intro!: always_intros)

text \<open>The ports are left alone exactly when they are aligned.\<close>

lemma managePortChange_silent:
  assumes "run_state (managePortChange r p req d s) w = (Value (None, e), w')"
  shows "portsAligned (lib r) p d s" and "w' = w"
proof -
  obtain k ks where k: "podContainers (templateSpec (deploymentSpec d)) = k # ks"
    using assms by (cases "podContainers (templateSpec (deploymentSpec d))") (simp_all add: managePortChange_def)
  have "portsAligned (lib r) p d s \<and> w' = w"
  proof (rule ccontr)
    assume neg: "\<not> (portsAligned (lib r) p d s \<and> w' = w)"
    have "portsForVillipProxyDeployment (specPorts (proxySpec p)) \<noteq> containerPorts k \<or>
        portsForVillipProxyService (lib r) (specPorts (proxySpec p)) \<noteq> servicePorts (serviceSpec s)"
      using neg assms by (auto simp: managePortChange_def k portsAligned_def run_simps)
    then have "always (\<lambda>x. \<forall>e. x \<noteq> Value (None, e)) (managePortChange r p req d s)"
      unfolding managePortChange_def k list.case Let_def by (auto intro!: always_intros)
    from alwaysD [OF this, of w] show False using assms by simp
  qed
  then show "portsAligned (lib r) p d s" and "w' = w" by simp_all
qed

section \<open>The course of a quiet pass\<close>

text \<open>
  For every client: a pass that neither fails nor asks to be run again found no proxy, or served
  a deletion to its end, or read a Deployment of the right size, saw no change of the rulesets,
  read a Service with aligned ports and wrote the status.
\<close>

lemma quiet_service:
  assumes "run_state (reconcileProxyService r n p d) w = (Value (noRequeue, None), w')"
  obtains s w1 q where "run_state (apiGetService r (keyOf (proxyMeta p))) w = (Inr s, w1)"
    and "portsAligned (lib r) p d s"
    and "run_state (setProxyStatus r p (proxyAvailable p (specSize (proxySpec p)))) w1 = ((None, q), w')"
proof -
  note run = assms [unfolded reconcileProxyService_def]
  obtain s w1 where get: "run_state (apiGetService r (keyOf (proxyMeta p))) w = (Inr s, w1)"
  proof (cases "run_state (apiGetService r (keyOf (proxyMeta p))) w")
    case (Pair x w1)
    show thesis
    proof (cases x)
      case (Inr s)
      then show thesis using Pair that by simp
    next
      case (Inl e)
      have "loud (fst (run_state (createService r p) w1))" by (rule alwaysD [OF loud_createService])
      then show thesis using run Inl Pair by (auto simp: run_simps loud_def split: if_splits prod.splits)
    qed
  qed
  obtain m w2 where man: "run_state (managePortChange r p n d s) w1 = (m, w2)" by fastforce
  obtain e where m: "m = Value (None, e)"
  proof -
    have "\<forall>res err. m = Value (Some res, err) \<longrightarrow> loud (res, err)"
      using alwaysD [OF loud_managePortChange, of r p n d s w1] by (simp add: man)
    then show thesis using run get man that
      by (cases m) (auto simp: run_simps loud_def split: option.splits prod.splits)
  qed
  have al: "portsAligned (lib r) p d s" and w2: "w2 = w1"
    using managePortChange_silent [OF man [unfolded m]] by simp_all
  obtain q where "run_state (setProxyStatus r p (proxyAvailable p (specSize (proxySpec p)))) w1 = ((None, q), w')"
    using run get man by (auto simp: m w2 run_simps split: prod.splits option.splits)
  with get al show thesis by (rule that)
qed

lemma quiet_rulesets:
  assumes "run_state (reconcileProxyRulesets r n p d) w = (Value (noRequeue, None), w')"
  obtains x w1 where "run_state (isRulesetsChanged r p d) w = ((False, x), w1)"
    and "run_state (reconcileProxyService r n p d) w1 = (Value (noRequeue, None), w')"
proof -
  note run = assms [unfolded reconcileProxyRulesets_def]
  obtain b x w1 where chk: "run_state (isRulesetsChanged r p d) w = ((b, x), w1)" by (metis surj_pair)
  have b: "b = False"
    using run chk by (auto simp: run_simps requeueMinute_noRequeue split: option.splits if_splits prod.splits)
  have "run_state (reconcileProxyService r n p d) w1 = (Value (noRequeue, None), w')"
    using run chk b by (simp add: run_simps)
  with chk b show thesis using that by simp
qed

lemma quiet_deployment:
  assumes "run_state (reconcileProxyDeployment r n p) w = (Value (noRequeue, None), w')"
  obtains d w1 where "run_state (apiGetDeployment r (keyOf (proxyMeta p))) w = (Inr d, w1)"
    and "deploymentReplicas (deploymentSpec d) = Some (specSize (proxySpec p))"
    and "run_state (reconcileProxyRulesets r n p d) w1 = (Value (noRequeue, None), w')"
proof -
  note run = assms [unfolded reconcileProxyDeployment_def Let_def]
  obtain d w1 where get: "run_state (apiGetDeployment r (keyOf (proxyMeta p))) w = (Inr d, w1)"
  proof (cases "run_state (apiGetDeployment r (keyOf (proxyMeta p))) w")
    case (Pair x w1)
    show thesis
    proof (cases x)
      case (Inr d)
      then show thesis using Pair that by simp
    next
      case (Inl e)
      have "loudValue (fst (run_state (createDeployment r p) w1))" by (rule alwaysD [OF loud_createDeployment])
      then show thesis using run Inl Pair by (auto simp: run_simps loudValue_def split: if_splits)
    qed
  qed
  have rep: "deploymentReplicas (deploymentSpec d) = Some (specSize (proxySpec p))"
    using run get by (auto simp: run_simps requeueMinute_noRequeue split: option.splits if_splits prod.splits)
  have "run_state (reconcileProxyRulesets r n p d) w1 = (Value (noRequeue, None), w')"
    using run get by (simp add: run_simps rep)
  with get rep show thesis by (rule that)
qed

lemma quiet_run:
  assumes "run_state (reconcileProxy r n) w = (Value (noRequeue, None), w')"
  obtains (missing) e where "run_state (apiGetProxy r n) w = (Inl e, w')" and "isNotFound e"
  | (deleting) p w1 where "run_state (apiGetProxy r n) w = (Inr p, w1)"
      and "metaDeletionTimestamp (proxyMeta p) \<noteq> None"
      and "run_state (villipProxyMarkedToBeDeleted r p n) w1 = (None, w')"
  | (aligned) p w1 where "run_state (apiGetProxy r n) w = (Inr p, w1)"
      and "metaDeletionTimestamp (proxyMeta p) = None"
      and "run_state (reconcileProxyDeployment r n p) w1 = (Value (noRequeue, None), w')"
proof -
  note run = assms [unfolded reconcileProxy_def]
  obtain x w1 where get: "run_state (apiGetProxy r n) w = (x, w1)" by fastforce
  show thesis
  proof (cases x)
    case (Inl e)
    then show thesis using run get missing by (auto simp: run_simps split: if_splits)
  next
    case (Inr p)
    have "loud (fst (run_state (initProxyStatus r p) w1))" "loud (fst (run_state (addProxyFinalizer r p) w1))"
      by (rule alwaysD [OF loud_initProxyStatus], rule alwaysD [OF loud_addProxyFinalizer])
    then show thesis
      using run get deleting [of p w1] aligned [of p w1]
      by (auto simp: Inr run_simps loud_def split: if_splits prod.splits)
  qed
qed

section \<open>Reads under failures\<close>

definition onlyFaults :: "cluster \<Rightarrow> cluster \<Rightarrow> bool" where
  "onlyFaults c c' \<longleftrightarrow> (\<exists>fs. c' = c\<lparr>clFaults := fs\<rparr>)"

interpretation reads: fault_frame onlyFaults
proof
  have "onlyFaults c c" for c by (auto simp: onlyFaults_def intro: exI [of _ "clFaults c"])
  then show "preorderly onlyFaults" by (auto simp: preorderly_def onlyFaults_def)
qed (auto simp: onlyFaults_def)

lemma onlyFaults_sel:
  assumes "onlyFaults c c'"
  shows "clProxies c' = clProxies c" "clDeployments c' = clDeployments c" "clServices c' = clServices c"
    "clConfigMaps c' = clConfigMaps c" "clRules c' = clRules c"
  using assms by (auto simp: onlyFaults_def)

lemma onlyFaults_trans: "onlyFaults a b \<Longrightarrow> onlyFaults b c \<Longrightarrow> onlyFaults a c"
  using reads.pre unfolding preorderly_def by blast

lemma serve_value:
  assumes "run_state (serve f) c = (Inr x, c')"
  obtains b where "onlyFaults c b" and "f b = (Inr x, c')"
proof -
  have "onlyFaults c c" "\<And>fs. onlyFaults c (c\<lparr>clFaults := fs\<rparr>)"
    using reads.pre by (auto simp: preorderly_def onlyFaults_def)
  then show thesis
    using assms that by (cases "clFaults c") (auto simp: serve_def split: option.splits)
qed

lemma read_value:
  assumes "run_state (serve (\<lambda>c. (found pol kind n (findObj meta n (field c)), c))) c = (Inr x, c')"
  obtains b where "onlyFaults c b" and "c' = b" and "findObj meta n (field b) = Some x"
  by (rule serve_value [OF assms]) (auto simp: found_def intro: that split: option.splits)

lemma reads_collectNames:
  "steers onlyFaults (\<lambda>_. True) (collectNames (storeReconciler pol l) ns rss acc)"
proof (induction rss arbitrary: acc)
  case Nil
  show ?case by (simp add: reads.ret)
next
  case (Cons rs rss)
  show ?case
    unfolding collectNames.simps
    by (intro reads.bind [OF reads.listing(1)] steers_intros Cons.IH reads.ret) simp_all
qed

lemma reads_isRulesetsChanged:
  "steers onlyFaults (\<lambda>_. True) (isRulesetsChanged (storeReconciler pol l) p d)"
  unfolding isRulesetsChanged_def
  by (intro reads.bind [OF reads_collectNames] steers_intros reads.ret) simp_all

section \<open>A quiet pass\<close>

lemma status_written:
  assumes "libLaws l" and "findObj proxyMeta n (clProxies c) = Some p" and "metaDeletionTimestamp (proxyMeta p) = None"
    and "run_state (setProxyStatus (storeReconciler pol l) p cond) c = ((None, q), c')"
  shows "findObj proxyMeta n (clProxies c') = Some q" and "proxySpec q = proxySpec p"
    and "metaName (proxyMeta q) = metaName (proxyMeta p)"
    and "\<exists>d. conditionOf (conditionType cond) (proxyConditions (proxyStatus q)) = Some d \<and> sameVerdict d cond"
    and "clDeployments c' = clDeployments c" and "clServices c' = clServices c"
proof -
  let ?p = "p\<lparr>proxyStatus := (proxyStatus p)\<lparr>proxyConditions :=
      setStatusConditionAt l (clockTime pol (clClock c)) (proxyConditions (proxyStatus p)) cond\<rparr>\<rparr>"
  let ?q = "?p\<lparr>proxyMeta := bump (proxyMeta p)\<rparr>"
  have key: "keyOf (proxyMeta p) = n" using assms(2) by (rule findObj_key)
  have "run_state (apiUpdateProxyStatus (storeReconciler pol l) ?p) (c\<lparr>clClock := Suc (clClock c)\<rparr>) = (Inr q, c')"
    using assms(4) by (auto simp: setProxyStatus_def setProxyCondition_def run_simps store_calls(1,21)
        split: prod.splits sum.splits)
  then obtain b where b: "onlyFaults (c\<lparr>clClock := Suc (clClock c)\<rparr>) b"
    and w: "storeUpdateProxy pol (\<lambda>old p. old\<lparr>proxyStatus := proxyStatus p\<rparr>) ?p b = (Inr q, c')"
    unfolding store_calls by (rule serve_value)
  have found: "findObj proxyMeta (keyOf (proxyMeta ?p)) (clProxies b) = Some p"
    using onlyFaults_sel [OF b] assms(2) key by simp
  have "q = ?q \<and> c' = b\<lparr>clProxies := replaceObj proxyMeta ?q (clProxies b)\<rparr>"
    using w unfolding storeUpdateProxy_def found
    by (auto simp: Let_def writeObj_def not_finalized [OF assms(3)])
  then have q: "q = ?q" and c': "c' = b\<lparr>clProxies := replaceObj proxyMeta ?q (clProxies b)\<rparr>" by simp_all
  show "findObj proxyMeta n (clProxies c') = Some q"
    using found key by (simp add: c' q findObj_replaceObj)
  show "proxySpec q = proxySpec p" and "metaName (proxyMeta q) = metaName (proxyMeta p)" by (simp_all add: q)
  show "\<exists>d. conditionOf (conditionType cond) (proxyConditions (proxyStatus q)) = Some d \<and> sameVerdict d cond"
    by (rule libLaws_set_same [OF assms(1)]) (auto simp: q)
  show "clDeployments c' = clDeployments c" and "clServices c' = clServices c"
    using onlyFaults_sel [OF b] by (simp_all add: c')
qed

text \<open>The same against the server, for every schedule of failing requests.\<close>

lemma quiet_pass:
  assumes "libLaws l" and "\<And>e. Some e \<in> set (clFaults c) \<Longrightarrow> \<not> isNotFound e"
    and "run_state (reconcileProxy (storeReconciler pol l) n) c = (Value (noRequeue, None), c')"
  shows "findObj proxyMeta n (clProxies c) = None \<or>
    (\<exists>p. findObj proxyMeta n (clProxies c) = Some p \<and> metaDeletionTimestamp (proxyMeta p) \<noteq> None) \<or>
    (\<exists>p q d s. findObj proxyMeta n (clProxies c) = Some p \<and> findObj proxyMeta n (clProxies c') = Some q \<and>
      proxySpec q = proxySpec p \<and> clDeployments c' = clDeployments c \<and> clServices c' = clServices c \<and>
      findObj deploymentMeta n (clDeployments c) = Some d \<and> findObj serviceMeta n (clServices c) = Some s \<and>
      deploymentReplicas (deploymentSpec d) = Some (specSize (proxySpec p)) \<and> portsAligned l p d s \<and>
      availableNow l c' n)"
proof -
  let ?r = "storeReconciler pol l"
  have gotProxy: "onlyFaults c c1 \<and> findObj proxyMeta n (clProxies c) = Some p"
    if "run_state (apiGetProxy ?r n) c = (Inr p, c1)" for p c1
    using that unfolding store_calls by (rule read_value) (auto simp: onlyFaults_sel)
  from assms(3) show ?thesis
  proof (cases rule: quiet_run)
    case (missing e)
    then have "Some e \<notin> set (clFaults c)" using assms(2) by blast
    then show ?thesis
      using missing(1) by (cases "clFaults c") (auto simp: store_calls serve_def found_def split: option.splits)
  next
    case (deleting p c1)
    then show ?thesis using gotProxy by blast
  next
    case (aligned p c1)
    note f1 = gotProxy [OF aligned(1)]
    have key: "keyOf (proxyMeta p) = n" by (rule findObj_key [OF conjunct2 [OF f1]])
    obtain d c2 where d: "run_state (apiGetDeployment ?r n) c1 = (Inr d, c2)"
      "deploymentReplicas (deploymentSpec d) = Some (specSize (proxySpec p))"
      "run_state (reconcileProxyRulesets ?r n p d) c2 = (Value (noRequeue, None), c')"
      by (rule quiet_deployment [OF aligned(3)]) (simp add: key)
    obtain x c3 where x: "run_state (isRulesetsChanged ?r p d) c2 = ((False, x), c3)"
      "run_state (reconcileProxyService ?r n p d) c3 = (Value (noRequeue, None), c')"
      by (rule quiet_rulesets [OF d(3)])
    obtain s c4 q where s: "run_state (apiGetService ?r n) c3 = (Inr s, c4)" "portsAligned l p d s"
      "run_state (setProxyStatus ?r p (proxyAvailable p (specSize (proxySpec p)))) c4 = ((None, q), c')"
      by (rule quiet_service [OF x(2)]) (simp add: key store_calls(1))
    have f2: "onlyFaults c1 c2 \<and> findObj deploymentMeta n (clDeployments c2) = Some d"
      using d(1) unfolding store_calls by (rule read_value) simp
    have f3: "onlyFaults c2 c3" using steersD [OF reads_isRulesetsChanged x(1)] by simp
    have f4: "onlyFaults c3 c4 \<and> findObj serviceMeta n (clServices c4) = Some s"
      using s(1) unfolding store_calls by (rule read_value) simp
    have f: "onlyFaults c c4" using f1 f2 f3 f4 by (blast intro: onlyFaults_trans)
    have p4: "findObj proxyMeta n (clProxies c4) = Some p" using f1 onlyFaults_sel [OF f] by simp
    note w = status_written [OF assms(1) p4 aligned(2) s(3)]
    have "proxyAvailable q (specSize (proxySpec q)) = proxyAvailable p (specSize (proxySpec p))"
      by (simp only: proxyAvailable_def w(2,3))
    moreover have "conditionType (proxyAvailable p y) = typeAvailableVillipProxy" for y
      by (simp add: proxyAvailable_def mkCondition_def)
    ultimately have now: "availableNow l c' n" using w(1,4) by (simp add: availableNow_def)
    have "findObj deploymentMeta n (clDeployments c) = Some d" "findObj serviceMeta n (clServices c) = Some s"
      using f1 f2 f3 f4 by (auto simp: onlyFaults_sel)
    then show ?thesis
      using f1 w(1,2,5,6) d(2) s(2) now onlyFaults_sel [OF f] by auto
  qed
qed

text \<open>C8: a quiet pass is a truthful one.  Whatever requests fail, if a pass reports no error and does
  not ask to be run again, then the proxy does not exist, or it is being deleted, or its
  Deployment and its Service exist, with the right size and ports, the pass changed neither of
  them nor the spec, and the stored status now says Available.  (Only the rulesets are not
  covered: a failed list of ConfigMaps is ignored.)\<close>

theorem quiet_pass_is_aligned:
  assumes "behavesLike \<alpha> pol r" and "libLaws (lib r)"
    and "\<And>e. Some e \<in> set (clFaults (\<alpha> w)) \<Longrightarrow> \<not> isNotFound e"
    and "run_state (reconcileProxy r n) w = (Value (noRequeue, None), w')"
  shows "let c = \<alpha> w; c' = \<alpha> w' in
    findObj proxyMeta n (clProxies c) = None \<or>
    (\<exists>p. findObj proxyMeta n (clProxies c) = Some p \<and> metaDeletionTimestamp (proxyMeta p) \<noteq> None) \<or>
    (\<exists>p q d s. findObj proxyMeta n (clProxies c) = Some p \<and> findObj proxyMeta n (clProxies c') = Some q \<and>
      proxySpec q = proxySpec p \<and> clDeployments c' = clDeployments c \<and> clServices c' = clServices c \<and>
      findObj deploymentMeta n (clDeployments c) = Some d \<and> findObj serviceMeta n (clServices c) = Some s \<and>
      deploymentReplicas (deploymentSpec d) = Some (specSize (proxySpec p)) \<and> portsAligned (lib r) p d s \<and>
      availableNow (lib r) c' n)"
  using quiet_pass [OF assms(2,3) simulatesD [OF transfer_reconcileProxy [OF assms(1)] assms(4)]]
  unfolding Let_def .

lemma quiet_pass_is_aligned_witness:
  "\<exists>d. findObj deploymentMeta (exampleKey ''villip'')
      (clDeployments (proxyPasses exampleReconciler (exampleKey ''villip'') 9 exampleCluster)) = Some d \<and>
     deploymentReplicas (deploymentSpec d) = Some (specSize (proxySpec exampleProxy))"
proof -
  let ?n = "exampleKey ''villip''"
  let ?c = "proxyPasses exampleReconciler ?n 8 exampleCluster"
  let ?c' = "proxyPasses exampleReconciler ?n 9 exampleCluster"
  have quiet: "fst (run_state (reconcileProxy exampleReconciler ?n) ?c) = Value (noRequeue, None)"
    and h: "healthy ?n ?c" and kp: "keeps ?n exampleCluster ?c'"
    using aligned_after_7 [OF exampleLib_laws example_obliging(2) example_healthy, of 8]
      proxyPasses_inv [OF exampleLib_laws example_obliging(2) example_healthy, of 8]
      proxyPasses_inv [OF exampleLib_laws example_obliging(2) example_healthy, of 9]
      one_pass [OF exampleLib_laws example_obliging(2), of ?n ?c]
    by (auto simp: passTo_def)
  obtain p where p: "findObj proxyMeta ?n (clProxies ?c) = Some p" "metaDeletionTimestamp (proxyMeta p) = None"
    and nofault: "clFaults ?c = []"
    using h by (auto simp: healthy_def plainProxyD)
  have "proxyPasses exampleReconciler ?n (Suc 8) exampleCluster = snd (run_state (reconcileProxy exampleReconciler ?n) ?c)"
    by (rule proxyPasses.simps(2))
  with quiet have run: "run_state (reconcileProxy exampleReconciler ?n) ?c = (Value (noRequeue, None), ?c')"
    by (simp add: prod_eq_iff)
  obtain q d where "findObj proxyMeta ?n (clProxies ?c') = Some q"
    "findObj deploymentMeta ?n (clDeployments ?c') = Some d"
    "deploymentReplicas (deploymentSpec d) = Some (specSize (proxySpec q))"
    using quiet_pass_is_aligned [OF behavesLike_store [of examplePolicy exampleLib] _ _ run]
    unfolding store_calls(1) nofault Let_def using p exampleLib_laws by auto
  with kp show ?thesis by (auto simp: keeps_def example_findProxy)
qed

section \<open>A proxy without ports\<close>

text \<open>C27: a proxy without ports is never done.  The code renders no ports as an empty list that is
  not nil; a list that went through the server comes back as nil, and the two are different
  for \<open>reflect.DeepEqual\<close>.  So as long as such a proxy exists and is not being deleted, every
  pass fails or asks to be run again, whatever the server and its failures do.\<close>

theorem empty_ports_never_settle:
  assumes "behavesLike \<alpha> pol r" and "libLaws (lib r)"
    and "\<And>e. Some e \<in> set (clFaults (\<alpha> w)) \<Longrightarrow> \<not> isNotFound e"
    and "findObj proxyMeta n (clProxies (\<alpha> w)) = Some p" and "specPorts (proxySpec p) = []"
    and "metaDeletionTimestamp (proxyMeta p) = None"
    and "\<And>s. s \<in> set (clServices (\<alpha> w)) \<Longrightarrow> encodeService s = s"
  shows "fst (run_state (reconcileProxy r n) w) \<noteq> Value (noRequeue, None)"
proof
  assume "fst (run_state (reconcileProxy r n) w) = Value (noRequeue, None)"
  then obtain w' where run: "run_state (reconcileProxy r n) w = (Value (noRequeue, None), w')"
    by (cases "run_state (reconcileProxy r n) w") simp
  have stored: "servicePorts (serviceSpec s) \<noteq> Some []" if "s \<in> set (clServices (\<alpha> w))" for s
    using arg_cong [OF assms(7) [OF that], of "\<lambda>s. servicePorts (serviceSpec s)"]
    by (cases "servicePorts (serviceSpec s)" rule: jsonList.cases) (auto simp: encodeService_def)
  obtain d s where s: "findObj serviceMeta n (clServices (\<alpha> w)) = Some s" and al: "portsAligned (lib r) p d s"
    using quiet_pass [OF assms(2,3) simulatesD [OF transfer_reconcileProxy [OF assms(1)] run]] assms(4,6)
    by auto
  have "servicePorts (serviceSpec s) = Some []"
    using al by (simp add: portsAligned_def assms(5) portsForVillipProxyService_eq sortedPortsOfVillipProxy.simps sortInts_def)
  then show False using stored [OF findObj_in [OF s]] by simp
qed

definition portlessCluster :: cluster where
  "portlessCluster = exampleCluster
     \<lparr>clProxies := [exampleProxy\<lparr>proxySpec := (proxySpec exampleProxy)\<lparr>specPorts := []\<rparr>\<rparr>]\<rparr>"

lemma empty_ports_never_settle_witness:
  "fst (run_state (reconcileProxy exampleReconciler (exampleKey ''villip'')) portlessCluster)
     \<noteq> Value (noRequeue, None)"
proof (rule empty_ports_never_settle [OF behavesLike_store [of examplePolicy exampleLib]])
  let ?p = "exampleProxy\<lparr>proxySpec := (proxySpec exampleProxy)\<lparr>specPorts := []\<rparr>\<rparr>"
  show "findObj proxyMeta (exampleKey ''villip'') (clProxies portlessCluster) = Some ?p"
    by (simp add: findObj_def portlessCluster_def example_simps exampleKey_def keyOf_def)
  show "specPorts (proxySpec ?p) = []" by simp
  show "metaDeletionTimestamp (proxyMeta ?p) = None" by (simp add: example_simps)
qed (simp_all add: portlessCluster_def exampleCluster_def store_calls(1) exampleLib_laws)

end
