(* ===== verification/Rules_Properties.thy ===== *)
theory Rules_Properties
  imports Rules_Loop Conf_Annotation
begin

text \<open>
  Properties of the rules controller that are not about convergence: the checksum, the results
  of a pass, the passes that only read, the ConfigMap of a rule, a failing update, the removal
  of finalizers and the owner index.
\<close>

section \<open>Checksums\<close>

text \<open>Every document has a checksum, 64 lower-case hexadecimal digits long; two documents
  share it exactly when their bytes have the same SHA-256 digest, so the comparison the
  reconciler makes is the comparison of digests.\<close>

lemma checksum_sound:
  "\<exists>s. sumVillipRulesData d = Inr s \<and> length s = 64 \<and> set s \<subseteq> set ''0123456789abcdef'' \<and>
     (\<forall>d'. sumVillipRulesData d' = Inr s \<longleftrightarrow> sha256 (bytesOf d') = sha256 (bytesOf d))"
proof -
  have "sumVillipRulesData d = Inr (hexEncode (sha256 (bytesOf d)))"
    by (simp add: sumVillipRulesData_def)
  moreover have "sumVillipRulesData d' = Inr (hexEncode (sha256 (bytesOf d))) \<longleftrightarrow>
      sha256 (bytesOf d') = sha256 (bytesOf d)" for d'
    by (simp add: sumVillipRulesData_def)
  moreover have "length (hexEncode (sha256 (bytesOf d))) = 64" by simp
  ultimately show ?thesis using hexEncode_digits by blast
qed

section \<open>Results of a pass\<close>

named_theorems rules_results

definition rulesOk :: "reconcileResult \<times> goError option \<Rightarrow> bool" where
  "rulesOk x \<longleftrightarrow>
     (snd x \<noteq> None \<longrightarrow> fst x = noRequeue) \<and> (fst x = noRequeue \<or> fst x = requeueMinute)"

lemma rulesOk_simps [simp]: "rulesOk (noRequeue, e)" "rulesOk (requeueMinute, None)"
  by (simp_all add: rulesOk_def)

lemma rulesOk_initRulesStatus [rules_results]: "always rulesOk (initRulesStatus r p)"
  unfolding initRulesStatus_def by (auto intro!: always_intros)

lemma rulesOk_addRulesFinalizer [rules_results]: "always rulesOk (addRulesFinalizer r p)"
  unfolding addRulesFinalizer_def by (auto intro!: always_intros)

lemma rulesOk_createConfigMap [rules_results]: "always rulesOk (createConfigMap r p)"
  unfolding createConfigMap_def by (auto intro!: always_intros)

lemma rulesOk_finishConfigMapUpdate [rules_results]: "always rulesOk (finishConfigMapUpdate r p s)"
  unfolding finishConfigMapUpdate_def by (auto intro!: always_intros)

lemma rulesOk_updateConfigMap [rules_results]: "always rulesOk (updateConfigMap r req p cm s)"
  unfolding updateConfigMap_def by (auto intro!: always_intros rules_results)

lemma rulesOk_reconcileRulesData [rules_results]: "always rulesOk (reconcileRulesData r req p cm)"
  unfolding reconcileRulesData_def by (auto intro!: always_intros rules_results)

text \<open>A pass of the rules reconciler asks to be run again after a minute or not at all, and
  never combines an error with a delay.\<close>

lemma rules_pass_results:
  assumes "fst (run_state (reconcileRules r req) w) = (res, err)"
  shows "(err \<noteq> None \<longrightarrow> res = noRequeue) \<and> (res = noRequeue \<or> res = requeueMinute)"
proof -
  have "always rulesOk (reconcileRules r req)"
    unfolding reconcileRules_def by (auto intro!: always_intros rules_results)
  from alwaysD [OF this, of w] show ?thesis by (simp add: assms rulesOk_def)
qed

section \<open>Passes that only read\<close>

text \<open>C35: when the ConfigMap already has the checksum of the rule, the pass consists of the two
  reads and nothing else: no status is written (not even the condition \<open>Available\<close>, so a rule
  whose ConfigMap was there before it keeps the status \<open>Unknown\<close>), no rollout happens.\<close>

theorem rules_synced_pass_reads_only:
  assumes "run_state (apiGetRules r req) w = (Inr p, w1)"
    and "rulesConditions (rulesStatus p) \<noteq> []"
    and "containsFinalizer (lib r) (metaFinalizers (rulesMeta p)) villiprulesFinalizer"
    and "metaDeletionTimestamp (rulesMeta p) = None"
    and "run_state (apiGetConfigMap r (keyOf (rulesMeta p))) w1 = (Inr cm, w2)"
    and "yamlMarshal (lib r) (rulesSpec p) = Inr data"
    and "sumVillipRulesData (dataAt (configMapData cm) (configMapKey p)) = sumVillipRulesData data"
  shows "run_state (reconcileRules r req) w = ((requeueMinute, None), w2)"
proof -
  obtain s where s: "sumVillipRulesData data = Inr s" using rulesSum.sum_total by blast
  then have t: "sumVillipRulesData (dataAt (configMapData cm) (configMapKey p)) = Inr s"
    using assms(7) by simp
  show ?thesis
    using assms(2-6) by (simp add: reconcileRules_def run_simps assms(1) reconcileRulesData_def s t)
qed

definition syncedCluster :: cluster where
  "syncedCluster = readyCluster\<lparr>clConfigMaps :=
     [exampleConfigMap\<lparr>configMapData := [''tcpexample.yml'' \<mapsto> ''type: tcp'']\<rparr>]\<rparr>"

lemma rules_synced_pass_reads_only_witness:
  "run_state (reconcileRules exampleReconciler (exampleKey ''tcpexample'')) syncedCluster =
     ((requeueMinute, None), syncedCluster)"
proof (rule rules_synced_pass_reads_only)
  have "clFaults syncedCluster = []" by (simp add: syncedCluster_def readyCluster_def exampleCluster_def)
  then show "run_state (apiGetRules exampleReconciler (exampleKey ''tcpexample'')) syncedCluster =
      (Inr readyRule, syncedCluster)"
    and "run_state (apiGetConfigMap exampleReconciler (keyOf (rulesMeta readyRule))) syncedCluster =
      (Inr (exampleConfigMap\<lparr>configMapData := [''tcpexample.yml'' \<mapsto> ''type: tcp'']\<rparr>), syncedCluster)"
    by (simp_all add: store_calls run_serve)
       (simp_all add: findObj_def syncedCluster_def readyCluster_def readyRule_def example_simps
          exampleKey_def keyOf_def exampleConfigMap_def)
  show "yamlMarshal (lib exampleReconciler) (rulesSpec readyRule) = Inr ''type: tcp''"
    by (simp add: store_calls exampleLib_def readyRule_def exampleRule_def)
  show "sumVillipRulesData (dataAt (configMapData (exampleConfigMap\<lparr>configMapData :=
      [''tcpexample.yml'' \<mapsto> ''type: tcp'']\<rparr>)) (configMapKey readyRule)) = sumVillipRulesData ''type: tcp''"
    by (simp add: dataAt_def configMapKey_def readyRule_def example_simps)
qed (simp_all add: readyRule_def example_simps store_calls exampleLib_def)

section \<open>The ConfigMap of a rule\<close>

lemma configMapForVillipRule_owned:
  assumes "libLaws (lib r)" and "configMapForVillipRule r p = Inr cm"
  obtains ref where "metaOwnerReferences (configMapMeta cm) = [ref]"
    and "ownerKind ref = ''VillipRules''" and "ownerController ref = Some True"
    and "metaNamespace (configMapMeta cm) = metaNamespace (rulesMeta p)"
    and "metaName (configMapMeta cm) = metaName (rulesMeta p)"
    and "metaLabels (configMapMeta cm) = metaLabels (rulesMeta p)"
proof -
  let ?m = "emptyMeta\<lparr>metaName := metaName (rulesMeta p), metaNamespace := metaNamespace (rulesMeta p),
    metaLabels := Map.empty ++ metaLabels (rulesMeta p)\<rparr>"
  obtain ref where ref: "setControllerReference (lib r) (RulesOwner p) ?m = Inr (?m\<lparr>metaOwnerReferences := [ref]\<rparr>)"
    "ownerKind ref = ownerKindOf (RulesOwner p)" "ownerController ref = Some True"
    by (rule libLaws_owner [OF assms(1), of ?m "RulesOwner p"]) (simp_all add: emptyMeta_def ownerMeta_def)
  with assms(2) show thesis
    by (intro that [of ref])
       (auto simp: configMapForVillipRule_def ownerKindOf_def emptyMeta_def Let_def split: sum.splits)
qed

text \<open>C40: the owner index never lists a ConfigMap of a rule: it asks for the kind
  \<open>VillipRule\<close>, but the kind under which the owner is recorded is \<open>VillipRules\<close>.\<close>

theorem owner_index_misses_rules:
  assumes "libLaws (lib r)" and "configMapForVillipRule r p = Inr cm"
  shows "indexConfigMapOwner (lib r) cm = None"
proof -
  obtain ref where "metaOwnerReferences (configMapMeta cm) = [ref]"
    "ownerKind ref = ''VillipRules''" "ownerController ref = Some True"
    by (rule configMapForVillipRule_owned [OF assms])
  then show ?thesis
    using libLaws_controllerOf [OF assms(1), of "configMapMeta cm" ref]
    by (simp add: indexConfigMapOwner_def)
qed

lemma example_configMap: "\<exists>cm. configMapForVillipRule exampleReconciler exampleRule = Inr cm"
  by (simp add: configMapForVillipRule_def store_calls exampleLib_def Let_def)

lemma owner_index_misses_rules_witness:
  "\<exists>cm. configMapForVillipRule exampleReconciler exampleRule = Inr cm \<and>
     indexConfigMapOwner exampleLib cm = None"
  using owner_index_misses_rules [of exampleReconciler exampleRule] example_configMap exampleLib_laws
  by (auto simp: store_calls(1))

section \<open>A failing update of the ConfigMap\<close>

lemma run_setRulesStatus_served:
  assumes "clFaults c = None # fs" and "findObj rulesMeta n (clRules c) = Some p"
    and "\<not> finalized (rulesMeta p)"
  shows "run_state (setRulesStatus (storeReconciler pol l) p cond) c =
    ((None, withRulesCondition l (clockTime pol (clClock c)) cond p),
     c\<lparr>clFaults := fs, clClock := Suc (clClock c),
       clRules := replaceObj rulesMeta (withRulesCondition l (clockTime pol (clClock c)) cond p) (clRules c)\<rparr>)"
proof -
  have k: "findObj rulesMeta (keyOf (rulesMeta p)) (clRules c) = Some p"
    using assms(2) findObj_key [OF assms(2)] by simp
  show ?thesis
    using assms(1,3)
    by (simp add: setRulesStatus_def setRulesCondition_def run_simps store_calls run_serve_served
        storeUpdateRules_def k withRulesCondition_def writeObj_def Let_def)
qed

lemma run_updateConfigMap_failed:
  assumes "clFaults c = [None, Some e]" and p: "findObj rulesMeta n (clRules c) = Some p"
    and del: "metaDeletionTimestamp (rulesMeta p) = None"
  obtains p' t c' where
    "run_state (updateConfigMap (storeReconciler pol l) n p cm s) c = ((requeueMinute, None), c')"
    and "findObj rulesMeta n (clRules c') = Some (withRulesCondition l t
           (mkCondition typeAvailableVillipRules ConditionTrue ''Reconciled'' ''ConfigMap updated'') p')"
    and "lastSum (rulesStatus p') = s" and "clConfigMaps c' = clConfigMaps c"
proof -
  let ?r = "storeReconciler pol l"
  let ?cond1 = "mkCondition typeDegradedVillipRules ConditionFalse ''Updating''
    (''Update the data for the custom resource ('' @ metaName (rulesMeta p) @ '')'')"
  define p1 where "p1 = withRulesCondition l (clockTime pol (clClock c)) ?cond1 p"
  define c1 where "c1 = c\<lparr>clFaults := [Some e], clClock := Suc (clClock c),
    clRules := replaceObj rulesMeta p1 (clRules c)\<rparr>"
  define c2 where "c2 = c1\<lparr>clFaults := []\<rparr>"
  define p2 where "p2 = withRulesCondition l (clockTime pol (clClock c2)) (updateConfigMapFailure p1 e) p1"
  define c3 where "c3 = c2\<lparr>clClock := Suc (clClock c2), clRules := replaceObj rulesMeta p2 (clRules c2)\<rparr>"
  have m: "rulesMeta p1 = bump (rulesMeta p)" "rulesMeta p2 = bump (rulesMeta p1)"
    by (simp_all add: p1_def p2_def)
  have s1: "run_state (setRulesStatus ?r p ?cond1) c = ((None, p1), c1)"
    unfolding p1_def c1_def by (rule run_setRulesStatus_served [OF assms(1) p not_finalized [OF del]])
  have f1: "findObj rulesMeta n (clRules c2) = Some p1"
    using findObj_replaceObj_Some [OF p, of p1] findObj_key [OF p] m by (simp add: c1_def c2_def)
  have nf: "clFaults c1 = [Some e]" "clFaults c2 = []" "clFaults c3 = []"
    by (simp_all add: c1_def c2_def c3_def)
  have s2: "run_state (setRulesStatus ?r p1 (updateConfigMapFailure p1 e)) c2 = ((None, p2), c3)"
    unfolding p2_def c3_def
    by (rule run_setRulesStatus [OF nf(2) f1 _ refl refl]) (use del in \<open>simp add: not_finalized m\<close>)
  have f2: "findObj rulesMeta n (clRules c3) = Some p2"
    using findObj_replaceObj_Some [OF f1, of p2] findObj_key [OF p] m by (simp add: c3_def)
  obtain p' t c' where fin: "run_state (finishConfigMapUpdate ?r p2 s) c3 = ((requeueMinute, None), c')"
    and f: "findObj rulesMeta n (clRules c') = Some (withRulesCondition l t
           (mkCondition typeAvailableVillipRules ConditionTrue ''Reconciled'' ''ConfigMap updated'') p')"
    and p': "lastSum (rulesStatus p') = s" and cms: "clConfigMaps c' = clConfigMaps c3"
    by (rule run_finishConfigMapUpdate [OF nf(3) f2, of pol l s]) (use that del m in auto)
  have run: "run_state (updateConfigMap ?r n p cm s) c = ((requeueMinute, None), c')"
    using s1 by (simp add: updateConfigMap_def run_simps store_calls run_serve_failed [OF nf(1)]
        c2_def [symmetric] run_serve [OF nf(2)] f1 s2 fin)
  show thesis by (rule that [OF run f p']) (simp add: cms c1_def c2_def c3_def)
qed

text \<open>C29: a failed update of the ConfigMap is reported as a success.  When the server refuses the
  new data with any error, and the requests around it go through, the pass still ends without
  error, the checksum of the new data is stored in the status and the condition
  \<open>Available\<close> says \<open>ConfigMap updated\<close>, while the ConfigMaps are what they were.\<close>

theorem failed_update_reported_as_success:
  assumes "behavesLike \<alpha> pol r" and "libLaws (lib r)" and "clFaults (\<alpha> w) = [None, Some e]"
    and "findObj rulesMeta n (clRules (\<alpha> w)) = Some p"
    and "metaDeletionTimestamp (rulesMeta p) = None"
  shows "\<exists>w' p' av. run_state (updateConfigMap r n p cm s) w = ((requeueMinute, None), w') \<and>
    clConfigMaps (\<alpha> w') = clConfigMaps (\<alpha> w) \<and>
    findObj rulesMeta n (clRules (\<alpha> w')) = Some p' \<and> lastSum (rulesStatus p') = s \<and>
    conditionOf typeAvailableVillipRules (rulesConditions (rulesStatus p')) = Some av \<and>
    sameVerdict av (mkCondition typeAvailableVillipRules ConditionTrue ''Reconciled'' ''ConfigMap updated'')"
proof -
  let ?cond = "mkCondition typeAvailableVillipRules ConditionTrue ''Reconciled'' ''ConfigMap updated''"
  obtain p' t c' where run: "run_state (updateConfigMap (storeReconciler pol (lib r)) n p cm s) (\<alpha> w) =
      ((requeueMinute, None), c')"
    and f: "findObj rulesMeta n (clRules c') = Some (withRulesCondition (lib r) t ?cond p')"
    and p': "lastSum (rulesStatus p') = s" and cms: "clConfigMaps c' = clConfigMaps (\<alpha> w)"
    by (rule run_updateConfigMap_failed [OF assms(3-5)])
  obtain w' where w': "run_state (updateConfigMap r n p cm s) w = ((requeueMinute, None), w')" "\<alpha> w' = c'"
    using simulates_run [OF transfer_updateConfigMap [OF assms(1)], of n p cm s w] run
    by (cases "run_state (updateConfigMap r n p cm s) w") simp
  have "conditionType ?cond = typeAvailableVillipRules" by (simp add: mkCondition_def)
  moreover obtain av where "conditionOf (conditionType ?cond)
      (setStatusConditionAt (lib r) t (rulesConditions (rulesStatus p')) ?cond) = Some av" "sameVerdict av ?cond"
    by (rule libLaws_set_same [OF assms(2)])
  ultimately show ?thesis using w' f p' cms by fastforce
qed

lemma failed_update_reported_as_success_witness:
  "fst (run_state (updateConfigMap exampleReconciler (exampleKey ''tcpexample'') readyRule exampleConfigMap ''abc'')
     (readyCluster\<lparr>clFaults := [None, Some (errorf ''denied'')]\<rparr>)) = (requeueMinute, None)"
  using failed_update_reported_as_success [OF behavesLike_store [of examplePolicy exampleLib],
      of "readyCluster\<lparr>clFaults := [None, Some (errorf ''denied'')]\<rparr>" "errorf ''denied''"
        "exampleKey ''tcpexample''" readyRule exampleConfigMap "''abc''"]
    exampleLib_laws ready_find ready_healthy
  by (auto simp: store_calls(1) healthyRules_def)

section \<open>Removing the finalizers\<close>

lemma finalizerRemoval_inject [simp]: "finalizerRemoval i = finalizerRemoval j \<longleftrightarrow> i = j"
  by (simp add: finalizerRemoval_def)

lemma patchData_removal [simp]: "patchData (removeFinalizerPatch i) = finalizerRemoval i"
  by (simp add: removeFinalizerPatch_def finalizerRemoval_def)

lemma find_snoc:
  "find P (xs @ [x]) = (case find P xs of Some y \<Rightarrow> Some y | None \<Rightarrow> if P x then Some x else None)"
  by (induction xs) simp_all

lemma find_removal: "find ((=) i) [0..<k] = (if i < k then Some i else None)"
  by (induction k) (auto simp: find_snoc)

lemma nextVersion_finalizers:
  "nextVersion m (m\<lparr>metaFinalizers := fs\<rparr>) = bump (m\<lparr>metaFinalizers := fs\<rparr>)"
  by (cases m) (simp add: nextVersion_def bump_def)

text \<open>What the loop leaves: every other finalizer.\<close>

fun oddEntries :: "'a list \<Rightarrow> 'a list" where
  "oddEntries (x # y # zs) = y # oddEntries zs"
| "oddEntries _ = []"


lemma length_oddEntries [simp]: "length (oddEntries xs) = length xs div 2"
  by (induction xs rule: oddEntries.induct) auto

lemma oddEntries_append:
  "even (length xs) \<Longrightarrow> oddEntries (xs @ ys) = oddEntries xs @ oddEntries ys"
  by (induction xs rule: oddEntries.induct) auto

text \<open>The finalizer list before patch \<open>i\<close>, and the effect of that patch.\<close>

definition beforePatch :: "'a list \<Rightarrow> nat \<Rightarrow> 'a list" where
  "beforePatch fs i = oddEntries (take (2 * i) fs) @ drop (2 * i) fs"

lemma length_beforePatch: "2 * i \<le> length fs \<Longrightarrow> length (beforePatch fs i) = length fs - i"
  by (simp add: beforePatch_def min_def)

lemma beforePatch_end: "length fs \<le> 2 * i \<Longrightarrow> beforePatch fs i = oddEntries fs"
  by (simp add: beforePatch_def)

lemma beforePatch_Suc:
  assumes "2 * i < length fs"
  shows "take i (beforePatch fs i) @ drop (Suc i) (beforePatch fs i) = beforePatch fs (Suc i)"
proof -
  let ?o = "oddEntries (take (2 * i) fs)"
  have len: "length ?o = i" using assms by (simp add: min_def)
  obtain x rest where rest: "drop (2 * i) fs = x # rest"
    using assms by (cases "drop (2 * i) fs") auto
  have fs: "fs = take (2 * i) fs @ x # rest" using append_take_drop_id [of "2 * i" fs] rest by simp
  have lhs: "take i (beforePatch fs i) @ drop (Suc i) (beforePatch fs i) = ?o @ rest"
    by (simp add: beforePatch_def rest len del: length_oddEntries)
  have len2: "length (take (2 * i) fs) = 2 * i" using assms by simp
  show ?thesis
  proof (cases rest)
    case Nil
    then have "beforePatch fs (Suc i) = oddEntries fs"
      using arg_cong [OF fs, of length] len2 by (intro beforePatch_end) simp
    also have "\<dots> = oddEntries (take (2 * i) fs @ [x])" using fs Nil by simp
    also have "\<dots> = ?o" using len2 by (subst oddEntries_append) simp_all
    finally show ?thesis unfolding lhs by (simp add: Nil)
  next
    case (Cons y zs)
    have "take (2 * Suc i) fs = take (2 * i) fs @ [x, y]" and "drop (2 * Suc i) fs = zs"
      using len2 by (subst fs; simp add: Cons)+
    then have "beforePatch fs (Suc i) = oddEntries (take (2 * i) fs @ [x, y]) @ zs"
      by (simp only: beforePatch_def)
    also have "\<dots> = ?o @ y # zs" using len2 by (subst oddEntries_append) simp_all
    finally show ?thesis unfolding lhs by (simp add: Cons)
  qed
qed

lemma run_patch:
  assumes "findObj rulesMeta n (clRules c) = Some q" and "keyOf (rulesMeta p) = n"
  shows "storePatchRules pol p (removeFinalizerPatch i) c =
    (if i < length (metaFinalizers (rulesMeta q))
     then (let new = q\<lparr>rulesMeta := bump ((rulesMeta q)\<lparr>metaFinalizers :=
               take i (metaFinalizers (rulesMeta q)) @ drop (Suc i) (metaFinalizers (rulesMeta q))\<rparr>)\<rparr>
           in (Inr new, c\<lparr>clRules := writeObj rulesMeta new (clRules c)\<rparr>))
     else (Inl (errInvalid pol ''VillipRules'' n), c))"
  using assms by (simp add: storePatchRules_def find_removal Let_def nextVersion_finalizers)

lemma patch_loop:
  assumes "clFaults c = []" and "findObj rulesMeta n (clRules c) = Some q"
    and "metaFinalizers (rulesMeta q) = beforePatch fs i" and "2 \<le> length fs"
    and "i < length fs" and "2 * i \<le> Suc (length fs)"
  shows "\<exists>c' q'. run_state (patchFinalizers (storeReconciler pol l) [i..<length fs] q) c = (Some (errInvalid pol ''VillipRules'' n), c') \<and>
    findObj rulesMeta n (clRules c') = Some q' \<and> metaFinalizers (rulesMeta q') = oddEntries fs"
  using assms(1-3,5,6)
proof (induction "length fs - i" arbitrary: i c q)
  case 0
  then show ?case by simp
next
  case (Suc k)
  have upt: "[i..<length fs] = i # [Suc i..<length fs]" using Suc.prems(4) by (rule upt_conv_Cons)
  have key: "keyOf (rulesMeta q) = n" using Suc.prems(2) by (rule findObj_key)
  show ?case
  proof (cases "2 * i < length fs")
    case False
    then have "beforePatch fs i = oddEntries fs" by (intro beforePatch_end) simp
    moreover have "\<not> i < length (oddEntries fs)" using False by simp
    ultimately show ?thesis
      using Suc.prems run_patch [OF Suc.prems(2) key, where i = i]
      by (simp add: upt run_simps store_calls run_serve)
  next
    case True
    let ?q = "q\<lparr>rulesMeta := bump ((rulesMeta q)\<lparr>metaFinalizers := beforePatch fs (Suc i)\<rparr>)\<rparr>"
    have i: "i < length (beforePatch fs i)" using True by (simp add: length_beforePatch)
    have lt: "Suc i < length fs" using True assms(4) by simp
    have "length (beforePatch fs (Suc i)) = length (beforePatch fs i) - 1"
      unfolding beforePatch_Suc [OF True, symmetric] using i by simp
    then have ne: "beforePatch fs (Suc i) \<noteq> []"
      using lt True by (auto simp: length_beforePatch)
    have patch: "storePatchRules pol q (removeFinalizerPatch i) c =
        (Inr ?q, c\<lparr>clRules := replaceObj rulesMeta ?q (clRules c)\<rparr>)"
      using i ne beforePatch_Suc [OF True]
      by (simp add: run_patch [OF Suc.prems(2) key] Suc.prems(3) Let_def writeObj_def finalized_def bump_def)
    let ?c = "c\<lparr>clRules := replaceObj rulesMeta ?q (clRules c)\<rparr>"
    have f: "findObj rulesMeta n (clRules ?c) = Some ?q"
      using findObj_replaceObj_Some [OF Suc.prems(2), of ?q] key by (simp add: keyOf_def bump_def)
    have "\<exists>c' q'. run_state (patchFinalizers (storeReconciler pol l) [Suc i..<length fs] ?q) ?c = (Some (errInvalid pol ''VillipRules'' n), c') \<and>
        findObj rulesMeta n (clRules c') = Some q' \<and> metaFinalizers (rulesMeta q') = oddEntries fs"
      by (rule Suc.hyps(1)) (use Suc.hyps(2) Suc.prems f lt True in simp_all)
    then show ?thesis
      using patch by (simp add: upt run_simps store_calls run_serve Suc.prems(1))
  qed
qed


text \<open>A pass over a rule that is being deleted and carries the operator's finalizer.\<close>

lemma run_deleting:
  assumes "libLaws l" and "clFaults c = []" and "findObj rulesMeta n (clRules c) = Some p"
    and "rulesConditions (rulesStatus p) \<noteq> []" and "metaDeletionTimestamp (rulesMeta p) \<noteq> None"
    and "villiprulesFinalizer \<in> set (metaFinalizers (rulesMeta p))"
  shows "run_state (reconcileRules (storeReconciler pol l) n) c =
    (let ev = (n, ''Warning'', ''Deleting'', ''Custom Resource '' @ nnName n @
               '' is being deleted from the namespace '' @ nnNamespace n) in
     case run_state (patchFinalizers (storeReconciler pol l) [0..<length (metaFinalizers (rulesMeta p))] p)
            (c\<lparr>clEvents := clEvents c @ [ev]\<rparr>) of
       (err, c') \<Rightarrow> ((noRequeue, err), c'))"
proof -
  have key: "keyOf (rulesMeta p) = n" using assms(3) by (rule findObj_key)
  then have "metaName (rulesMeta p) = nnName n" "metaNamespace (rulesMeta p) = nnNamespace n" by auto
  then show ?thesis
    using assms
    by (simp add: key reconcileRules_def run_simps store_calls run_serve libLaws_finalizer
        villipRulesMarkedToBeDeleted_def doFinalizerOperationsForVillipRules_def Let_def del: upt_Suc)
qed

text \<open>C24: a rule that is being deleted and has only the operator's finalizer goes away in one pass,
  which records the deletion event and leaves every other object alone.\<close>

theorem rules_deletion:
  assumes "behavesLike \<alpha> pol r" and "libLaws (lib r)" and "clFaults (\<alpha> w) = []"
    and "findObj rulesMeta n (clRules (\<alpha> w)) = Some p"
    and "rulesConditions (rulesStatus p) \<noteq> []" and "metaDeletionTimestamp (rulesMeta p) \<noteq> None"
    and "metaFinalizers (rulesMeta p) = [villiprulesFinalizer]"
  shows "\<exists>w'. run_state (reconcileRules r n) w = ((noRequeue, None), w') \<and>
    \<alpha> w' = (\<alpha> w)\<lparr>clRules := removeObj rulesMeta n (clRules (\<alpha> w)),
      clEvents := clEvents (\<alpha> w) @ [(n, ''Warning'', ''Deleting'', ''Custom Resource '' @ nnName n @
        '' is being deleted from the namespace '' @ nnNamespace n)]\<rparr>"
proof -
  let ?s = "storeReconciler pol (lib r)"
  let ?ev = "(n, ''Warning'', ''Deleting'', ''Custom Resource '' @ nnName n @
               '' is being deleted from the namespace '' @ nnNamespace n)"
  let ?c = "(\<alpha> w)\<lparr>clEvents := clEvents (\<alpha> w) @ [?ev]\<rparr>"
  let ?c' = "?c\<lparr>clRules := removeObj rulesMeta n (clRules (\<alpha> w))\<rparr>"
  have key: "keyOf (rulesMeta p) = n" using assms(4) by (rule findObj_key)
  have "\<exists>q. storePatchRules pol p (removeFinalizerPatch 0) ?c = (Inr q, ?c')"
    using run_patch [of n ?c p p pol 0] assms(4,6,7) key
    by (simp add: Let_def writeObj_def finalized_def bump_def keyOf_def)
  then have "run_state (patchFinalizers ?s [0..<length (metaFinalizers (rulesMeta p))] p) ?c = (None, ?c')"
    by (auto simp: assms(3,7) run_simps store_calls run_serve)
  moreover have "villiprulesFinalizer \<in> set (metaFinalizers (rulesMeta p))" by (simp add: assms(7))
  ultimately have "run_state (reconcileRules ?s n) (\<alpha> w) = ((noRequeue, None), ?c')"
    by (simp only: run_deleting [OF assms(2-6)] Let_def case_prod_conv)
  then show ?thesis
    using simulates_run [OF transfer_reconcileRules [OF assms(1)], of n w]
    by (cases "run_state (reconcileRules r n) w") simp
qed

definition deletedRule :: "string list \<Rightarrow> villipRules" where
  "deletedRule fs = readyRule\<lparr>rulesMeta := (exampleMeta ''tcpexample'')
     \<lparr>metaFinalizers := fs, metaDeletionTimestamp := Some 0\<rparr>\<rparr>"

lemma deletedRule_simps:
  "findObj rulesMeta (exampleKey ''tcpexample'') [deletedRule fs] = Some (deletedRule fs)"
  "rulesConditions (rulesStatus (deletedRule fs)) \<noteq> []"
  "metaDeletionTimestamp (rulesMeta (deletedRule fs)) \<noteq> None"
  "metaFinalizers (rulesMeta (deletedRule fs)) = fs"
  by (simp_all add: deletedRule_def readyRule_def example_simps findObj_def keyOf_def exampleKey_def)

lemma rules_deletion_witness:
  "clRules (snd (run_state (reconcileRules exampleReconciler (exampleKey ''tcpexample''))
     (exampleCluster\<lparr>clRules := [deletedRule [villiprulesFinalizer]]\<rparr>))) = []"
proof -
  have "keyOf (rulesMeta (deletedRule fs)) = exampleKey ''tcpexample''" for fs
    by (simp add: deletedRule_def example_simps keyOf_def exampleKey_def)
  moreover have "clFaults exampleCluster = []" by (simp add: exampleCluster_def)
  ultimately show ?thesis
    using rules_deletion [OF behavesLike_store [of examplePolicy exampleLib],
        of "exampleCluster\<lparr>clRules := [deletedRule [villiprulesFinalizer]]\<rparr>" "exampleKey ''tcpexample''"
          "deletedRule [villiprulesFinalizer]"]
    by (auto simp: store_calls(1) exampleLib_laws deletedRule_simps removeObj_def)
qed

text \<open>C28: with more than one finalizer the removal loop goes wrong: it patches the indices of the
  old list while the list shrinks, so it removes every other finalizer, whoever owns it, and
  ends with an error; the rule stays with the rest.\<close>

theorem rules_deletion_several_finalizers:
  assumes "behavesLike \<alpha> pol r" and "libLaws (lib r)" and "clFaults (\<alpha> w) = []"
    and "findObj rulesMeta n (clRules (\<alpha> w)) = Some p"
    and "rulesConditions (rulesStatus p) \<noteq> []" and "metaDeletionTimestamp (rulesMeta p) \<noteq> None"
    and "villiprulesFinalizer \<in> set (metaFinalizers (rulesMeta p))"
    and "2 \<le> length (metaFinalizers (rulesMeta p))"
  shows "\<exists>w' e q. run_state (reconcileRules r n) w = ((noRequeue, Some e), w') \<and>
    findObj rulesMeta n (clRules (\<alpha> w')) = Some q \<and>
    metaFinalizers (rulesMeta q) = oddEntries (metaFinalizers (rulesMeta p))"
proof -
  let ?s = "storeReconciler pol (lib r)"
  let ?ev = "(n, ''Warning'', ''Deleting'', ''Custom Resource '' @ nnName n @
               '' is being deleted from the namespace '' @ nnNamespace n)"
  let ?c = "(\<alpha> w)\<lparr>clEvents := clEvents (\<alpha> w) @ [?ev]\<rparr>"
  obtain c' q where loop: "run_state (patchFinalizers ?s [0..<length (metaFinalizers (rulesMeta p))] p) ?c =
      (Some (errInvalid pol ''VillipRules'' n), c')"
    and q: "findObj rulesMeta n (clRules c') = Some q"
      "metaFinalizers (rulesMeta q) = oddEntries (metaFinalizers (rulesMeta p))"
    using patch_loop [of ?c n p "metaFinalizers (rulesMeta p)" 0 pol "lib r"] assms(3,4,8)
    by (fastforce simp: beforePatch_def)
  have "run_state (reconcileRules ?s n) (\<alpha> w) = ((noRequeue, Some (errInvalid pol ''VillipRules'' n)), c')"
    using loop by (simp only: run_deleting [OF assms(2-7)] Let_def case_prod_conv)
  then obtain w' where "run_state (reconcileRules r n) w = ((noRequeue, Some (errInvalid pol ''VillipRules'' n)), w')" "\<alpha> w' = c'"
    using simulates_run [OF transfer_reconcileRules [OF assms(1)], of n w]
    by (cases "run_state (reconcileRules r n) w") simp
  with q show ?thesis by blast
qed

lemma rules_deletion_several_finalizers_witness:
  "\<exists>w' e q. run_state (reconcileRules exampleReconciler (exampleKey ''tcpexample''))
      (exampleCluster\<lparr>clRules := [deletedRule [''other/finalizer'', villiprulesFinalizer]]\<rparr>) =
      ((noRequeue, Some e), w') \<and>
    findObj rulesMeta (exampleKey ''tcpexample'') (clRules w') = Some q \<and>
    metaFinalizers (rulesMeta q) = [villiprulesFinalizer]"
proof -
  have "clFaults exampleCluster = []" by (simp add: exampleCluster_def)
  then show ?thesis
    using rules_deletion_several_finalizers [OF behavesLike_store [of examplePolicy exampleLib],
        of "exampleCluster\<lparr>clRules := [deletedRule [''other/finalizer'', villiprulesFinalizer]]\<rparr>"
          "exampleKey ''tcpexample''" "deletedRule [''other/finalizer'', villiprulesFinalizer]"]
    by (auto simp: store_calls(1) exampleLib_laws deletedRule_simps)
qed

end
