(* ===== verification/Invariants.thy ===== *)
theory Invariants
  imports Proxy_Safety
begin

text \<open>
  Hoare triples.  \<open>maintains\<close> is the case in which the pre- and the postcondition on the world
  are the same invariant: from every world in \<open>I\<close>, a run of \<open>m\<close> ends in \<open>I\<close> with a result in
  \<open>Q\<close>.  In a \<open>triple\<close> the postcondition also depends on the result.
\<close>

named_theorems maintains_intros \<open>introduction rules for computations that keep an invariant\<close>

definition maintains :: "('w \<Rightarrow> bool) \<Rightarrow> ('a \<Rightarrow> bool) \<Rightarrow> ('w, 'a) go \<Rightarrow> bool" where
  "maintains I Q m \<longleftrightarrow> (\<forall>w. I w \<longrightarrow> I (snd (run_state m w)) \<and> Q (fst (run_state m w)))"

lemma maintainsD: "maintains I Q m \<Longrightarrow> I w \<Longrightarrow> run_state m w = (a, w') \<Longrightarrow> I w' \<and> Q a"
  unfolding maintains_def by (metis fst_conv snd_conv)

lemma maintains_ret [maintains_intros]: "Q a \<Longrightarrow> maintains I Q (ret a)"
  by (simp add: maintains_def)

lemma maintains_bind:
  assumes "maintains I P m" and "\<And>a. P a \<Longrightarrow> maintains I Q (k a)"
  shows "maintains I Q (Monad_Syntax.bind m k)"
  unfolding maintains_def
proof (intro allI impI)
  fix w
  assume "I w"
  obtain a w1 where m: "run_state m w = (a, w1)" by (cases "run_state m w")
  then have 1: "I w1" "P a" using maintainsD [OF assms(1) \<open>I w\<close>] by simp_all
  obtain b w2 where k: "run_state (k a) w1 = (b, w2)" by (cases "run_state (k a) w1")
  then have "I w2" "Q b" using maintainsD [OF assms(2) [OF 1(2)] 1(1)] by simp_all
  then show "I (snd (run_state (Monad_Syntax.bind m k) w)) \<and> Q (fst (run_state (Monad_Syntax.bind m k) w))"
    by (simp add: m k)
qed

definition triple :: "('w \<Rightarrow> bool) \<Rightarrow> ('w, 'a) go \<Rightarrow> ('a \<Rightarrow> 'w \<Rightarrow> bool) \<Rightarrow> bool" where
  "triple P m R \<longleftrightarrow> (\<forall>w. P w \<longrightarrow> R (fst (run_state m w)) (snd (run_state m w)))"

lemma tripleD: "triple P m R \<Longrightarrow> P w \<Longrightarrow> run_state m w = (a, w') \<Longrightarrow> R a w'"
  unfolding triple_def by (metis fst_conv snd_conv)

text \<open>What was learnt from the result of the first step may strengthen the invariant of the rest.\<close>

lemma maintains_learn:
  assumes "triple I m J" and "\<And>a. maintains (J a) Q (k a)" and "\<And>a w. J a w \<Longrightarrow> I w"
  shows "maintains I Q (Monad_Syntax.bind m k)"
  unfolding maintains_def
proof (intro allI impI)
  fix w
  assume "I w"
  obtain a w1 where m: "run_state m w = (a, w1)" by (cases "run_state m w")
  obtain b w2 where k: "run_state (k a) w1 = (b, w2)" by (cases "run_state (k a) w1")
  have "J a w2 \<and> Q b" by (rule maintainsD [OF assms(2) tripleD [OF assms(1) \<open>I w\<close> m] k])
  then show "I (snd (run_state (Monad_Syntax.bind m k) w)) \<and> Q (fst (run_state (Monad_Syntax.bind m k) w))"
    using assms(3) [of a w2] by (simp add: m k)
qed

lemma maintains_weaken: "maintains I P m \<Longrightarrow> (\<And>a. P a \<Longrightarrow> Q a) \<Longrightarrow> maintains I Q m"
  by (simp add: maintains_def)

lemma maintains_sum [maintains_intros]:
  assumes "\<And>a. x = Inl a \<Longrightarrow> maintains I Q (f a)" and "\<And>b. x = Inr b \<Longrightarrow> maintains I Q (g b)"
  shows "maintains I Q (case x of Inl a \<Rightarrow> f a | Inr b \<Rightarrow> g b)"
  using assms by (cases x) simp_all

lemma maintains_option [maintains_intros]:
  assumes "x = None \<Longrightarrow> maintains I Q f" and "\<And>b. x = Some b \<Longrightarrow> maintains I Q (g b)"
  shows "maintains I Q (case x of None \<Rightarrow> f | Some b \<Rightarrow> g b)"
  using assms by (cases x) simp_all

lemma maintains_outcome [maintains_intros]:
  assumes "x = Panic \<Longrightarrow> maintains I Q f" and "\<And>b. x = Value b \<Longrightarrow> maintains I Q (g b)"
  shows "maintains I Q (case x of Panic \<Rightarrow> f | Value b \<Rightarrow> g b)"
  using assms by (cases x) simp_all

lemma maintains_list [maintains_intros]:
  assumes "x = [] \<Longrightarrow> maintains I Q f" and "\<And>b bs. x = b # bs \<Longrightarrow> maintains I Q (g b bs)"
  shows "maintains I Q (case x of [] \<Rightarrow> f | b # bs \<Rightarrow> g b bs)"
  using assms by (cases x) simp_all

lemma maintains_prod [maintains_intros]:
  assumes "\<And>a b. x = (a, b) \<Longrightarrow> maintains I Q (f a b)"
  shows "maintains I Q (case x of (a, b) \<Rightarrow> f a b)"
  using assms by (cases x) simp

lemma maintains_if [maintains_intros]:
  assumes "b \<Longrightarrow> maintains I Q m" and "\<not> b \<Longrightarrow> maintains I Q n"
  shows "maintains I Q (if b then m else n)"
  using assms by simp

lemma maintains_let [maintains_intros]: "maintains I Q (f t) \<Longrightarrow> maintains I Q (let x = t in f x)"
  by simp

end
