(* ===== verification/Rolling_Client.thy ===== *)
theory Rolling_Client
  imports Invariants
begin

text \<open>
  What a pass over a rule does to Deployments: it only rolls them out, so every Deployment it
  sends was listed, or answered, in the same pass and differs from that one in the reload stamp.
  The locale \<open>rolling_client\<close> is the contract: \<open>J S\<close> is an invariant that may know the
  Deployments \<open>S\<close> seen so far, \<open>stems S d\<close> says that \<open>d\<close> was obtained from one of them,
  and the client promises to keep \<open>J\<close> for requests that send only such Deployments.  Then
  passes over rules keep it.  The instances are the careful clients (\<open>Careful_Client\<close>) and
  the server seen from one key (\<open>Isolation\<close>).
\<close>

locale rolling_client =
  fixes r :: "'w reconciler"
    and stems :: "deployment set \<Rightarrow> deployment \<Rightarrow> bool"
    and J :: "deployment set \<Rightarrow> 'w \<Rightarrow> bool"
  assumes forget: "\<And>S S' w. J S' w \<Longrightarrow> S \<subseteq> S' \<Longrightarrow> J S w"
    and stem_self: "\<And>S d. d \<in> S \<Longrightarrow> stems S d"
    and stem_reload: "\<And>S d now. stems S d \<Longrightarrow> stems S (setReloadedAt now d)"
    and ticks: "\<And>S. maintains (J S) (\<lambda>_. True) (timeNow r)"
      "\<And>S. maintains (J S) (\<lambda>_. True) (timeNowString r)"
      "\<And>S n t x y. maintains (J S) (\<lambda>_. True) (recordEvent r n t x y)"
    and reads: "\<And>S n. maintains (J S) (\<lambda>_. True) (apiGetRules r n)"
      "\<And>S n. maintains (J S) (\<lambda>_. True) (apiGetConfigMap r n)"
    and other_writes: "\<And>S q. maintains (J S) (\<lambda>_. True) (apiUpdateRules r q)"
      "\<And>S q. maintains (J S) (\<lambda>_. True) (apiUpdateRulesStatus r q)"
      "\<And>S q x. maintains (J S) (\<lambda>_. True) (apiPatchRules r q x)"
      "\<And>S cm. maintains (J S) (\<lambda>_. True) (apiCreateConfigMap r cm)"
      "\<And>S cm. maintains (J S) (\<lambda>_. True) (apiUpdateConfigMap r cm)"
    and listDeployments: "\<And>S ns sel. triple (J S) (apiListDeployments r ns sel)
      (\<lambda>x. J ({d. \<exists>ds. x = Inr ds \<and> d \<in> set ds} \<union> S))"
    and updateDeployment: "\<And>S d now. stems S d \<Longrightarrow>
      triple (J S) (apiUpdateDeployment r (setReloadedAt now d)) (\<lambda>x. J ({d. x = Inr d} \<union> S))"
begin

lemmas rolling_steps = ticks [THEN maintains_bind] reads [THEN maintains_bind] other_writes [THEN maintains_bind]

lemma bind_updateDeployment:
  assumes "stems S d" and "\<And>e. maintains (J S) Q (k (Inl e))"
    and "\<And>d'. maintains (J (insert d' S)) Q (k (Inr d'))"
  shows "maintains (J S) Q (Monad_Syntax.bind (apiUpdateDeployment r (setReloadedAt now d)) k)"
proof (rule maintains_learn [OF updateDeployment [OF assms(1)]])
  show "maintains (J ({d. x = Inr d} \<union> S)) Q (k x)" for x
    using assms(2,3) by (cases x) simp_all
qed (auto intro: forget)

lemma bind_listDeployments:
  assumes "\<And>e. maintains (J S) Q (k (Inl e))" and "\<And>ds. maintains (J (set ds \<union> S)) Q (k (Inr ds))"
  shows "maintains (J S) Q (Monad_Syntax.bind (apiListDeployments r ns sel) k)"
proof (rule maintains_learn [OF listDeployments])
  show "maintains (J ({d. \<exists>ds. x = Inr ds \<and> d \<in> set ds} \<union> S)) Q (k x)" for x
    using assms by (cases x) simp_all
qed (auto intro: forget)

text \<open>The steps of the rules reconciler.\<close>

lemma kept_setRulesStatus: "maintains (J S) (\<lambda>_. True) (setRulesStatus r p cond)"
  unfolding setRulesStatus_def setRulesCondition_def
  by (intro maintains_bind [OF maintains_bind [OF ticks(1) maintains_ret]] rolling_steps maintains_intros)
     simp_all

lemma kept_patchFinalizers: "maintains (J S) (\<lambda>_. True) (patchFinalizers r is p)"
proof (induction "is" arbitrary: p)
  case (Cons i "is")
  show ?case unfolding patchFinalizers.simps by (intro rolling_steps maintains_intros Cons.IH) simp_all
qed (simp add: maintains_ret)

lemma kept_rulesDeleted: "maintains (J S) (\<lambda>_. True) (villipRulesMarkedToBeDeleted r p m)"
  unfolding villipRulesMarkedToBeDeleted_def doFinalizerOperationsForVillipRules_def
  by (intro maintains_intros rolling_steps kept_patchFinalizers) simp_all

lemma kept_rolloutNames: "stems S d \<Longrightarrow> maintains (J S) (\<lambda>_. True) (rolloutNames r name ns d)"
proof (induction ns arbitrary: d S)
  case (Cons m ns)
  show ?case
    unfolding rolloutNames.simps
  proof (intro maintains_if rolling_steps bind_updateDeployment)
    fix now d'
    have later: "maintains (J (insert d' S)) (\<lambda>_. True) (rolloutNames r name ns d')"
      by (rule Cons.IH) (simp add: stem_self)
    from later show "maintains (J (insert d' S)) (\<lambda>_. True)
        (rolloutNames r name ns (case Inr d' of Inl _ \<Rightarrow> setReloadedAt now d | Inr dep' \<Rightarrow> dep'))"
      by simp
  qed (simp_all add: Cons stem_reload)
qed (simp add: maintains_ret)

lemma kept_rolloutDeployments:
  "\<forall>d \<in> set ds. stems S d \<Longrightarrow> maintains (J S) (\<lambda>_. True) (rolloutDeployments r name ds)"
proof (induction ds)
  case (Cons d ds)
  have "maintains (J S) (\<lambda>_. True)
      (case metaAnnotations (deploymentMeta d) confAnnotation of None \<Rightarrow> ret ()
       | Some a \<Rightarrow> rolloutNames r name (splitString (CHR '','') a) d)"
    using Cons.prems by (intro maintains_intros kept_rolloutNames) simp_all
  then show ?case
    unfolding rolloutDeployments.simps using Cons.prems by (intro maintains_bind Cons.IH) auto
qed (simp add: maintains_ret)

lemma kept_rolloutDependentProxies:
  "maintains (J S) (\<lambda>_. True) (rolloutDependentProxies r ns name)"
  unfolding rolloutDependentProxies_def
  by (intro bind_listDeployments maintains_bind [OF kept_rolloutDeployments] maintains_intros)
     (auto intro: stem_self)

lemma kept_reconcileRules: "maintains (J S) (\<lambda>_. True) (reconcileRules r m)"
proof -
  have finish: "maintains (J S) (\<lambda>_. True) (finishConfigMapUpdate r p s)" for p s
    unfolding finishConfigMapUpdate_def
    by (intro maintains_bind [OF kept_setRulesStatus] maintains_bind [OF kept_rolloutDependentProxies]
          maintains_intros) simp_all
  have update: "maintains (J S) (\<lambda>_. True) (updateConfigMap r m p cm s)" for p cm s
    unfolding updateConfigMap_def
    by (intro maintains_bind [OF kept_setRulesStatus] rolling_steps finish maintains_intros) simp_all
  have create: "maintains (J S) (\<lambda>_. True) (createConfigMap r p)" for p
    unfolding createConfigMap_def
    by (intro maintains_bind [OF kept_setRulesStatus] rolling_steps maintains_intros) simp_all
  have data: "maintains (J S) (\<lambda>_. True) (reconcileRulesData r m p cm)" for p cm
    unfolding reconcileRulesData_def
    by (intro update maintains_intros) simp_all
  have init: "maintains (J S) (\<lambda>_. True) (initRulesStatus r p)" for p
    unfolding initRulesStatus_def
    by (intro maintains_bind [OF kept_setRulesStatus] maintains_intros) simp_all
  have fin: "maintains (J S) (\<lambda>_. True) (addRulesFinalizer r p)" for p
    unfolding addRulesFinalizer_def
    by (intro rolling_steps maintains_intros) simp_all
  show ?thesis
    unfolding reconcileRules_def
    by (intro rolling_steps maintains_bind [OF init] maintains_bind [OF fin] init fin
          maintains_bind [OF kept_rulesDeleted] create data maintains_intros) simp_all
qed

end

end
