(* ===== verification/Isolation.thy ===== *)
theory Isolation
  imports Rolling_Client Rules_Loop Rules_Frame Operator_Schedule
begin

text \<open>
  What a pass of one key leaves alone.  \<open>proxyFrame\<close> and \<open>rulesFrame\<close> answer for the
  kinds a reconciler only writes under its own key; here the Deployments of other keys, which
  passes over rules roll out.  \<open>seen n x\<close> is the server seen from the key \<open>n\<close> whose
  Deployment was \<open>x\<close>: it is an invariant of a \<open>rolling_client\<close>.
\<close>

section \<open>A Deployment under rollouts\<close>

definition rolledFrom :: "deployment option \<Rightarrow> deployment \<Rightarrow> bool" where
  "rolledFrom x e \<longleftrightarrow> (\<exists>d. x = Some d \<and> (e = d \<or> reloaded d e))"

text \<open>A Deployment as the server stores it: encoded, and not one that should have gone away.\<close>

definition tidy :: "deployment \<Rightarrow> bool" where
  "tidy d \<longleftrightarrow> encodeDeployment d = d \<and> \<not> finalized (deploymentMeta d)"

definition seen :: "namespacedName \<Rightarrow> deployment option \<Rightarrow> deployment set \<Rightarrow> cluster \<Rightarrow> bool" where
  "seen n x S c \<longleftrightarrow>
     (\<forall>d. x = Some d \<longrightarrow> tidy d \<and> findObj deploymentMeta n (clDeployments c) \<noteq> None) \<and>
     (\<forall>e \<in> set (clDeployments c) \<union> S. keyOf (deploymentMeta e) = n \<longrightarrow> rolledFrom x e)"

definition stamped :: "deployment set \<Rightarrow> deployment \<Rightarrow> bool" where
  "stamped S d \<longleftrightarrow> d \<in> S \<or> (\<exists>e \<in> S. \<exists>now. d = setReloadedAt now e)"

lemma setReloadedAt_idem [simp]: "setReloadedAt now (setReloadedAt before d) = setReloadedAt now d"
  by (simp add: setReloadedAt_def)

lemma stamped_source: "stamped S d \<Longrightarrow> \<exists>e \<in> S. setReloadedAt now d = setReloadedAt now e"
  by (auto simp: stamped_def)

lemma encode_setReloadedAt: "encodeDeployment (setReloadedAt now d) = setReloadedAt now (encodeDeployment d)"
  by (simp add: encodeDeployment_def setReloadedAt_def Let_def)

lemma rolledFrom_meta:
  "rolledFrom (Some d) e \<Longrightarrow> \<exists>v. deploymentMeta e = (deploymentMeta d)\<lparr>metaResourceVersion := v\<rparr>"
  unfolding rolledFrom_def reloaded_def
  by (elim exE conjE disjE) (rule exI [of _ "metaResourceVersion (deploymentMeta d)"], simp, auto)

text \<open>What the server stores when a listed Deployment is sent with a new stamp.\<close>

lemma rolledFrom_write:
  fixes now :: string
  assumes "rolledFrom (Some d) e" and "rolledFrom (Some d) old" and "tidy d"
  defines "new \<equiv> (encodeDeployment (setReloadedAt now e))
    \<lparr>deploymentMeta := nextVersion (deploymentMeta old) (deploymentMeta e)\<rparr>"
  shows "rolledFrom (Some d) new" and "\<not> finalized (deploymentMeta new)"
proof -
  obtain v u where m: "deploymentMeta e = (deploymentMeta d)\<lparr>metaResourceVersion := v\<rparr>"
    "deploymentMeta old = (deploymentMeta d)\<lparr>metaResourceVersion := u\<rparr>"
    using rolledFrom_meta assms(1,2) by blast
  have enc: "encodeDeployment d = d" and nf: "\<not> finalized (deploymentMeta d)"
    using assms(3) by (simp_all add: tidy_def)
  have meta: "nextVersion (deploymentMeta old) (deploymentMeta e) =
      (deploymentMeta d)\<lparr>metaResourceVersion := Suc u\<rparr>"
    by (simp add: nextVersion_def m)
  have "encodeDeployment (setReloadedAt now e)\<lparr>deploymentMeta := m'\<rparr> =
      (setReloadedAt now d)\<lparr>deploymentMeta := m'\<rparr>" for m'
  proof -
    have "encodeDeployment (x\<lparr>deploymentMeta := k\<rparr>) = (encodeDeployment x)\<lparr>deploymentMeta := k\<rparr>" for x k
      by (simp add: encodeDeployment_def Let_def)
    moreover have "setReloadedAt now (x\<lparr>deploymentMeta := k\<rparr>) = (setReloadedAt now x)\<lparr>deploymentMeta := k\<rparr>" for x k
      by (simp add: setReloadedAt_def)
    ultimately show ?thesis
      using assms(1) by (auto simp: rolledFrom_def reloaded_def encode_setReloadedAt enc)
  qed
  then have "reloaded d new" unfolding reloaded_def new_def meta by blast
  then show "rolledFrom (Some d) new" by (simp add: rolledFrom_def)
  show "\<not> finalized (deploymentMeta new)" using nf by (simp add: new_def meta finalized_def)
qed

section \<open>The server, seen from one key\<close>

lemma seen_faults [simp]: "seen n x S (c\<lparr>clFaults := fs\<rparr>) \<longleftrightarrow> seen n x S c"
  by (simp add: seen_def)

lemma seen_serve:
  assumes "\<And>c. seen n x S c \<Longrightarrow> seen n x (D (fst (f c)) \<union> S) (snd (f c))" and "\<And>e. D (Inl e) = {}"
  shows "triple (seen n x S) (serve f) (\<lambda>y. seen n x (D y \<union> S))"
  unfolding triple_def
proof (intro allI impI)
  fix c
  assume c: "seen n x S c"
  show "seen n x (D (fst (run_state (serve f) c)) \<union> S) (snd (run_state (serve f) c))"
  proof (cases "clFaults c")
    case Nil
    then show ?thesis using assms(1) [OF c] by (simp add: serve_def)
  next
    case (Cons y fs)
    then show ?thesis
      using assms(1) [of "c\<lparr>clFaults := fs\<rparr>"] c by (cases y) (simp_all add: serve_def assms(2))
  qed
qed

lemma seen_keep:
  assumes "\<And>c. seen n x S c \<Longrightarrow> seen n x S (snd (f c))"
  shows "maintains (seen n x S) (\<lambda>_. True) (serve f)"
  using seen_serve [of n x S "\<lambda>_. {}" f] assms by (simp add: triple_def maintains_def)

lemma seen_other_writes:
  "maintains (seen n x S) (\<lambda>_. True) (apiUpdateRules (storeReconciler pol l) q)"
  "maintains (seen n x S) (\<lambda>_. True) (apiUpdateRulesStatus (storeReconciler pol l) q)"
  "maintains (seen n x S) (\<lambda>_. True) (apiPatchRules (storeReconciler pol l) q p)"
  "maintains (seen n x S) (\<lambda>_. True) (apiCreateConfigMap (storeReconciler pol l) cm)"
  "maintains (seen n x S) (\<lambda>_. True) (apiUpdateConfigMap (storeReconciler pol l) cm)"
  "maintains (seen n x S) (\<lambda>_. True) (apiGetRules (storeReconciler pol l) m)"
  "maintains (seen n x S) (\<lambda>_. True) (apiGetConfigMap (storeReconciler pol l) m)"
  by (auto simp: store_calls storeUpdateRules_def storePatchRules_def storeCreateConfigMap_def
      storeUpdateConfigMap_def Let_def seen_def intro!: seen_keep split: option.split)

lemma seen_ticks:
  "maintains (seen n x S) (\<lambda>_. True) (timeNow (storeReconciler pol l))"
  "maintains (seen n x S) (\<lambda>_. True) (timeNowString (storeReconciler pol l))"
  "maintains (seen n x S) (\<lambda>_. True) (recordEvent (storeReconciler pol l) m t y z)"
  by (auto simp: maintains_def storeReconciler_def seen_def)

lemma storeUpdateDeployment_cases:
  "(\<exists>err. storeUpdateDeployment pol d c = (Inl err, c)) \<or>
   (\<exists>old. findObj deploymentMeta (keyOf (deploymentMeta d)) (clDeployments c) = Some old \<and>
      (let new = (encodeDeployment d)\<lparr>deploymentMeta := nextVersion (deploymentMeta old) (deploymentMeta d)\<rparr>
       in storeUpdateDeployment pol d c =
            (Inr new, c\<lparr>clDeployments := writeObj deploymentMeta new (clDeployments c)\<rparr>)))"
  by (simp add: storeUpdateDeployment_def Let_def split: option.split)

lemma seen_update:
  assumes "seen n x S c" and "stamped S d"
  shows "seen n x ({e. fst (storeUpdateDeployment pol (setReloadedAt now d) c) = Inr e} \<union> S)
    (snd (storeUpdateDeployment pol (setReloadedAt now d) c))"
proof -
  let ?d = "setReloadedAt now d"
  let ?k = "keyOf (deploymentMeta ?d)"
  obtain e where e: "e \<in> S" "?d = setReloadedAt now e" using stamped_source [OF assms(2)] by blast
  have meta: "deploymentMeta (setReloadedAt now y) = deploymentMeta y" for y by (simp add: setReloadedAt_def)
  let ?new = "\<lambda>old. (encodeDeployment ?d)\<lparr>deploymentMeta := nextVersion (deploymentMeta old) (deploymentMeta ?d)\<rparr>"
  consider (failed) err where "storeUpdateDeployment pol ?d c = (Inl err, c)"
    | (stored) old where "findObj deploymentMeta ?k (clDeployments c) = Some old"
      "storeUpdateDeployment pol ?d c =
        (Inr (?new old), c\<lparr>clDeployments := writeObj deploymentMeta (?new old) (clDeployments c)\<rparr>)"
    using storeUpdateDeployment_cases [of pol ?d c] unfolding Let_def by blast
  then show ?thesis
  proof cases
    case failed
    then show ?thesis using assms(1) by simp
  next
    case stored
    have key: "keyOf (deploymentMeta (?new old)) = ?k" by (simp add: nextVersion_def keyOf_def)
    have old: "old \<in> set (clDeployments c)" "keyOf (deploymentMeta old) = ?k"
      using stored(1) findObj_in findObj_key by fastforce+
    show ?thesis
    proof (cases "?k = n")
      case False
      have "y \<in> set (writeObj deploymentMeta (?new old) (clDeployments c)) \<Longrightarrow> keyOf (deploymentMeta y) = n \<Longrightarrow>
          y \<in> set (clDeployments c)" for y
        using False key by (auto simp: writeObj_def replaceObj_def removeObj_def split: if_splits)
      moreover have "findObj deploymentMeta n (writeObj deploymentMeta (?new old) (clDeployments c)) =
          findObj deploymentMeta n (clDeployments c)"
        using sameAway_find [OF sameAway_write [of deploymentMeta "?new old", OF key]] False by simp
      ultimately show ?thesis using assms(1) False key by (auto simp: stored(2) seen_def)
    next
      case True
      have r: "rolledFrom x e" "rolledFrom x old"
        using assms(1) e old True meta by (auto simp: seen_def)
      then obtain d0 where x: "x = Some d0" by (auto simp: rolledFrom_def)
      have t: "tidy d0" using assms(1) by (simp add: seen_def x)
      have w: "rolledFrom x (?new old)" "\<not> finalized (deploymentMeta (?new old))"
        using rolledFrom_write [OF r [unfolded x] t, of now] by (simp_all add: e(2) meta x)
      then have "writeObj deploymentMeta (?new old) (clDeployments c) = replaceObj deploymentMeta (?new old) (clDeployments c)"
        by (simp add: writeObj_def)
      moreover have "findObj deploymentMeta n (replaceObj deploymentMeta (?new old) (clDeployments c)) = Some (?new old)"
        using stored(1) key True by (simp add: findObj_replaceObj)
      ultimately show ?thesis
        using assms(1) w(1) key by (auto simp: stored(2) seen_def replaceObj_def)
    qed
  qed
qed

interpretation fromKey: rolling_client "storeReconciler pol l" stamped "seen n x" for pol l n x
proof
  show "seen n x S' w \<Longrightarrow> S \<subseteq> S' \<Longrightarrow> seen n x S w" for S S' w by (auto simp: seen_def)
  show "triple (seen n x S) (apiListDeployments (storeReconciler pol l) ns sel)
      (\<lambda>y. seen n x ({d. \<exists>ds. y = Inr ds \<and> d \<in> set ds} \<union> S))" for S ns sel
    unfolding store_calls
    by (rule seen_serve) (auto simp: seen_def selectDeployments_def)
  show "triple (seen n x S) (apiUpdateDeployment (storeReconciler pol l) (setReloadedAt now d))
      (\<lambda>y. seen n x ({e. y = Inr e} \<union> S))" if "stamped S d" for S d now
    unfolding store_calls by (rule seen_serve) (simp_all add: seen_update [OF _ that])
  show "stamped S (setReloadedAt now d)" if "stamped S d" for S d now
    using stamped_source [OF that] unfolding stamped_def by blast
qed (simp_all add: seen_ticks seen_other_writes, simp add: stamped_def)

section \<open>Schedules\<close>

lemma seen_frame: "sameAway deploymentMeta m (clDeployments c) (clDeployments c') \<Longrightarrow> m \<noteq> n \<Longrightarrow>
    seen n x {} c \<Longrightarrow> seen n x {} c'"
proof -
  assume a: "sameAway deploymentMeta m (clDeployments c) (clDeployments c')" "m \<noteq> n" and s: "seen n x {} c"
  have "e \<in> set (clDeployments c)" if "e \<in> set (clDeployments c')" "keyOf (deploymentMeta e) = n" for e
  proof -
    have "e \<in> set (filter (\<lambda>y. keyOf (deploymentMeta y) \<noteq> m) (clDeployments c'))" using that a(2) by simp
    then have "e \<in> set (filter (\<lambda>y. keyOf (deploymentMeta y) \<noteq> m) (clDeployments c))"
      using a(1) by (simp only: sameAway_def)
    then show ?thesis by simp
  qed
  then show ?thesis using s sameAway_find [OF a(1), of n] a(2) by (auto simp: seen_def)
qed

lemma seen_request:
  assumes "libLaws l" and "q \<noteq> ProxyPass n" and "seen n x {} c"
  shows "seen n x {} (runRequest (storeReconciler pol l) q c)"
proof (cases q)
  case (ProxyPass m)
  then show ?thesis
    using proxyPass_frame [OF assms(1), of m c pol] assms(2) seen_frame [OF _ _ assms(3), of m]
    by (simp add: proxyFrame_def)
next
  case (RulesPass m)
  have "maintains (seen n x {}) (\<lambda>_. True) (reconcileRules (storeReconciler pol l) m)"
    by (rule fromKey.kept_reconcileRules)
  then show ?thesis using assms(3) by (simp add: RulesPass maintains_def)
qed

lemma seen_schedule:
  "libLaws l \<Longrightarrow> ProxyPass n \<notin> set qs \<Longrightarrow> seen n x {} c \<Longrightarrow>
     seen n x {} (runSchedule (storeReconciler pol l) qs c)"
proof (induction qs arbitrary: c)
  case (Cons q qs)
  have "seen n x {} (runRequest (storeReconciler pol l) q c)"
    using Cons.prems by (intro seen_request) auto
  then show ?case using Cons by simp
qed simp

text \<open>At most one Deployment has the key, and it is stored as the server stores it.\<close>

definition tidyAt :: "namespacedName \<Rightarrow> cluster \<Rightarrow> bool" where
  "tidyAt n c \<longleftrightarrow>
     (\<forall>d \<in> set (clDeployments c). keyOf (deploymentMeta d) = n \<longrightarrow>
        tidy d \<and> findObj deploymentMeta n (clDeployments c) = Some d)"

lemma seen_start: "tidyAt n c \<Longrightarrow> seen n (findObj deploymentMeta n (clDeployments c)) {} c"
  by (auto simp: tidyAt_def seen_def rolledFrom_def dest: findObj_in findObj_key)

lemma seen_end:
  assumes "seen n x {} c"
  shows "case x of None \<Rightarrow> findObj deploymentMeta n (clDeployments c) = None
    | Some d \<Rightarrow> \<exists>d'. findObj deploymentMeta n (clDeployments c) = Some d' \<and> (d' = d \<or> reloaded d d')"
proof (cases "findObj deploymentMeta n (clDeployments c)")
  case None
  then show ?thesis using assms by (auto simp: seen_def split: option.split)
next
  case (Some e)
  then have "rolledFrom x e" using assms findObj_in [OF Some] findObj_key [OF Some] by (simp add: seen_def)
  then show ?thesis using Some by (auto simp: rolledFrom_def)
qed

text \<open>C10: passes are isolated by key, whatever requests fail and in whatever order they run.  A proxy
  and its Service change only in passes over that proxy, a rule and its ConfigMap only in
  passes over that rule.  A Deployment is created and reconfigured only in passes over the proxy
  of its key: passes over other proxies leave it as it is, and all that passes over rules can do
  to it, any number of times, is a rollout: the annotations of its pod template become the
  reload stamp, and the resource version moves.\<close>

theorem operator_isolation:
  assumes "behavesLike \<alpha> pol r" and "libLaws (lib r)"
  shows "let c = \<alpha> w; c' = \<alpha> (runSchedule r qs w) in
    (ProxyPass n \<notin> set qs \<longrightarrow> findObj proxyMeta n (clProxies c') = findObj proxyMeta n (clProxies c) \<and>
       findObj serviceMeta n (clServices c') = findObj serviceMeta n (clServices c)) \<and>
    (RulesPass n \<notin> set qs \<longrightarrow> findObj rulesMeta n (clRules c') = findObj rulesMeta n (clRules c) \<and>
       findObj configMapMeta n (clConfigMaps c') = findObj configMapMeta n (clConfigMaps c)) \<and>
    (set qs \<subseteq> ProxyPass ` (- {n}) \<longrightarrow>
       findObj deploymentMeta n (clDeployments c') = findObj deploymentMeta n (clDeployments c)) \<and>
    (ProxyPass n \<notin> set qs \<longrightarrow> tidyAt n c \<longrightarrow>
       (case findObj deploymentMeta n (clDeployments c) of
          None \<Rightarrow> findObj deploymentMeta n (clDeployments c') = None
        | Some d \<Rightarrow> \<exists>d'. findObj deploymentMeta n (clDeployments c') = Some d' \<and> (d' = d \<or> reloaded d d')))"
proof -
  let ?s = "storeReconciler pol (lib r)"
  let ?c' = "runSchedule ?s qs (\<alpha> w)"
  have quiet: "findObj deploymentMeta n (clDeployments (runSchedule ?s qs c)) = findObj deploymentMeta n (clDeployments c)"
    if "set qs \<subseteq> ProxyPass ` (- {n})" for c
    using that
  proof (induction qs arbitrary: c)
    case (Cons q qs)
    then obtain m where q: "q = ProxyPass m" "m \<noteq> n" by auto
    have "findObj deploymentMeta n (clDeployments (runRequest ?s q c)) = findObj deploymentMeta n (clDeployments c)"
      using proxyPass_frame [OF assms(2), of m c pol] q by (auto simp: proxyFrame_def sameAway_find)
    with Cons show ?case by simp
  qed simp
  have rolled: "case findObj deploymentMeta n (clDeployments (\<alpha> w)) of
      None \<Rightarrow> findObj deploymentMeta n (clDeployments ?c') = None
    | Some d \<Rightarrow> \<exists>d'. findObj deploymentMeta n (clDeployments ?c') = Some d' \<and> (d' = d \<or> reloaded d d')"
    if "ProxyPass n \<notin> set qs" "tidyAt n (\<alpha> w)"
    by (rule seen_end [OF seen_schedule [OF assms(2) that(1) seen_start [OF that(2)]]])
  show ?thesis
    using runSchedule_sides [OF assms(2), of n qs pol "\<alpha> w"] quiet [of "\<alpha> w"] rolled
    unfolding runSchedule_transfer [OF assms(1)] Let_def proxySide_def rulesSide_def by blast
qed

text \<open>The rule of the example is reconciled while a Deployment that mounts it runs.\<close>

lemma operator_isolation_witness:
  "findObj proxyMeta (exampleKey ''villip'')
     (clProxies (runSchedule exampleReconciler [RulesPass (exampleKey ''tcpexample''), ProxyPass (exampleKey ''web'')]
        (exampleCluster\<lparr>clDeployments := [dependentDeployment ''villip'' ''VillipProxyController'']\<rparr>))) = Some exampleProxy \<and>
   (\<exists>d'. findObj deploymentMeta (exampleKey ''villip'')
     (clDeployments (runSchedule exampleReconciler [RulesPass (exampleKey ''tcpexample''), ProxyPass (exampleKey ''web'')]
        (exampleCluster\<lparr>clDeployments := [dependentDeployment ''villip'' ''VillipProxyController'']\<rparr>))) = Some d' \<and>
     (d' = dependentDeployment ''villip'' ''VillipProxyController'' \<or>
      reloaded (dependentDeployment ''villip'' ''VillipProxyController'') d'))"
proof -
  let ?d = "dependentDeployment ''villip'' ''VillipProxyController''"
  let ?c = "exampleCluster\<lparr>clDeployments := [?d]\<rparr>"
  have "exampleKey ''web'' \<noteq> exampleKey ''villip''" by (simp add: exampleKey_def)
  then have other: "ProxyPass (exampleKey ''villip'') \<notin>
      set [RulesPass (exampleKey ''tcpexample''), ProxyPass (exampleKey ''web'')]" by auto
  have key: "keyOf (deploymentMeta ?d) = exampleKey ''villip''" by (rule dependent_sel(2))
  then have at: "findObj deploymentMeta (exampleKey ''villip'') (clDeployments ?c) = Some ?d"
    by (simp add: findObj_def)
  have "serviceName ''villip''" "labelValue ''VillipProxyController''" by (simp_all add: serviceName_def name_defs)
  from dependentDeployment_stored [OF this] have "tidy ?d" by (simp add: tidy_def storedDeployment_def)
  then have tidy: "tidyAt (exampleKey ''villip'') ?c" using at by (simp add: tidyAt_def)
  have proxy: "findObj proxyMeta (exampleKey ''villip'') (clProxies ?c) = Some exampleProxy"
    by (simp add: example_findProxy)
  note iso = operator_isolation [OF behavesLike_store [of examplePolicy exampleLib],
      where n = "exampleKey ''villip''" and w = ?c
        and qs = "[RulesPass (exampleKey ''tcpexample''), ProxyPass (exampleKey ''web'')]",
      unfolded store_calls(1) Let_def at proxy option.case, OF exampleLib_laws]
  show ?thesis using iso other tidy by blast
qed

end
