(* ===== verification/Operator_Protocol.thy ===== *)
theory Operator_Protocol
  imports Proxy_Witnesses Rules_Loop Rules_Properties Conf_Annotation
begin

text \<open>
  What the two controllers and the API server promise each other about the objects the proxy
  controller builds: the annotation that the rules controller reads back, the ConfigMaps of
  the rules controller that it mounts, and the validation the server applies to what it is sent.
\<close>

section \<open>The annotation\<close>

text \<open>The Deployment of a proxy, with the annotation that lists the mounted ConfigMaps.\<close>

lemma built_annotation:
  assumes "libLaws (lib r)" and "run_state (deploymentForVillipProxy r p) w = (Value (Inr d), w')"
  obtains names where
      "metaAnnotations (deploymentMeta d) confAnnotation = Some (joinStrings '','' (sortStrings names))"
    and "podVolumes (templateSpec (deploymentSpec d)) = map volumeFor names"
    and "run_state (collectNames r (metaNamespace (proxyMeta p)) (specRuleset (proxySpec p)) []) w
      = (Inr names, w')"
proof (rule built_object [OF assms(2)])
  fix ls names m
  let ?ann = "[confAnnotation \<mapsto> joinStrings '','' (sortStrings names)]"
  let ?d = "deploymentObject (lib r) p ls (map mountFor names) (map volumeFor names) ?ann"
  assume d: "d = ?d\<lparr>deploymentMeta := m\<rparr>"
    and m: "setControllerReference (lib r) (ProxyOwner p) (deploymentMeta ?d) = Inr m"
    and names: "run_state (collectNames r (metaNamespace (proxyMeta p)) (specRuleset (proxySpec p)) []) w
      = (Inr names, w')"
  obtain ref where "setControllerReference (lib r) (ProxyOwner p) (deploymentMeta ?d) =
      Inr ((deploymentMeta ?d)\<lparr>metaOwnerReferences := [ref]\<rparr>)"
    by (rule libLaws_owner [OF assms(1), of "deploymentMeta ?d" "ProxyOwner p"])
       (simp_all add: deploymentObject_def emptyMeta_def ownerMeta_def)
  with m have "metaAnnotations m = metaAnnotations (deploymentMeta ?d)" by auto
  then show thesis by (intro that [of names] names) (simp_all add: d deploymentObject_def)
qed

lemma volumeFor_inject [simp]: "volumeFor a = volumeFor b \<longleftrightarrow> a = b"
  by (simp add: volumeFor_def)

text \<open>C15: the two controllers agree on who depends on whom.  The annotation the proxy controller
  writes on a Deployment lists, for the rules controller that splits it, exactly the ConfigMaps
  the Deployment mounts.  So a change of a rule never sends an update for a Deployment that
  does not mount its ConfigMap.\<close>

theorem rollout_reaches_mounts:
  assumes "libLaws (lib r)" and "run_state (deploymentForVillipProxy r p) w = (Value (Inr d), w')"
    and "\<And>v. v \<in> set (podVolumes (templateSpec (deploymentSpec d))) \<Longrightarrow> validName (volumeName v)"
    and "validName name"
  shows "(dependsOn name d \<longleftrightarrow> volumeFor name \<in> set (podVolumes (templateSpec (deploymentSpec d)))) \<and>
    (volumeFor name \<notin> set (podVolumes (templateSpec (deploymentSpec d))) \<longrightarrow>
      rolloutDeployments r' name [d] = ret ())"
proof (intro conjI impI)
  obtain names where
      ann: "metaAnnotations (deploymentMeta d) confAnnotation = Some (joinStrings '','' (sortStrings names))"
    and vol: "podVolumes (templateSpec (deploymentSpec d)) = map volumeFor names"
    by (rule built_annotation [OF assms(1,2)])
  have valid: "validName m" if "m \<in> set names" for m
    using assms(3) [of "volumeFor m"] that by (simp add: vol volumeFor_def)
  show iff: "dependsOn name d \<longleftrightarrow> volumeFor name \<in> set (podVolumes (templateSpec (deploymentSpec d)))"
    using conf.member_iff [OF valid assms(4)] by (auto simp: dependsOn_def ann vol)
  have none: "rolloutNames r' name ns d = ret ()" if "name \<notin> set ns" for ns
    using that by (induction ns) auto
  assume "volumeFor name \<notin> set (podVolumes (templateSpec (deploymentSpec d)))"
  then have "name \<notin> set (splitString (CHR '','') (joinStrings '','' (sortStrings names)))"
    using iff by (simp add: dependsOn_def ann)
  then show "rolloutDeployments r' name [d] = ret ()" by (simp add: ann none)
qed

lemma rollout_reaches_mounts_witness:
  "\<exists>d. run_state (deploymentForVillipProxy exampleReconciler exampleProxy) exampleCluster = (Value (Inr d), exampleCluster) \<and>
     dependsOn ''tcpexample'' d \<and> \<not> dependsOn ''other'' d"
proof -
  obtain d where d: "run_state (deploymentForVillipProxy exampleReconciler exampleProxy) exampleCluster =
      (Value (Inr d), exampleCluster)" by (rule example_built)
  have laws: "libLaws (lib exampleReconciler)" by (simp add: store_calls(1) exampleLib_laws)
  obtain names where "podVolumes (templateSpec (deploymentSpec d)) = map volumeFor names"
    and "run_state (collectNames exampleReconciler (metaNamespace (proxyMeta exampleProxy))
      (specRuleset (proxySpec exampleProxy)) []) exampleCluster = (Inr names, exampleCluster)"
    by (rule built_annotation [OF laws d])
  then have vol: "podVolumes (templateSpec (deploymentSpec d)) = [volumeFor ''tcpexample'']"
    using run_collectNames [of exampleCluster examplePolicy exampleLib] example_selectedNames
    by (simp add: selectedNames_def)
  have valid: "validName ''tcpexample''" "validName ''other''" by (simp_all add: validName_def)
  have vols: "validName (volumeName v)" if "v \<in> set (podVolumes (templateSpec (deploymentSpec d)))" for v
    using that valid by (simp add: vol volumeFor_def)
  show ?thesis
    using rollout_reaches_mounts [OF laws d vols valid(1)] rollout_reaches_mounts [OF laws d vols valid(2)] d
    by (auto simp: vol)
qed

section \<open>The ConfigMaps of rules\<close>

text \<open>What the rulesets of a proxy mount of a rule: the ConfigMap stored for the rule, found by
  namespace and labels.\<close>

lemma selects_stored:
  assumes "distinct (map (\<lambda>m. keyOf (configMapMeta m)) (clConfigMaps c))"
    and "findObj configMapMeta (keyOf (rulesMeta q)) (clConfigMaps c) = Some cm"
    and "metaNamespace (proxyMeta p) = metaNamespace (rulesMeta q)"
  shows "metaName (rulesMeta q) \<in> set (selectedNames c p) \<longleftrightarrow>
    (\<exists>rs \<in> set (specRuleset (proxySpec p)). matchLabels rs \<subseteq>\<^sub>m metaLabels (configMapMeta cm))"
proof -
  have cm: "cm \<in> set (clConfigMaps c)" "keyOf (configMapMeta cm) = keyOf (rulesMeta q)"
    using findObj_in [OF assms(2)] findObj_key [OF assms(2)] by simp_all
  have only: "m = cm" if "m \<in> set (clConfigMaps c)" "metaNamespace (configMapMeta m) = metaNamespace (rulesMeta q)"
      "metaName (configMapMeta m) = metaName (rulesMeta q)" for m
  proof -
    have k: "keyOf (configMapMeta m) = keyOf (configMapMeta cm)" using that cm(2) by (simp add: keyOf_def)
    from findObj_distinct [OF assms(1) that(1)] have "Some cm = Some m"
      unfolding k findObj_distinct [OF assms(1) cm(1)] .
    then show ?thesis by simp
  qed
  have at: "metaNamespace (configMapMeta cm) = metaNamespace (rulesMeta q)" "metaName (configMapMeta cm) = metaName (rulesMeta q)"
    using cm(2) by (simp_all add: keyOf_def)
  have "metaName (rulesMeta q) \<in> set (selectedNames c p) \<longleftrightarrow>
      (\<exists>rs \<in> set (specRuleset (proxySpec p)). \<exists>m \<in> set (clConfigMaps c).
        metaNamespace (configMapMeta m) = metaNamespace (rulesMeta q) \<and>
        matchLabels rs \<subseteq>\<^sub>m metaLabels (configMapMeta m) \<and> metaName (configMapMeta m) = metaName (rulesMeta q))"
    unfolding selectedNames_def selectConfigMaps_def assms(3) by (simp add: image_iff) metis
  then show ?thesis using only cm(1) at by metis
qed

lemma selects_elsewhere:
  assumes "metaNamespace (proxyMeta p) \<noteq> metaNamespace (configMapMeta cm)"
  shows "selectedNames (c\<lparr>clConfigMaps := filter (\<lambda>m. m \<noteq> cm) (clConfigMaps c)\<rparr>) p = selectedNames c p"
proof -
  have "selectConfigMaps (metaNamespace (proxyMeta p)) sel (filter (\<lambda>m. m \<noteq> cm) ms) =
      selectConfigMaps (metaNamespace (proxyMeta p)) sel ms" for sel ms
    using assms by (induction ms) (auto simp: selectConfigMaps_def)
  then show ?thesis by (simp add: selectedNames_def)
qed

lemma mountFor_inject [simp]: "mountFor a = mountFor b \<longleftrightarrow> a = b"
  by (simp add: mountFor_def)

text \<open>The mounting code on any client that behaves like the server.\<close>

lemma run_mounts:
  assumes "behavesLike \<alpha> pol r" and "clFaults (\<alpha> w) = []"
  obtains w' where "run_state (mountsForVillipProxy r (specRuleset (proxySpec p)) (metaNamespace (proxyMeta p))) w =
      ((map mountFor (selectedNames (\<alpha> w) p), map volumeFor (selectedNames (\<alpha> w) p),
        [confAnnotation \<mapsto> joinStrings '','' (sortStrings (selectedNames (\<alpha> w) p))], None), w')"
    and "\<alpha> w' = \<alpha> w"
  using run_mountsForVillipProxy [OF assms(2), of pol "lib r" p]
    simulates_run [OF refines_mountsForVillipProxy [OF assms(1) [unfolded behavesLike_def]], of
      "specRuleset (proxySpec p)" "metaNamespace (proxyMeta p)" w]
  by (cases "run_state (mountsForVillipProxy r (specRuleset (proxySpec p)) (metaNamespace (proxyMeta p))) w") auto

text \<open>C36: which rules a proxy mounts.  Let the ConfigMap of a rule be stored with the labels the
  rules controller gives it.  Resolving the rulesets of a proxy in the namespace of the rule
  yields a volume and a mount with the name of the rule exactly when every label of some ruleset
  is a label of the rule; an empty ruleset takes every rule of the namespace.  For a proxy of
  another namespace the ConfigMap makes no difference: mounts, volumes and annotation are the
  ones without it.\<close>

theorem ruleset_selects_rule_iff:
  fixes p :: villipProxy
  assumes "behavesLike \<alpha> pol r" and "libLaws (lib r)" and "clFaults (\<alpha> w) = []"
    and "configMapForVillipRule r q = Inr built"
    and "distinct (map (\<lambda>m. keyOf (configMapMeta m)) (clConfigMaps (\<alpha> w)))"
    and "findObj configMapMeta (keyOf (rulesMeta q)) (clConfigMaps (\<alpha> w)) = Some cm"
    and "metaLabels (configMapMeta cm) = metaLabels (configMapMeta built)"
  shows "\<exists>mounts volumes ann w'.
    run_state (mountsForVillipProxy r (specRuleset (proxySpec p)) (metaNamespace (proxyMeta p))) w =
      ((mounts, volumes, ann, None), w') \<and> \<alpha> w' = \<alpha> w \<and>
    (if metaNamespace (proxyMeta p) = metaNamespace (rulesMeta q) then
       (volumeFor (metaName (rulesMeta q)) \<in> set volumes \<longleftrightarrow>
         (\<exists>rs \<in> set (specRuleset (proxySpec p)). matchLabels rs \<subseteq>\<^sub>m metaLabels (rulesMeta q))) \<and>
       (mountFor (metaName (rulesMeta q)) \<in> set mounts \<longleftrightarrow>
         (\<exists>rs \<in> set (specRuleset (proxySpec p)). matchLabels rs \<subseteq>\<^sub>m metaLabels (rulesMeta q)))
     else \<forall>v. \<alpha> v = (\<alpha> w)\<lparr>clConfigMaps := filter (\<lambda>m. m \<noteq> cm) (clConfigMaps (\<alpha> w))\<rparr> \<longrightarrow>
       fst (run_state (mountsForVillipProxy r (specRuleset (proxySpec p)) (metaNamespace (proxyMeta p))) v) =
         (mounts, volumes, ann, None))"
proof -
  let ?run = "run_state (mountsForVillipProxy r (specRuleset (proxySpec p)) (metaNamespace (proxyMeta p)))"
  let ?names = "selectedNames (\<alpha> w) p"
  obtain w' where run: "?run w = ((map mountFor ?names, map volumeFor ?names,
        [confAnnotation \<mapsto> joinStrings '','' (sortStrings ?names)], None), w')" "\<alpha> w' = \<alpha> w"
    by (rule run_mounts [OF assms(1,3)])
  have labels: "metaLabels (configMapMeta cm) = metaLabels (rulesMeta q)"
    by (rule configMapForVillipRule_owned [OF assms(2,4)]) (simp add: assms(7))
  have ns: "metaNamespace (configMapMeta cm) = metaNamespace (rulesMeta q)"
    using findObj_key [OF assms(6)] by (simp add: keyOf_def)
  have here: "volumeFor (metaName (rulesMeta q)) \<in> set (map volumeFor ?names) \<longleftrightarrow>
      (\<exists>rs \<in> set (specRuleset (proxySpec p)). matchLabels rs \<subseteq>\<^sub>m metaLabels (rulesMeta q))"
    "mountFor (metaName (rulesMeta q)) \<in> set (map mountFor ?names) \<longleftrightarrow>
      (\<exists>rs \<in> set (specRuleset (proxySpec p)). matchLabels rs \<subseteq>\<^sub>m metaLabels (rulesMeta q))"
    if "metaNamespace (proxyMeta p) = metaNamespace (rulesMeta q)"
    using selects_stored [OF assms(5,6) that] by (auto simp: labels)
  have there: "fst (?run v) = (map mountFor ?names, map volumeFor ?names,
        [confAnnotation \<mapsto> joinStrings '','' (sortStrings ?names)], None)"
    if other: "metaNamespace (proxyMeta p) \<noteq> metaNamespace (rulesMeta q)"
      and v: "\<alpha> v = (\<alpha> w)\<lparr>clConfigMaps := filter (\<lambda>m. m \<noteq> cm) (clConfigMaps (\<alpha> w))\<rparr>" for v
  proof -
    have "selectedNames (\<alpha> v) p = ?names"
      unfolding v using selects_elsewhere [of p cm "\<alpha> w"] other ns by simp
    moreover have "clFaults (\<alpha> v) = []" by (simp add: v assms(3))
    ultimately show ?thesis using run_mounts [OF assms(1), of v p] by (metis fst_conv)
  qed
  show ?thesis
    by (intro exI conjI, rule run(1), rule run(2)) (use here there in simp)
qed

text \<open>The example rule, stored as it is built, and a proxy with an empty ruleset.\<close>

lemma ruleset_selects_rule_iff_witness:
  "\<exists>cm volumes mounts ann w'. configMapForVillipRule exampleReconciler exampleRule = Inr cm \<and>
     run_state (mountsForVillipProxy exampleReconciler [\<lparr>matchLabels = Map.empty\<rparr>] ''default'')
       (exampleCluster\<lparr>clConfigMaps := [cm]\<rparr>) = ((mounts, volumes, ann, None), w') \<and>
     volumeFor ''tcpexample'' \<in> set volumes"
proof -
  obtain cm where cm: "configMapForVillipRule exampleReconciler exampleRule = Inr cm"
    using example_configMap by blast
  have laws: "libLaws (lib exampleReconciler)" by (simp add: store_calls exampleLib_laws)
  let ?p = "exampleProxy\<lparr>proxySpec := (proxySpec exampleProxy)\<lparr>specRuleset := [\<lparr>matchLabels = Map.empty\<rparr>]\<rparr>\<rparr>"
  let ?c = "exampleCluster\<lparr>clConfigMaps := [cm]\<rparr>"
  have key: "keyOf (configMapMeta cm) = keyOf (rulesMeta exampleRule)"
    by (rule configMapForVillipRule_owned [OF laws cm]) (simp add: keyOf_def)
  then have at: "findObj configMapMeta (keyOf (rulesMeta exampleRule)) (clConfigMaps ?c) = Some cm"
    by (simp add: findObj_def)
  have nofault: "clFaults ?c = []" by (simp add: exampleCluster_def)
  have dist: "distinct (map (\<lambda>m. keyOf (configMapMeta m)) (clConfigMaps ?c))" by simp
  have names: "metaNamespace (proxyMeta ?p) = ''default''" "metaNamespace (rulesMeta exampleRule) = ''default''"
    "metaName (rulesMeta exampleRule) = ''tcpexample''" "specRuleset (proxySpec ?p) = [\<lparr>matchLabels = Map.empty\<rparr>]"
    by (simp_all add: example_simps)
  have "\<exists>rs \<in> set [\<lparr>matchLabels = Map.empty\<rparr>]. matchLabels rs \<subseteq>\<^sub>m metaLabels (rulesMeta exampleRule)" by simp
  with ruleset_selects_rule_iff [OF behavesLike_store laws nofault cm dist at refl, of ?p, unfolded names] cm
  show ?thesis by (simp only: if_True simp_thms) blast
qed

section \<open>Validation\<close>

text \<open>C16: what the operator sends is valid, up to the version label.  The predicates are the
  documented validation of the API server: label syntax, names, selector and template, ports,
  volumes, mounts, probes, owner references.  Take a proxy whose name fits a Service, with valid
  labels, an image reference without white space around it, at least one port, distinct ports
  other than 0 and a size that is not negative, and let the ConfigMaps its rulesets select be
  distinct, named by DNS labels and few enough for an annotation.  Then the Service that is
  built is valid; the Deployment is valid exactly if the version label is: if what stands
  between the first and the second colon of the image reference is a label value, or the proxy
  brings its own valid version label.\<close>

theorem built_objects_valid:
  assumes "libLaws (lib r)" and "valueLaws (lib r)" and "soundProxy p" and "soundNames names"
    and "run_state (collectNames r (metaNamespace (proxyMeta p)) (specRuleset (proxySpec p)) []) w = (Inr names, w')"
    and "run_state (deploymentForVillipProxy r p) w = (Value (Inr d), w')"
    and "serviceForVillipProxy r p = Inr s"
  shows "validService s \<and> (validDeployment d \<longleftrightarrow> versionLabelled p)"
proof
  show "validService s" by (rule validService_built [OF assms(1-3,7) refl])
  show "validDeployment d \<longleftrightarrow> versionLabelled p"
  proof (rule built_object [OF assms(6)])
    fix ls names' m
    let ?d = "deploymentObject (lib r) p ls (map mountFor names') (map volumeFor names')
          [confAnnotation \<mapsto> joinStrings '','' (sortStrings names')]"
    assume d: "d = ?d\<lparr>deploymentMeta := m\<rparr>" and ls: "labelsForVillipProxy p = Value ls"
      and m: "setControllerReference (lib r) (ProxyOwner p) (deploymentMeta ?d) = Inr m"
      and "run_state (collectNames r (metaNamespace (proxyMeta p)) (specRuleset (proxySpec p)) []) w
        = (Inr names', w')"
    then have "names' = names" using assms(5) by simp
    then show "validDeployment d \<longleftrightarrow> versionLabelled p"
      using validDeployment_built [OF assms(1-3) _ ls m] assms(4) by (simp add: d)
  qed
qed

lemma built_objects_valid_witness:
  "\<exists>d s. run_state (deploymentForVillipProxy exampleReconciler exampleProxy) exampleCluster = (Value (Inr d), exampleCluster) \<and>
     serviceForVillipProxy exampleReconciler exampleProxy = Inr s \<and> validDeployment d \<and> validService s"
proof -
  obtain d where d: "run_state (deploymentForVillipProxy exampleReconciler exampleProxy) exampleCluster =
      (Value (Inr d), exampleCluster)" by (rule example_built)
  obtain s where s: "serviceForVillipProxy exampleReconciler exampleProxy = Inr s"
    using serviceForVillipProxy_value [OF exampleLib_laws, of examplePolicy exampleProxy] by metis
  have names: "run_state (collectNames exampleReconciler (metaNamespace (proxyMeta exampleProxy))
      (specRuleset (proxySpec exampleProxy)) []) exampleCluster = (Inr [''tcpexample''], exampleCluster)"
    using run_collectNames [of exampleCluster examplePolicy exampleLib] example_selectedNames
    by (simp add: selectedNames_def)
  have "validService s \<and> (validDeployment d \<longleftrightarrow> versionLabelled exampleProxy)"
    by (rule built_objects_valid [OF _ _ example_sound example_names names d s])
       (simp_all add: store_calls(1) exampleLib_laws exampleLib_values)
  with d s example_labelled show ?thesis by blast
qed

end
