(* ===== verification/Go_Flags.thy ===== *)
theory Go_Flags
  imports Prelude
begin

text \<open>
  Go's package \<open>flag\<close>, as \<open>main\<close> uses it: a set of named flags, each with a setter on
  the program's variables, and \<open>Parse\<close> on the command line.  A setter that returns
  \<open>None\<close> rejects the text.  The usage and error texts, which are only printed, are dropped.
\<close>

record 's flagDef =
  flagName :: string
  flagIsBool :: bool
  flagSet :: "string \<Rightarrow> 's \<Rightarrow> 's option"

datatype flagError = ErrHelp | ErrFlag

text \<open>The texts \<open>strconv.ParseBool\<close> accepts.\<close>

definition parseBool :: "string \<Rightarrow> bool option" where
  "parseBool s =
     (if s \<in> set [''1'', ''t'', ''T'', ''true'', ''TRUE'', ''True''] then Some True
      else if s \<in> set [''0'', ''f'', ''F'', ''false'', ''FALSE'', ''False''] then Some False
      else None)"

text \<open>The name of a flag, without its dashes, is cut at the first \<open>=\<close>.\<close>

definition cutAssign :: "string \<Rightarrow> string \<times> string option" where
  "cutAssign name =
     (case dropWhile (\<lambda>c. c \<noteq> CHR ''='') name of
        [] \<Rightarrow> (name, None)
      | _ # v \<Rightarrow> (takeWhile (\<lambda>c. c \<noteq> CHR ''='') name, Some v))"

definition lookupFlag :: "'s flagDef list \<Rightarrow> string \<Rightarrow> 's flagDef option" where
  "lookupFlag fs name = find (\<lambda>f. flagName f = name) fs"

text \<open>
  \<open>Parse\<close>: an argument that is no flag, or \<open>--\<close>, ends the flags; the rest is returned.
\<close>

fun parseArgs :: "'s flagDef list \<Rightarrow> string list \<Rightarrow> 's \<Rightarrow> flagError + 's \<times> string list" where
  "parseArgs fs [] st = Inr (st, [])"
| "parseArgs fs (s # args) st =
     (if length s < 2 \<or> hd s \<noteq> CHR ''-'' then Inr (st, s # args)
      else if s = ''--'' then Inr (st, args)
      else
        (let name = (if hd (tl s) = CHR ''-'' then drop 2 s else drop 1 s) in
         if name = [] \<or> hd name = CHR ''-'' \<or> hd name = CHR ''='' then Inl ErrFlag
         else
           (case cutAssign name of
              (name, value) \<Rightarrow>
                (case lookupFlag fs name of
                   None \<Rightarrow> if name = ''help'' \<or> name = ''h'' then Inl ErrHelp else Inl ErrFlag
                 | Some f \<Rightarrow>
                     if flagIsBool f then
                       (case flagSet f (case value of None \<Rightarrow> ''true'' | Some v \<Rightarrow> v) st of
                          None \<Rightarrow> Inl ErrFlag
                        | Some st' \<Rightarrow> parseArgs fs args st')
                     else
                       (case value of
                          Some v \<Rightarrow>
                            (case flagSet f v st of
                               None \<Rightarrow> Inl ErrFlag
                             | Some st' \<Rightarrow> parseArgs fs args st')
                        | None \<Rightarrow>
                            (case args of
                               [] \<Rightarrow> Inl ErrFlag
                             | v # args' \<Rightarrow>
                                 (case flagSet f v st of
                                    None \<Rightarrow> Inl ErrFlag
                                  | Some st' \<Rightarrow> parseArgs fs args' st')))))))"

declare parseArgs.simps(2) [simp del]

section \<open>Writing flags\<close>

definition renderFlag :: "string \<Rightarrow> string \<Rightarrow> string" where
  "renderFlag name v = ''--'' @ name @ ''='' @ v"

definition plainFlagName :: "string \<Rightarrow> bool" where
  "plainFlagName name \<longleftrightarrow> name \<noteq> [] \<and> hd name \<noteq> CHR ''-'' \<and> CHR ''='' \<notin> set name"

lemma cutAssign_render: "CHR ''='' \<notin> set name \<Longrightarrow> cutAssign (name @ CHR ''='' # v) = (name, Some v)"
proof -
  assume "CHR ''='' \<notin> set name"
  then have "\<forall>c \<in> set name. c \<noteq> CHR ''=''" by auto
  then show ?thesis by (simp add: cutAssign_def dropWhile_append2 takeWhile_append2)
qed

lemma parse_render:
  assumes "plainFlagName name" and "lookupFlag fs name = Some f" and "flagSet f v st = Some st'"
  shows "parseArgs fs (renderFlag name v # args) st = parseArgs fs args st'"
proof -
  obtain c cs where name: "name = c # cs" using assms(1) by (cases name) (auto simp: plainFlagName_def)
  have c: "c \<noteq> CHR ''-''" "c \<noteq> CHR ''=''" using assms(1) by (auto simp: plainFlagName_def name)
  have cut: "cutAssign (name @ CHR ''='' # v) = (name, Some v)"
    using assms(1) by (intro cutAssign_render) (simp add: plainFlagName_def)
  show ?thesis
    using assms(2,3) c cut by (simp add: renderFlag_def parseArgs.simps(2) name)
qed

text \<open>A string flag may also take its value from the next argument.\<close>

lemma parse_separate:
  assumes "plainFlagName name" and "lookupFlag fs name = Some f" and "\<not> flagIsBool f"
    and "flagSet f v st = Some st'"
  shows "parseArgs fs ((''--'' @ name) # v # args) st = parseArgs fs args st'"
proof -
  obtain c cs where name: "name = c # cs" using assms(1) by (cases name) (auto simp: plainFlagName_def)
  have "\<forall>x \<in> set name. x \<noteq> CHR ''=''" using assms(1) by (auto simp: plainFlagName_def)
  then have cut: "cutAssign name = (name, None)"
    by (simp add: cutAssign_def dropWhile_eq_Nil_conv [THEN iffD2])
  have c: "c \<noteq> CHR ''-''" "c \<noteq> CHR ''=''" using assms(1) by (auto simp: plainFlagName_def name)
  show ?thesis
    using assms(2-4) c cut by (simp add: parseArgs.simps(2) name)
qed

end
