(* ===== verification/Manager_Flags.thy ===== *)
theory Manager_Flags
  imports Go_Flags
begin

text \<open>
  The command line of the manager (\<open>cmd/main.go\<close>, first part of \<open>main\<close>): the variables
  the flags set, the flags themselves with their defaults, and \<open>flag.Parse\<close>.  The flags
  that imported packages put on the same command line (\<open>kubeconfig\<close> when they are
  initialised, the \<open>zap\<close> flags by \<open>BindFlags\<close>) are a parameter with a state of their own.
\<close>

record managerSettings =
  metricsAddr :: string
  probeAddr :: string
  enableLeaderElection :: bool
  secureMetrics :: bool
  webhookCertPath :: string
  webhookCertName :: string
  webhookCertKey :: string
  metricsCertPath :: string
  metricsCertName :: string
  metricsCertKey :: string
  enableHTTP2 :: bool

definition defaultSettings :: managerSettings where
  "defaultSettings =
     \<lparr>metricsAddr = ''0'', probeAddr = '':8081'', enableLeaderElection = False, secureMetrics = True,
      webhookCertPath = '''', webhookCertName = ''tls.crt'', webhookCertKey = ''tls.key'',
      metricsCertPath = '''', metricsCertName = ''tls.crt'', metricsCertKey = ''tls.key'',
      enableHTTP2 = False\<rparr>"

text \<open>\<open>flag.StringVar\<close> and \<open>flag.BoolVar\<close>, given how to store the value.\<close>

definition stringVar ::
  "string \<Rightarrow> (string \<Rightarrow> managerSettings \<Rightarrow> managerSettings) \<Rightarrow> (managerSettings \<times> 'z) flagDef" where
  "stringVar name upd =
     \<lparr>flagName = name, flagIsBool = False, flagSet = (\<lambda>v (s, z). Some (upd v s, z))\<rparr>"

definition boolVar ::
  "string \<Rightarrow> (bool \<Rightarrow> managerSettings \<Rightarrow> managerSettings) \<Rightarrow> (managerSettings \<times> 'z) flagDef" where
  "boolVar name upd =
     \<lparr>flagName = name, flagIsBool = True,
      flagSet = (\<lambda>v (s, z). map_option (\<lambda>b. (upd b s, z)) (parseBool v))\<rparr>"

definition managerFlags :: "(managerSettings \<times> 'z) flagDef list" where
  "managerFlags =
     [stringVar ''metrics-bind-address'' (\<lambda>v s. s\<lparr>metricsAddr := v\<rparr>),
      stringVar ''health-probe-bind-address'' (\<lambda>v s. s\<lparr>probeAddr := v\<rparr>),
      boolVar ''leader-elect'' (\<lambda>b s. s\<lparr>enableLeaderElection := b\<rparr>),
      boolVar ''metrics-secure'' (\<lambda>b s. s\<lparr>secureMetrics := b\<rparr>),
      stringVar ''webhook-cert-path'' (\<lambda>v s. s\<lparr>webhookCertPath := v\<rparr>),
      stringVar ''webhook-cert-name'' (\<lambda>v s. s\<lparr>webhookCertName := v\<rparr>),
      stringVar ''webhook-cert-key'' (\<lambda>v s. s\<lparr>webhookCertKey := v\<rparr>),
      stringVar ''metrics-cert-path'' (\<lambda>v s. s\<lparr>metricsCertPath := v\<rparr>),
      stringVar ''metrics-cert-name'' (\<lambda>v s. s\<lparr>metricsCertName := v\<rparr>),
      stringVar ''metrics-cert-key'' (\<lambda>v s. s\<lparr>metricsCertKey := v\<rparr>),
      boolVar ''enable-http2'' (\<lambda>b s. s\<lparr>enableHTTP2 := b\<rparr>)]"

text \<open>Flags of other packages, which do not see the manager's variables.\<close>

definition foreignFlag :: "'z flagDef \<Rightarrow> (managerSettings \<times> 'z) flagDef" where
  "foreignFlag f =
     \<lparr>flagName = flagName f, flagIsBool = flagIsBool f,
      flagSet = (\<lambda>v (s, z). map_option (Pair s) (flagSet f v z))\<rparr>"

text \<open>Registering a name twice panics.\<close>

definition registerFlags ::
  "'z flagDef list \<Rightarrow> 'z flagDef list \<Rightarrow> (managerSettings \<times> 'z) flagDef list outcome" where
  "registerFlags earlier later =
     (let fs = map foreignFlag earlier @ managerFlags @ map foreignFlag later in
      if distinct (map flagName fs) then Value fs else Panic)"

definition parseCommandLine ::
  "(managerSettings \<times> 'z) flagDef list \<Rightarrow> string list \<Rightarrow> 'z \<Rightarrow> flagError + (managerSettings \<times> 'z)" where
  "parseCommandLine fs args z =
     (case parseArgs fs args (defaultSettings, z) of Inl e \<Rightarrow> Inl e | Inr (st, rest) \<Rightarrow> Inr st)"

section \<open>Looking the flags up\<close>

lemma flagName_vars [simp]:
  "flagName (stringVar n u) = n" "flagName (boolVar n b) = n" "flagName (foreignFlag f) = flagName f"
  "flagIsBool (stringVar n u) = False" "flagIsBool (boolVar n b) = True"
  by (simp_all add: stringVar_def boolVar_def foreignFlag_def)

lemma find_distinct:
  "distinct (map flagName fs) \<Longrightarrow> f \<in> set fs \<Longrightarrow> lookupFlag fs (flagName f) = Some f"
  unfolding lookupFlag_def by (induction fs) auto

lemma lookup_registered:
  assumes "registerFlags earlier later = Value fs" and "f \<in> set managerFlags"
  shows "lookupFlag fs (flagName f) = Some f"
proof (rule find_distinct)
  show "distinct (map flagName fs)" "f \<in> set fs"
    using assms by (auto simp: registerFlags_def Let_def split: if_splits)
qed

definition boolText :: "bool \<Rightarrow> string" where
  "boolText b = (if b then ''true'' else ''false'')"

lemma parseBool_boolText [simp]: "parseBool (boolText b) = Some b"
  by (simp add: parseBool_def boolText_def)

text \<open>One rendered argument of each kind.\<close>

lemma parse_stringVar:
  fixes earlier :: "'z flagDef list"
  assumes "registerFlags earlier later = Value fs"
    and "(stringVar n u :: (managerSettings \<times> 'z) flagDef) \<in> set managerFlags"
    and "plainFlagName n"
  shows "parseArgs fs (renderFlag n v # args) (s, z) = parseArgs fs args (u v s, z)"
  using lookup_registered [OF assms(1,2)]
  by (intro parse_render [OF assms(3)]) (simp_all, simp add: stringVar_def)

lemma parse_boolVar:
  fixes earlier :: "'z flagDef list"
  assumes "registerFlags earlier later = Value fs"
    and "(boolVar n u :: (managerSettings \<times> 'z) flagDef) \<in> set managerFlags"
    and "plainFlagName n"
  shows "parseArgs fs (renderFlag n (boolText b) # args) (s, z) = parseArgs fs args (u b s, z)"
  using lookup_registered [OF assms(1,2)]
  by (intro parse_render [OF assms(3)]) (simp_all, simp add: boolVar_def)

text \<open>A full command line for given settings.\<close>

definition renderSettings :: "managerSettings \<Rightarrow> string list" where
  "renderSettings s =
     [renderFlag ''metrics-bind-address'' (metricsAddr s),
      renderFlag ''health-probe-bind-address'' (probeAddr s),
      renderFlag ''leader-elect'' (boolText (enableLeaderElection s)),
      renderFlag ''metrics-secure'' (boolText (secureMetrics s)),
      renderFlag ''webhook-cert-path'' (webhookCertPath s),
      renderFlag ''webhook-cert-name'' (webhookCertName s),
      renderFlag ''webhook-cert-key'' (webhookCertKey s),
      renderFlag ''metrics-cert-path'' (metricsCertPath s),
      renderFlag ''metrics-cert-name'' (metricsCertName s),
      renderFlag ''metrics-cert-key'' (metricsCertKey s),
      renderFlag ''enable-http2'' (boolText (enableHTTP2 s))]"

lemma plain_names:
  "plainFlagName ''metrics-bind-address''" "plainFlagName ''health-probe-bind-address''"
  "plainFlagName ''leader-elect''" "plainFlagName ''metrics-secure''"
  "plainFlagName ''webhook-cert-path''" "plainFlagName ''webhook-cert-name''"
  "plainFlagName ''webhook-cert-key''" "plainFlagName ''metrics-cert-path''"
  "plainFlagName ''metrics-cert-name''" "plainFlagName ''metrics-cert-key''"
  "plainFlagName ''enable-http2''"
  by (simp_all add: plainFlagName_def)

lemma parse_renderSettings_append:
  assumes "registerFlags earlier later = Value fs"
  shows "parseArgs fs (renderSettings s @ args) (t, z) = parseArgs fs args (s, z)"
proof -
  note str = parse_stringVar [OF assms] and bool = parse_boolVar [OF assms]
  have mem: "stringVar ''metrics-bind-address'' (\<lambda>v s. s\<lparr>metricsAddr := v\<rparr>) \<in> set managerFlags"
    "stringVar ''health-probe-bind-address'' (\<lambda>v s. s\<lparr>probeAddr := v\<rparr>) \<in> set managerFlags"
    "boolVar ''leader-elect'' (\<lambda>b s. s\<lparr>enableLeaderElection := b\<rparr>) \<in> set managerFlags"
    "boolVar ''metrics-secure'' (\<lambda>b s. s\<lparr>secureMetrics := b\<rparr>) \<in> set managerFlags"
    "stringVar ''webhook-cert-path'' (\<lambda>v s. s\<lparr>webhookCertPath := v\<rparr>) \<in> set managerFlags"
    "stringVar ''webhook-cert-name'' (\<lambda>v s. s\<lparr>webhookCertName := v\<rparr>) \<in> set managerFlags"
    "stringVar ''webhook-cert-key'' (\<lambda>v s. s\<lparr>webhookCertKey := v\<rparr>) \<in> set managerFlags"
    "stringVar ''metrics-cert-path'' (\<lambda>v s. s\<lparr>metricsCertPath := v\<rparr>) \<in> set managerFlags"
    "stringVar ''metrics-cert-name'' (\<lambda>v s. s\<lparr>metricsCertName := v\<rparr>) \<in> set managerFlags"
    "stringVar ''metrics-cert-key'' (\<lambda>v s. s\<lparr>metricsCertKey := v\<rparr>) \<in> set managerFlags"
    "boolVar ''enable-http2'' (\<lambda>b s. s\<lparr>enableHTTP2 := b\<rparr>) \<in> set managerFlags"
    by (simp_all add: managerFlags_def)
  show ?thesis
    unfolding renderSettings_def append_Cons append_Nil
      str [OF mem(1) plain_names(1)] str [OF mem(2) plain_names(2)] bool [OF mem(3) plain_names(3)]
      bool [OF mem(4) plain_names(4)] str [OF mem(5) plain_names(5)] str [OF mem(6) plain_names(6)]
      str [OF mem(7) plain_names(7)] str [OF mem(8) plain_names(8)] str [OF mem(9) plain_names(9)]
      str [OF mem(10) plain_names(10)] bool [OF mem(11) plain_names(11)]
    by (cases s; cases t) simp
qed

lemma parse_renderSettings:
  assumes "registerFlags earlier later = Value fs"
  shows "parseArgs fs (renderSettings s) (t, z) = Inr ((s, z), [])"
  using parse_renderSettings_append [OF assms, of s "[]"] by simp

end
