(* ===== verification/Go_Slices.thy ===== *)
theory Go_Slices
  imports Main
begin

text \<open>
  Go slices as the language defines them, for code in which two slices may share a backing
  array.  \<open>'a arrays\<close> are the allocated arrays, each as long as its capacity; a slice is a
  reference to one of them with a length and a capacity.  \<open>append\<close> writes in place while
  the capacity lasts and moves to a new array otherwise; how much room the new array has is
  left to the implementation and is the parameter \<open>grow\<close>.
\<close>

type_synonym 'a arrays = "'a list list"

record goSlice =
  sliceArray :: nat
  sliceLen :: nat
  sliceCap :: nat

definition nilSlice :: goSlice where
  "nilSlice = \<lparr>sliceArray = 0, sliceLen = 0, sliceCap = 0\<rparr>"

definition sliceView :: "'a arrays \<Rightarrow> goSlice \<Rightarrow> 'a list" where
  "sliceView h s = (if sliceCap s = 0 then [] else take (sliceLen s) (h ! sliceArray s))"

text \<open>\<open>grow cap needed\<close> is the capacity wanted for \<open>needed\<close> elements; it is never less.\<close>

definition newCapacity :: "(nat \<Rightarrow> nat \<Rightarrow> nat) \<Rightarrow> goSlice \<Rightarrow> nat" where
  "newCapacity grow s = max (Suc (sliceLen s)) (grow (sliceCap s) (Suc (sliceLen s)))"

definition appendSlice ::
  "(nat \<Rightarrow> nat \<Rightarrow> nat) \<Rightarrow> 'a \<Rightarrow> goSlice \<Rightarrow> 'a \<Rightarrow> 'a arrays \<Rightarrow> goSlice \<times> 'a arrays" where
  "appendSlice grow zero s x h =
     (if sliceLen s < sliceCap s
      then (s\<lparr>sliceLen := Suc (sliceLen s)\<rparr>,
            h[sliceArray s := (h ! sliceArray s)[sliceLen s := x]])
      else (\<lparr>sliceArray = length h, sliceLen = Suc (sliceLen s), sliceCap = newCapacity grow s\<rparr>,
            h @ [sliceView h s @ [x] @
                 replicate (newCapacity grow s - Suc (sliceLen s)) zero]))"

definition sliceOk :: "'a arrays \<Rightarrow> goSlice \<Rightarrow> bool" where
  "sliceOk h s \<longleftrightarrow> sliceLen s \<le> sliceCap s \<and>
     (0 < sliceCap s \<longrightarrow> sliceArray s < length h \<and> length (h ! sliceArray s) = sliceCap s)"

lemma sliceOk_nil [simp]: "sliceOk h nilSlice"
  by (simp add: sliceOk_def nilSlice_def)

lemma sliceView_nil [simp]: "sliceView h nilSlice = []"
  by (simp add: sliceView_def nilSlice_def)

lemma length_sliceView: "sliceOk h s \<Longrightarrow> length (sliceView h s) = sliceLen s"
  by (auto simp: sliceOk_def sliceView_def)

text \<open>Appending: the result is well-formed and shows the old elements and the new one.\<close>

lemma append_slice:
  assumes "sliceOk h s" and "appendSlice grow zero s x h = (s', h')"
  shows "sliceOk h' s'" and "sliceView h' s' = sliceView h s @ [x]"
proof -
  have "sliceOk h' s' \<and> sliceView h' s' = sliceView h s @ [x]"
  proof (cases "sliceLen s < sliceCap s")
    case True
    then have s': "s' = s\<lparr>sliceLen := Suc (sliceLen s)\<rparr>"
      and h': "h' = h[sliceArray s := (h ! sliceArray s)[sliceLen s := x]]"
      using assms(2) by (simp_all add: appendSlice_def)
    show ?thesis
      using assms(1) True by (auto simp: s' h' sliceOk_def sliceView_def take_Suc_conv_app_nth)
  next
    case False
    then show ?thesis
      using assms length_sliceView [OF assms(1)]
      by (auto simp: appendSlice_def sliceOk_def sliceView_def newCapacity_def nth_append split: if_splits)
  qed
  then show "sliceOk h' s'" and "sliceView h' s' = sliceView h s @ [x]" by simp_all
qed

text \<open>The slice that was appended to shows what it showed.\<close>

lemma append_keeps_prefix:
  assumes "sliceOk h s" and "appendSlice grow zero s x h = (s', h')"
  shows "sliceView h' s = sliceView h s"
  using assms by (auto simp: appendSlice_def sliceOk_def sliceView_def nth_append split: if_splits)

text \<open>A full slice moves away on append: what every other slice shows stays the same.\<close>

lemma append_full_undisturbed:
  assumes "\<not> sliceLen s < sliceCap s" and "appendSlice grow zero s x h = (s', h')" and "sliceOk h t"
  shows "sliceOk h' t" and "sliceView h' t = sliceView h t"
  using assms by (auto simp: appendSlice_def sliceOk_def sliceView_def nth_append split: if_splits)

text \<open>A slice with room shares it: a second append to the same slice overwrites the first.\<close>

lemma append_twice_aliases:
  assumes "sliceOk h s" and "sliceLen s < sliceCap s"
    and "appendSlice grow zero s x h = (s1, h1)" and "appendSlice grow zero s y h1 = (s2, h2)"
  shows "sliceView h2 s1 = sliceView h s @ [y]"
  using assms by (auto simp: appendSlice_def sliceOk_def sliceView_def take_Suc_conv_app_nth)

end
