(* ===== verification/Go_Filepath.thy ===== *)
theory Go_Filepath
  imports Go_Strings
begin

text \<open>
  \<open>path/filepath\<close> on Unix, as far as the manager uses it: \<open>Clean\<close> (purely lexical) and
  \<open>Join\<close> with two elements.
\<close>

text \<open>One element of the path; the elements kept so far are in reverse order.\<close>

definition cleanStep :: "bool \<Rightarrow> string list \<Rightarrow> string \<Rightarrow> string list" where
  "cleanStep rooted out e =
     (if e = '''' \<or> e = ''.'' then out
      else if e = ''..'' then
        (case out of
           [] \<Rightarrow> if rooted then [] else [e]
         | x # xs \<Rightarrow> if x = ''..'' then e # out else xs)
      else e # out)"

definition rootedPath :: "string \<Rightarrow> bool" where
  "rootedPath p \<longleftrightarrow> (case p of [] \<Rightarrow> False | c # cs \<Rightarrow> c = CHR ''/'')"

definition cleanElements :: "string \<Rightarrow> string list" where
  "cleanElements p = rev (foldl (cleanStep (rootedPath p)) [] (splitString (CHR ''/'') p))"

definition filepathClean :: "string \<Rightarrow> string" where
  "filepathClean p =
     (if p = '''' then ''.''
      else let body = joinStrings ''/'' (cleanElements p) in
           if rootedPath p then ''/'' @ body else if body = '''' then ''.'' else body)"

definition filepathJoin :: "string \<Rightarrow> string \<Rightarrow> string" where
  "filepathJoin a b =
     (if a = '''' then (if b = '''' then '''' else filepathClean b)
      else filepathClean (joinStrings ''/'' [a, b]))"

section \<open>Joining a directory and a file name\<close>

definition plainFileName :: "string \<Rightarrow> bool" where
  "plainFileName f \<longleftrightarrow> f \<notin> {'''', ''.'', ''..''} \<and> CHR ''/'' \<notin> set f"

lemma split_file: "CHR ''/'' \<notin> set f \<Longrightarrow>
    splitString (CHR ''/'') (d @ CHR ''/'' # f) = splitString (CHR ''/'') d @ [f]"
proof (induction d)
  case Nil
  then show ?case by (simp add: splitString_no_sep)
next
  case (Cons x d)
  then show ?case by (cases "splitString (CHR ''/'') d") auto
qed

lemma cleanStep_elements:
  "'''' \<notin> set out \<and> ''.'' \<notin> set out \<Longrightarrow>
     '''' \<notin> set (cleanStep rooted out e) \<and> ''.'' \<notin> set (cleanStep rooted out e)"
  by (auto simp: cleanStep_def split: list.splits)

lemma cleanElements_elements: "'''' \<notin> set (cleanElements p) \<and> ''.'' \<notin> set (cleanElements p)"
proof -
  have "'''' \<notin> set (foldl (cleanStep b) out es) \<and> ''.'' \<notin> set (foldl (cleanStep b) out es)"
    if "'''' \<notin> set out \<and> ''.'' \<notin> set out" for b out es
    using that
  proof (induction es arbitrary: out)
    case (Cons e es)
    show ?case using Cons.IH [OF cleanStep_elements [OF Cons.prems]] by simp
  qed simp
  from this [of "[]"] show ?thesis by (simp add: cleanElements_def)
qed

lemma joinStrings_snoc: "xs \<noteq> [] \<Longrightarrow> joinStrings sep (xs @ [x]) = joinStrings sep xs @ sep @ x"
  by (induction sep xs rule: joinStrings.induct) simp_all

lemma joinStrings_empty: "'''' \<notin> set xs \<Longrightarrow> joinStrings ''/'' xs = '''' \<longleftrightarrow> xs = []"
  by (induction "''/''" xs rule: joinStrings.induct) auto

lemma cleanElements_file:
  assumes "d \<noteq> ''''" and "plainFileName f"
  shows "cleanElements (d @ CHR ''/'' # f) = cleanElements d @ [f]"
proof -
  have "rootedPath (d @ CHR ''/'' # f) = rootedPath d"
    using assms(1) by (cases d) (simp_all add: rootedPath_def)
  moreover have "splitString (CHR ''/'') (d @ CHR ''/'' # f) = splitString (CHR ''/'') d @ [f]"
    using assms(2) by (intro split_file) (simp add: plainFileName_def)
  ultimately show ?thesis
    using assms(2) by (simp add: cleanElements_def cleanStep_def plainFileName_def)
qed

text \<open>The joined path is the cleaned directory followed by the file name.\<close>

lemma filepathJoin_file:
  assumes "d \<noteq> ''''" and "plainFileName f"
  shows "filepathJoin d f =
    (if cleanElements d = [] then (if rootedPath d then ''/'' @ f else f)
     else filepathClean d @ ''/'' @ f)"
proof -
  have "rootedPath (d @ CHR ''/'' # f) = rootedPath d"
    using assms(1) by (cases d) (simp_all add: rootedPath_def)
  moreover have "'''' \<notin> set (cleanElements d)" "f \<noteq> ''''"
    using cleanElements_elements [of d] assms(2) by (auto simp: plainFileName_def)
  ultimately show ?thesis
    using assms(1)
    by (auto simp: filepathJoin_def filepathClean_def cleanElements_file [OF assms] joinStrings_snoc
        joinStrings_empty Let_def)
qed

end
