(* ===== verification/Manager_Setup.thy ===== *)
theory Manager_Setup
  imports Rules_Controller Proxy_Controller Manager_Flags Go_Slices Go_Filepath
begin

text \<open>
  What the operator asks of the manager of controller-runtime: the interface \<open>managerApi\<close>
  (a parameter: neither the manager nor the certificate watchers are part of the repository),
  the registration of the resource types, and \<open>SetupWithManager\<close> of both controllers.
\<close>

section \<open>Types of the API group\<close>

text \<open>\<open>init\<close> of the two type files registers a kind and its list with the scheme builder.\<close>

definition proxyKinds :: "string list" where
  "proxyKinds = [''VillipProxy'', ''VillipProxyList'']"

definition rulesKinds :: "string list" where
  "rulesKinds = [''VillipRules'', ''VillipRulesList'']"

text \<open>What \<open>villipv1.AddToScheme\<close> adds: the group version and the registered kinds.\<close>

definition addToScheme :: "groupVersion \<times> string list" where
  "addToScheme = (groupVersionV1, proxyKinds @ rulesKinds)"

section \<open>Controllers\<close>

text \<open>
  What the builder of \<open>SetupWithManager\<close> is told: the kind to reconcile, the kinds of the
  owned objects that also trigger a pass, the name, and the name of the event recorder.
\<close>

record controllerSpec =
  ctlFor :: string
  ctlOwns :: "string list"
  ctlNamed :: string
  ctlRecorder :: string

definition proxyController :: "string \<Rightarrow> controllerSpec" where
  "proxyController recorder =
     \<lparr>ctlFor = ''VillipProxy'', ctlOwns = [''Service'', ''Deployment''], ctlNamed = ''villipproxy'',
      ctlRecorder = recorder\<rparr>"

definition rulesController :: "string \<Rightarrow> controllerSpec" where
  "rulesController recorder =
     \<lparr>ctlFor = ''VillipRules'', ctlOwns = [''ConfigMap''], ctlNamed = ''villiprules'',
      ctlRecorder = recorder\<rparr>"

section \<open>TLS options\<close>

text \<open>
  The functions on \<open>*tls.Config\<close> that \<open>main\<close> collects.  \<open>NilFunc\<close> is the zero value, in
  the unused part of a slice.  The two certificate functions read the variable that holds the
  watcher when they are called.
\<close>

datatype tlsOption = NilFunc | DisableHTTP2 | WebhookCertificate | MetricsCertificate

record 'cw tlsConfig =
  nextProtos :: "string list"
  getCertificate :: "'cw option"

definition applyTLSOption ::
  "'cw option \<Rightarrow> 'cw option \<Rightarrow> tlsOption \<Rightarrow> 'cw tlsConfig \<Rightarrow> 'cw tlsConfig outcome" where
  "applyTLSOption webhook metrics opt cfg =
     (case opt of
        NilFunc \<Rightarrow> Panic
      | DisableHTTP2 \<Rightarrow> Value (cfg\<lparr>nextProtos := [''http/1.1'']\<rparr>)
      | WebhookCertificate \<Rightarrow> Value (cfg\<lparr>getCertificate := webhook\<rparr>)
      | MetricsCertificate \<Rightarrow> Value (cfg\<lparr>getCertificate := metrics\<rparr>))"

primrec applyTLSOptions ::
  "'cw option \<Rightarrow> 'cw option \<Rightarrow> tlsOption list \<Rightarrow> 'cw tlsConfig \<Rightarrow> 'cw tlsConfig outcome" where
  "applyTLSOptions webhook metrics [] cfg = Value cfg"
| "applyTLSOptions webhook metrics (opt # opts) cfg =
     (case applyTLSOption webhook metrics opt cfg of
        Panic \<Rightarrow> Panic
      | Value cfg' \<Rightarrow> applyTLSOptions webhook metrics opts cfg')"

section \<open>The manager\<close>

record metricsOptions =
  bindAddress :: string
  secureServing :: bool
  filterProvider :: "string option"
  metricsTLSOpts :: goSlice

record managerOptions =
  mgrMetrics :: metricsOptions
  mgrWebhookTLSOpts :: goSlice
  mgrProbeAddress :: string
  mgrLeaderElection :: bool
  mgrLeaderElectionID :: string

text \<open>
  The calls \<open>main\<close> makes.  \<open>getConfig\<close> is \<open>GetConfigOrDie\<close>, with \<open>None\<close> where it exits.
  The manager keeps the option slices and reads them when its servers start, after the last
  append of \<open>main\<close>; so \<open>newManager\<close> gets the slices and the arrays they refer to.
\<close>

record ('w, 'cw, 'cfg, 'm, 'z) managerApi =
  managerLib :: lib
  earlierFlags :: "'z flagDef list"
  laterFlags :: "'z flagDef list"
  flagState :: 'z
  addClientGoTypes :: "('w, goError option) go"
  addTypes :: "groupVersion \<times> string list \<Rightarrow> ('w, goError option) go"
  newCertWatcher :: "string \<Rightarrow> string \<Rightarrow> ('w, goError + 'cw) go"
  getConfig :: "('w, 'cfg option) go"
  newManager :: "'cfg \<Rightarrow> managerOptions \<Rightarrow> tlsOption arrays \<Rightarrow> ('w, goError + 'm) go"
  indexField :: "'m \<Rightarrow> string \<Rightarrow> (configMap \<Rightarrow> string slice) \<Rightarrow> ('w, goError option) go"
  completeController :: "'m \<Rightarrow> controllerSpec \<Rightarrow> ('w, goError option) go"
  addWatcher :: "'m \<Rightarrow> 'cw \<Rightarrow> ('w, goError option) go"
  addHealthzCheck :: "'m \<Rightarrow> string \<Rightarrow> ('w, goError option) go"
  addReadyzCheck :: "'m \<Rightarrow> string \<Rightarrow> ('w, goError option) go"
  startManager :: "'m \<Rightarrow> ('w, goError option) go"

definition setupRulesWithManager ::
  "('w, 'cw, 'cfg, 'm, 'z) managerApi \<Rightarrow> string \<Rightarrow> 'm \<Rightarrow> ('w, goError option) go" where
  "setupRulesWithManager api recorder mgr = do {
     err \<leftarrow> indexField api mgr ownerKey (indexConfigMapOwner (managerLib api));
     (case err of
        Some e \<Rightarrow> ret (Some e)
      | None \<Rightarrow> completeController api mgr (rulesController recorder))
   }"

definition setupProxyWithManager ::
  "('w, 'cw, 'cfg, 'm, 'z) managerApi \<Rightarrow> string \<Rightarrow> 'm \<Rightarrow> ('w, goError option) go" where
  "setupProxyWithManager api recorder mgr = completeController api mgr (proxyController recorder)"

end
