(* ===== verification/Manager_Main.thy ===== *)
theory Manager_Main
  imports Manager_Setup
begin

text \<open>
  \<open>cmd/main.go\<close>: the program.  Log output is dropped; \<open>os.Exit\<close> and a normal return of
  \<open>main\<close> are the values of \<open>exitStatus\<close>, a panic is \<open>Panic\<close>.  \<open>grow\<close> is the growth of
  \<open>append\<close>, which the language leaves to the implementation.
\<close>

datatype exitStatus = Exit nat | Returned

section \<open>TLS options and certificate watchers\<close>

definition initialTLSOpts :: "(nat \<Rightarrow> nat \<Rightarrow> nat) \<Rightarrow> managerSettings \<Rightarrow> goSlice \<times> tlsOption arrays" where
  "initialTLSOpts grow fl =
     (if \<not> enableHTTP2 fl then appendSlice grow NilFunc nilSlice DisableHTTP2 [] else (nilSlice, []))"

text \<open>\<open>None\<close>: the watcher could not be made and the program exits.\<close>

definition webhookCertificate ::
  "('w, 'cw, 'cfg, 'm, 'z) managerApi \<Rightarrow> (nat \<Rightarrow> nat \<Rightarrow> nat) \<Rightarrow> managerSettings \<Rightarrow> goSlice \<Rightarrow>
     tlsOption arrays \<Rightarrow> ('w, ('cw option \<times> goSlice \<times> tlsOption arrays) option) go" where
  "webhookCertificate api grow fl tlsOpts h =
     (if webhookCertPath fl \<noteq> '''' then do {
        res \<leftarrow> newCertWatcher api (filepathJoin (webhookCertPath fl) (webhookCertName fl))
                 (filepathJoin (webhookCertPath fl) (webhookCertKey fl));
        (case res of
           Inl err \<Rightarrow> ret None
         | Inr cw \<Rightarrow>
             (case appendSlice grow NilFunc tlsOpts WebhookCertificate h of
                (webhookTLSOpts, h) \<Rightarrow> ret (Some (Some cw, webhookTLSOpts, h))))
      }
      else ret (Some (None, tlsOpts, h)))"

definition metricsServerOptions :: "managerSettings \<Rightarrow> goSlice \<Rightarrow> metricsOptions" where
  "metricsServerOptions fl tlsOpts =
     (let opts = \<lparr>bindAddress = metricsAddr fl, secureServing = secureMetrics fl,
                  filterProvider = None, metricsTLSOpts = tlsOpts\<rparr>
      in if secureMetrics fl
         then opts\<lparr>filterProvider := Some ''WithAuthenticationAndAuthorization''\<rparr> else opts)"

definition metricsCertificate ::
  "('w, 'cw, 'cfg, 'm, 'z) managerApi \<Rightarrow> (nat \<Rightarrow> nat \<Rightarrow> nat) \<Rightarrow> managerSettings \<Rightarrow> metricsOptions \<Rightarrow>
     tlsOption arrays \<Rightarrow> ('w, ('cw option \<times> metricsOptions \<times> tlsOption arrays) option) go" where
  "metricsCertificate api grow fl opts h =
     (if metricsCertPath fl \<noteq> '''' then do {
        res \<leftarrow> newCertWatcher api (filepathJoin (metricsCertPath fl) (metricsCertName fl))
                 (filepathJoin (metricsCertPath fl) (metricsCertKey fl));
        (case res of
           Inl err \<Rightarrow> ret None
         | Inr cw \<Rightarrow>
             (case appendSlice grow NilFunc (metricsTLSOpts opts) MetricsCertificate h of
                (tls, h) \<Rightarrow> ret (Some (Some cw, opts\<lparr>metricsTLSOpts := tls\<rparr>, h))))
      }
      else ret (Some (None, opts, h)))"

section \<open>Start-up\<close>

text \<open>\<open>if err := step(); err != nil { os.Exit(1) }\<close>\<close>

definition orExit :: "('w, goError option) go \<Rightarrow> ('w, exitStatus) go \<Rightarrow> ('w, exitStatus) go" where
  "orExit step rest = do {
     err \<leftarrow> step;
     (case err of Some e \<Rightarrow> ret (Exit 1) | None \<Rightarrow> rest)
   }"

definition addWatcherIfAny ::
  "('w, 'cw, 'cfg, 'm, 'z) managerApi \<Rightarrow> 'm \<Rightarrow> 'cw option \<Rightarrow> ('w, exitStatus) go \<Rightarrow> ('w, exitStatus) go" where
  "addWatcherIfAny api mgr cw rest =
     (case cw of None \<Rightarrow> rest | Some w \<Rightarrow> orExit (addWatcher api mgr w) rest)"

definition startUp ::
  "('w, 'cw, 'cfg, 'm, 'z) managerApi \<Rightarrow> 'm \<Rightarrow> 'cw option \<Rightarrow> 'cw option \<Rightarrow> ('w, exitStatus) go" where
  "startUp api mgr metricsCertWatcher webhookCertWatcher =
     orExit (setupRulesWithManager api ''villiprules-controller'' mgr)
       (orExit (setupProxyWithManager api ''villipproxy-controller'' mgr)
         (addWatcherIfAny api mgr metricsCertWatcher
           (addWatcherIfAny api mgr webhookCertWatcher
             (orExit (addHealthzCheck api mgr ''healthz'')
               (orExit (addReadyzCheck api mgr ''readyz'')
                 (orExit (startManager api mgr) (ret Returned)))))))"

definition managerOptionsFor :: "managerSettings \<Rightarrow> metricsOptions \<Rightarrow> goSlice \<Rightarrow> managerOptions" where
  "managerOptionsFor fl metrics webhookTLSOpts =
     \<lparr>mgrMetrics = metrics, mgrWebhookTLSOpts = webhookTLSOpts, mgrProbeAddress = probeAddr fl,
      mgrLeaderElection = enableLeaderElection fl, mgrLeaderElectionID = ''fa56ba13.carmier.fr''\<rparr>"

text \<open>\<open>main\<close> after the flags are parsed.\<close>

definition runManager ::
  "('w, 'cw, 'cfg, 'm, 'z) managerApi \<Rightarrow> (nat \<Rightarrow> nat \<Rightarrow> nat) \<Rightarrow> managerSettings \<Rightarrow> ('w, exitStatus) go" where
  "runManager api grow fl =
     (case initialTLSOpts grow fl of
        (tlsOpts, h) \<Rightarrow> do {
          webhook \<leftarrow> webhookCertificate api grow fl tlsOpts h;
          (case webhook of
             None \<Rightarrow> ret (Exit 1)
           | Some (webhookCertWatcher, webhookTLSOpts, h) \<Rightarrow> do {
               metrics \<leftarrow> metricsCertificate api grow fl (metricsServerOptions fl tlsOpts) h;
               (case metrics of
                  None \<Rightarrow> ret (Exit 1)
                | Some (metricsCertWatcher, metricsOpts, h) \<Rightarrow> do {
                    cfg \<leftarrow> getConfig api;
                    (case cfg of
                       None \<Rightarrow> ret (Exit 1)
                     | Some cfg \<Rightarrow> do {
                         made \<leftarrow> newManager api cfg (managerOptionsFor fl metricsOpts webhookTLSOpts) h;
                         (case made of
                            Inl err \<Rightarrow> ret (Exit 1)
                          | Inr mgr \<Rightarrow> startUp api mgr metricsCertWatcher webhookCertWatcher)
                       })
                  })
             })
        })"

text \<open>\<open>init\<close>: a scheme that cannot be built is a panic (\<open>utilruntime.Must\<close>).\<close>

definition initScheme :: "('w, 'cw, 'cfg, 'm, 'z) managerApi \<Rightarrow> ('w, unit outcome) go" where
  "initScheme api = do {
     err \<leftarrow> addClientGoTypes api;
     (case err of
        Some e \<Rightarrow> ret Panic
      | None \<Rightarrow> do {
          err \<leftarrow> addTypes api addToScheme;
          (case err of Some e \<Rightarrow> ret Panic | None \<Rightarrow> ret (Value ()))
        })
   }"

text \<open>The whole program: \<open>init\<close>, then \<open>main\<close>.\<close>

definition managerMain ::
  "('w, 'cw, 'cfg, 'm, 'z) managerApi \<Rightarrow> (nat \<Rightarrow> nat \<Rightarrow> nat) \<Rightarrow> string list \<Rightarrow> ('w, exitStatus outcome) go" where
  "managerMain api grow args = do {
     scheme \<leftarrow> initScheme api;
     (case scheme of
        Panic \<Rightarrow> ret Panic
      | Value _ \<Rightarrow>
          (case registerFlags (earlierFlags api) (laterFlags api) of
             Panic \<Rightarrow> ret Panic
           | Value flags \<Rightarrow>
               (case parseCommandLine flags args (flagState api) of
                  Inl ErrHelp \<Rightarrow> ret (Value (Exit 0))
                | Inl ErrFlag \<Rightarrow> ret (Value (Exit 2))
                | Inr (fl, _) \<Rightarrow> do {
                    status \<leftarrow> runManager api grow fl;
                    ret (Value status)
                  })))
   }"

end
