(* ===== verification/Manager_Properties.thy ===== *)
theory Manager_Properties
  imports Manager_Main
begin

text \<open>
  The properties of the program as a whole: what the command line means, which steps the
  start-up takes, in which order and what happens when one fails, and which TLS options the two
  servers end up with.
\<close>

section \<open>A manager that writes down what it is asked\<close>

text \<open>
  The options as the manager sees them, with the slices read.
\<close>

record resolvedOptions =
  rsBindAddress :: string
  rsSecure :: bool
  rsFilter :: "string option"
  rsMetricsTLS :: "tlsOption list"
  rsWebhookTLS :: "tlsOption list"
  rsProbeAddress :: string
  rsLeaderElection :: bool
  rsLeaderElectionID :: string

definition resolveOptions :: "managerOptions \<Rightarrow> tlsOption arrays \<Rightarrow> resolvedOptions" where
  "resolveOptions opts h =
     \<lparr>rsBindAddress = bindAddress (mgrMetrics opts), rsSecure = secureServing (mgrMetrics opts),
      rsFilter = filterProvider (mgrMetrics opts),
      rsMetricsTLS = sliceView h (metricsTLSOpts (mgrMetrics opts)),
      rsWebhookTLS = sliceView h (mgrWebhookTLSOpts opts),
      rsProbeAddress = mgrProbeAddress opts, rsLeaderElection = mgrLeaderElection opts,
      rsLeaderElectionID = mgrLeaderElectionID opts\<rparr>"

datatype event =
    AddClientGoTypes
  | AddTypes "groupVersion \<times> string list"
  | NewCertWatcher string string
  | GetConfig
  | NewManager resolvedOptions
  | IndexField string
  | Controller controllerSpec
  | AddWatcher "string \<times> string"
  | HealthzCheck string
  | ReadyzCheck string
  | Start

definition traceError :: "(event \<Rightarrow> bool) \<Rightarrow> event \<Rightarrow> (event list, goError option) go" where
  "traceError ok e = State (\<lambda>tr. (if ok e then None else Some (errorf ''failed''), tr @ [e]))"

definition traceValue :: "(event \<Rightarrow> bool) \<Rightarrow> event \<Rightarrow> 'a \<Rightarrow> (event list, goError + 'a) go" where
  "traceValue ok e x = State (\<lambda>tr. (if ok e then Inr x else Inl (errorf ''failed''), tr @ [e]))"

text \<open>Any subset of the steps may fail: \<open>ok\<close> says which succeed.\<close>

definition traceApi ::
  "lib \<Rightarrow> (event \<Rightarrow> bool) \<Rightarrow> 'z flagDef list \<Rightarrow> 'z flagDef list \<Rightarrow> 'z \<Rightarrow>
     (event list, string \<times> string, unit, unit, 'z) managerApi" where
  "traceApi l ok earlier later z =
     \<lparr>managerLib = l, earlierFlags = earlier, laterFlags = later, flagState = z,
      addClientGoTypes = traceError ok AddClientGoTypes,
      addTypes = (\<lambda>t. traceError ok (AddTypes t)),
      newCertWatcher = (\<lambda>c k. traceValue ok (NewCertWatcher c k) (c, k)),
      getConfig = State (\<lambda>tr. (if ok GetConfig then Some () else None, tr @ [GetConfig])),
      newManager = (\<lambda>_ opts h. traceValue ok (NewManager (resolveOptions opts h)) ()),
      indexField = (\<lambda>_ k _. traceError ok (IndexField k)),
      completeController = (\<lambda>_ c. traceError ok (Controller c)),
      addWatcher = (\<lambda>_ w. traceError ok (AddWatcher w)),
      addHealthzCheck = (\<lambda>_ n. traceError ok (HealthzCheck n)),
      addReadyzCheck = (\<lambda>_ n. traceError ok (ReadyzCheck n)),
      startManager = (\<lambda>_. traceError ok Start)\<rparr>"

lemma traceApi_sel [simp]:
  "managerLib (traceApi l ok ea la z) = l" "earlierFlags (traceApi l ok ea la z) = ea"
  "laterFlags (traceApi l ok ea la z) = la" "flagState (traceApi l ok ea la z) = z"
  "addClientGoTypes (traceApi l ok ea la z) = traceError ok AddClientGoTypes"
  "addTypes (traceApi l ok ea la z) t = traceError ok (AddTypes t)"
  "newCertWatcher (traceApi l ok ea la z) c k = traceValue ok (NewCertWatcher c k) (c, k)"
  "getConfig (traceApi l ok ea la z) =
     State (\<lambda>tr. (if ok GetConfig then Some () else None, tr @ [GetConfig]))"
  "newManager (traceApi l ok ea la z) u opts h = traceValue ok (NewManager (resolveOptions opts h)) ()"
  "indexField (traceApi l ok ea la z) m k i = traceError ok (IndexField k)"
  "completeController (traceApi l ok ea la z) m sp = traceError ok (Controller sp)"
  "addWatcher (traceApi l ok ea la z) m w = traceError ok (AddWatcher w)"
  "addHealthzCheck (traceApi l ok ea la z) m n = traceError ok (HealthzCheck n)"
  "addReadyzCheck (traceApi l ok ea la z) m n = traceError ok (ReadyzCheck n)"
  "startManager (traceApi l ok ea la z) m = traceError ok Start"
  by (simp_all add: traceApi_def)

section \<open>Following a plan\<close>

primrec upToFailure :: "(event \<Rightarrow> bool) \<Rightarrow> event list \<Rightarrow> event list" where
  "upToFailure ok [] = []"
| "upToFailure ok (e # es) = (if ok e then e # upToFailure ok es else [e])"

text \<open>The steps are taken in order; the first that fails is the last, and the exit code is 1.\<close>

definition follows :: "(event \<Rightarrow> bool) \<Rightarrow> event list \<Rightarrow> (event list, exitStatus) go \<Rightarrow> bool" where
  "follows ok es m \<longleftrightarrow>
     (\<forall>tr. run_state m tr = (if list_all ok es then Returned else Exit 1, tr @ upToFailure ok es))"

lemma follows_ret: "follows ok [] (ret Returned)"
  by (simp add: follows_def)

lemma follows_orExit: "follows ok es rest \<Longrightarrow> follows ok (e # es) (orExit (traceError ok e) rest)"
  by (simp add: follows_def orExit_def traceError_def run_simps)

lemma follows_rules:
  "follows ok es rest \<Longrightarrow>
     follows ok (IndexField ownerKey # Controller (rulesController rec) # es)
       (orExit (setupRulesWithManager (traceApi l ok ea la z) rec m) rest)"
  by (simp add: follows_def orExit_def setupRulesWithManager_def traceError_def run_simps)

lemma follows_watcher:
  "follows ok es rest \<Longrightarrow>
     follows ok (map AddWatcher (case cw of None \<Rightarrow> [] | Some w \<Rightarrow> [w]) @ es)
       (addWatcherIfAny (traceApi l ok ea la z) m cw rest)"
  by (cases cw) (simp_all add: addWatcherIfAny_def follows_orExit)

definition startPlan :: "(string \<times> string) option \<Rightarrow> (string \<times> string) option \<Rightarrow> event list" where
  "startPlan metrics webhook =
     [IndexField ownerKey, Controller (rulesController ''villiprules-controller''),
      Controller (proxyController ''villipproxy-controller'')] @
     map AddWatcher (case metrics of None \<Rightarrow> [] | Some w \<Rightarrow> [w]) @
     map AddWatcher (case webhook of None \<Rightarrow> [] | Some w \<Rightarrow> [w]) @
     [HealthzCheck ''healthz'', ReadyzCheck ''readyz'', Start]"

lemma follows_startUp: "follows ok (startPlan mw ww) (startUp (traceApi l ok ea la z) m mw ww)"
  unfolding startPlan_def startUp_def append_Cons append_Nil setupProxyWithManager_def traceApi_sel
  by (intro follows_rules follows_orExit follows_watcher follows_ret)

section \<open>The TLS options of the two servers\<close>

definition certificateFiles :: "string \<Rightarrow> string \<Rightarrow> string \<Rightarrow> (string \<times> string) option" where
  "certificateFiles dir cert key =
     (if dir = '''' then None else Some (filepathJoin dir cert, filepathJoin dir key))"

definition webhookFiles :: "managerSettings \<Rightarrow> (string \<times> string) option" where
  "webhookFiles fl = certificateFiles (webhookCertPath fl) (webhookCertName fl) (webhookCertKey fl)"

definition metricsFiles :: "managerSettings \<Rightarrow> (string \<times> string) option" where
  "metricsFiles fl = certificateFiles (metricsCertPath fl) (metricsCertName fl) (metricsCertKey fl)"

text \<open>What each server should get.\<close>

definition baseTLS :: "managerSettings \<Rightarrow> tlsOption list" where
  "baseTLS fl = (if enableHTTP2 fl then [] else [DisableHTTP2])"

definition webhookTLS :: "managerSettings \<Rightarrow> tlsOption list" where
  "webhookTLS fl = baseTLS fl @ (if webhookCertPath fl = '''' then [] else [WebhookCertificate])"

definition metricsTLS :: "managerSettings \<Rightarrow> tlsOption list" where
  "metricsTLS fl = baseTLS fl @ (if metricsCertPath fl = '''' then [] else [MetricsCertificate])"

definition optionsFor :: "managerSettings \<Rightarrow> tlsOption list \<Rightarrow> resolvedOptions" where
  "optionsFor fl webhook =
     \<lparr>rsBindAddress = metricsAddr fl, rsSecure = secureMetrics fl,
      rsFilter = (if secureMetrics fl then Some ''WithAuthenticationAndAuthorization'' else None),
      rsMetricsTLS = metricsTLS fl, rsWebhookTLS = webhook, rsProbeAddress = probeAddr fl,
      rsLeaderElection = enableLeaderElection fl, rsLeaderElectionID = ''fa56ba13.carmier.fr''\<rparr>"

definition watcherPlan :: "(string \<times> string) option \<Rightarrow> event list" where
  "watcherPlan files = (case files of None \<Rightarrow> [] | Some (c, k) \<Rightarrow> [NewCertWatcher c k])"

definition mainPlan :: "managerSettings \<Rightarrow> tlsOption list \<Rightarrow> event list" where
  "mainPlan fl webhook =
     watcherPlan (webhookFiles fl) @ watcherPlan (metricsFiles fl) @
     [GetConfig, NewManager (optionsFor fl webhook)] @ startPlan (metricsFiles fl) (webhookFiles fl)"

text \<open>
  The two servers share the array of the common options when \<open>append\<close> on a nil slice leaves
  room for a second element; then the append for the metrics server overwrites the entry of the
  webhook server.
\<close>

definition sharedArray :: "(nat \<Rightarrow> nat \<Rightarrow> nat) \<Rightarrow> managerSettings \<Rightarrow> bool" where
  "sharedArray grow fl \<longleftrightarrow>
     \<not> enableHTTP2 fl \<and> webhookCertPath fl \<noteq> '''' \<and> metricsCertPath fl \<noteq> '''' \<and> 1 < grow 0 1"

definition webhookTLSNow :: "(nat \<Rightarrow> nat \<Rightarrow> nat) \<Rightarrow> managerSettings \<Rightarrow> tlsOption list" where
  "webhookTLSNow grow fl =
     (if sharedArray grow fl then [DisableHTTP2, MetricsCertificate] else webhookTLS fl)"

lemma initial_slice:
  assumes "initialTLSOpts grow fl = (t, h)"
  shows "sliceOk h t" and "sliceView h t = baseTLS fl"
    and "sliceLen t < sliceCap t \<longleftrightarrow> \<not> enableHTTP2 fl \<and> 1 < grow 0 1"
proof -
  show "sliceOk h t" and "sliceView h t = baseTLS fl"
    using assms append_slice [OF sliceOk_nil, of grow NilFunc DisableHTTP2 "[]" t h]
    by (auto simp: initialTLSOpts_def baseTLS_def split: if_splits)
  show "sliceLen t < sliceCap t \<longleftrightarrow> \<not> enableHTTP2 fl \<and> 1 < grow 0 1"
    using assms by (auto simp: initialTLSOpts_def appendSlice_def nilSlice_def newCapacity_def split: if_splits)
qed

text \<open>Both appends, when both watchers are made.\<close>

lemma both_appends:
  assumes "initialTLSOpts grow fl = (t, h)"
    and "appendSlice grow NilFunc t WebhookCertificate h = (w, h1)"
    and "appendSlice grow NilFunc t MetricsCertificate h1 = (m, h2)"
  shows "sliceView h2 m = baseTLS fl @ [MetricsCertificate]"
    and "sliceView h2 w = baseTLS fl @ [if \<not> enableHTTP2 fl \<and> 1 < grow 0 1 then MetricsCertificate else WebhookCertificate]"
proof -
  note t = initial_slice [OF assms(1)]
  note w = append_slice [OF t(1) assms(2)]
  show "sliceView h2 w = baseTLS fl @ [if \<not> enableHTTP2 fl \<and> 1 < grow 0 1 then MetricsCertificate else WebhookCertificate]"
  proof (cases "sliceLen t < sliceCap t")
    case True
    then show ?thesis using append_twice_aliases [OF t(1) True assms(2,3)] t(2,3) by simp
  next
    case False
    then show ?thesis using append_full_undisturbed(2) [OF False assms(3) w(1)] w(2) t(2,3) by simp
  qed
  have "sliceOk h1 t \<and> sliceView h1 t = baseTLS fl"
  proof (cases "sliceLen t < sliceCap t")
    case True
    then show ?thesis using t(1,2) assms(2)
      by (auto simp: appendSlice_def sliceOk_def sliceView_def)
  next
    case False
    then show ?thesis using append_full_undisturbed [OF False assms(2) t(1)] t(2) by simp
  qed
  then show "sliceView h2 m = baseTLS fl @ [MetricsCertificate]"
    using append_slice(2) [OF _ assms(3)] by simp
qed

lemma resolve_eq:
  assumes "sliceView h (metricsTLSOpts mo) = metricsTLS fl" and "sliceView h w = wt"
    and "mo = (metricsServerOptions fl t)\<lparr>metricsTLSOpts := metricsTLSOpts mo\<rparr>"
  shows "resolveOptions (managerOptionsFor fl mo w) h = optionsFor fl wt"
proof -
  have "bindAddress mo = metricsAddr fl \<and> secureServing mo = secureMetrics fl \<and>
      filterProvider mo = (if secureMetrics fl then Some ''WithAuthenticationAndAuthorization'' else None)"
    by (subst assms(3), subst (2) assms(3), subst (3) assms(3)) (simp add: metricsServerOptions_def Let_def)
  then show ?thesis
    by (simp add: resolveOptions_def managerOptionsFor_def optionsFor_def assms(1,2))
qed

lemma follows_runManager:
  "follows ok (mainPlan fl (webhookTLSNow grow fl)) (runManager (traceApi l ok ea la z) grow fl)"
proof -
  obtain t h where t: "initialTLSOpts grow fl = (t, h)" by fastforce
  obtain w h1 where w: "appendSlice grow NilFunc t WebhookCertificate h = (w, h1)" by fastforce
  obtain m h2 where m: "appendSlice grow NilFunc t MetricsCertificate h1 = (m, h2)" by fastforce
  obtain m' h2' where m': "appendSlice grow NilFunc t MetricsCertificate h = (m', h2')" by fastforce
  note defs = webhookTLSNow_def sharedArray_def
  note prog = runManager_def t webhookCertificate_def metricsCertificate_def
  have mso: "metricsTLSOpts (metricsServerOptions fl s) = s" for s
    by (simp add: metricsServerOptions_def Let_def)
  note steps = prog run_simps traceValue_def mainPlan_def watcherPlan_def webhookFiles_def metricsFiles_def
    certificateFiles_def follows_startUp [unfolded follows_def, rule_format] mso
  note views = initial_slice [OF t] append_slice [OF initial_slice(1) [OF t] w]
    append_slice [OF initial_slice(1) [OF t] m'] both_appends [OF t w m]
  consider (none) "webhookCertPath fl = ''''" "metricsCertPath fl = ''''"
    | (metrics) "webhookCertPath fl = ''''" "metricsCertPath fl \<noteq> ''''"
    | (webhook) "webhookCertPath fl \<noteq> ''''" "metricsCertPath fl = ''''"
    | (both) "webhookCertPath fl \<noteq> ''''" "metricsCertPath fl \<noteq> ''''" by blast
  then show ?thesis
  proof cases
    case none
    have "resolveOptions (managerOptionsFor fl (metricsServerOptions fl t) t) h =
        optionsFor fl (webhookTLSNow grow fl)"
      by (rule resolve_eq [of _ _ _ _ _ t]) (simp_all add: mso views metricsTLS_def webhookTLS_def none defs)
    then show ?thesis by (simp add: follows_def steps none)
  next
    case metrics
    have res: "resolveOptions (managerOptionsFor fl ((metricsServerOptions fl t)\<lparr>metricsTLSOpts := m'\<rparr>) t) h2' =
        optionsFor fl (webhookTLSNow grow fl)"
    proof (rule resolve_eq [of _ _ _ _ _ t])
      show "sliceView h2' t = webhookTLSNow grow fl"
        using append_keeps_prefix [OF initial_slice(1) [OF t] m'] views(2)
        by (simp add: webhookTLS_def metrics defs)
    qed (simp_all add: views metricsTLS_def metrics)
    show ?thesis by (simp add: follows_def steps metrics m' res)
  next
    case webhook
    have res: "resolveOptions (managerOptionsFor fl (metricsServerOptions fl t) w) h1 =
        optionsFor fl (webhookTLSNow grow fl)"
    proof (rule resolve_eq [of _ _ _ _ _ t])
      show "sliceView h1 (metricsTLSOpts (metricsServerOptions fl t)) = metricsTLS fl"
        using append_keeps_prefix [OF initial_slice(1) [OF t] w] views(2)
        by (simp add: metricsTLS_def webhook mso)
    qed (simp_all add: mso views webhookTLS_def webhook defs)
    show ?thesis by (simp add: follows_def steps webhook w res)
  next
    case both
    have res: "resolveOptions (managerOptionsFor fl ((metricsServerOptions fl t)\<lparr>metricsTLSOpts := m\<rparr>) w) h2 =
        optionsFor fl (webhookTLSNow grow fl)"
      by (rule resolve_eq [of _ _ _ _ _ t])
         (auto simp: views metricsTLS_def webhookTLS_def both defs baseTLS_def)
    show ?thesis by (simp add: follows_def steps both w m res)
  qed
qed


section \<open>Start-up\<close>

text \<open>C19: the start-up takes its steps in a fixed order and stops at the first that fails.  Whatever
  steps fail, the program asks for the certificate watchers of the configured directories
  (webhook, then metrics), for the configuration, for a manager with exactly the options of the
  command line, for the owner index and the rules controller, the proxy controller, the
  watchers, the two probes and the start.  The steps taken are that list up to the first
  failure; the program returns when none fails and exits with code 1 otherwise.  So no
  controller runs before everything it needs is in place.\<close>

theorem manager_start_order:
  "run_state (runManager (traceApi l ok earlier later z) grow fl) tr =
     (if list_all ok (mainPlan fl (webhookTLSNow grow fl)) then Returned else Exit 1,
      tr @ upToFailure ok (mainPlan fl (webhookTLSNow grow fl)))"
  using follows_runManager [of ok fl grow l earlier later z] by (simp add: follows_def)

section \<open>TLS\<close>

lemma plan_options:
  "NewManager o1 \<in> set (mainPlan fl webhook) \<Longrightarrow> o1 = optionsFor fl webhook"
  by (auto simp: mainPlan_def watcherPlan_def startPlan_def split: option.splits)

lemma upToFailure_sub: "set (upToFailure ok es) \<subseteq> set es"
  by (induction es) auto

lemma manager_options:
  assumes "NewManager o1 \<in> set (snd (run_state (runManager (traceApi l ok earlier later z) grow fl) []))"
  shows "o1 = optionsFor fl (webhookTLSNow grow fl)"
  using assms upToFailure_sub [of ok] plan_options follows_runManager [of ok fl grow l earlier later z]
  by (fastforce simp: follows_def)

text \<open>The watcher of a certificate directory, made only when the directory is configured.\<close>

definition watcherFor :: "string \<Rightarrow> 'cw \<Rightarrow> 'cw option" where
  "watcherFor path w = (if path = '''' then None else Some w)"

text \<open>C20: which certificates the servers serve, for every configuration.  When the manager is made,
  the option lists of both servers run without panic.  The metrics server's options load the
  metrics certificate if one is configured, and otherwise leave the certificate as it was.  The
  webhook server's options leave it as it was if no webhook certificate is configured; if one
  is, they load it, unless HTTP/2 is disabled, a metrics certificate is configured too and
  \<open>append\<close> on a nil slice leaves room for two elements: then both option lists share one
  array, the second append overwrites the first, and the webhook server serves the metrics
  certificate.  (The language allows that growth; today's compilers allot one element.)\<close>

theorem tls_certificates:
  assumes "NewManager o1 \<in> set (snd (run_state (runManager (traceApi l ok earlier later z) grow fl) []))"
  shows "let webhookWatcher = watcherFor (webhookCertPath fl) webhook;
      metricsWatcher = watcherFor (metricsCertPath fl) metrics in
    (\<exists>c. applyTLSOptions webhookWatcher metricsWatcher (rsMetricsTLS o1) cfg = Value c \<and>
      getCertificate c = (if metricsCertPath fl = '''' then getCertificate cfg else Some metrics)) \<and>
    (\<exists>c. applyTLSOptions webhookWatcher metricsWatcher (rsWebhookTLS o1) cfg = Value c \<and>
      getCertificate c =
        (if webhookCertPath fl = '''' then getCertificate cfg
         else if \<not> enableHTTP2 fl \<and> metricsCertPath fl \<noteq> '''' \<and> 1 < grow 0 1 then Some metrics
         else Some webhook))"
  by (auto simp: manager_options [OF assms] optionsFor_def metricsTLS_def webhookTLS_def baseTLS_def
      webhookTLSNow_def sharedArray_def applyTLSOption_def watcherFor_def Let_def)

text \<open>C21: HTTP/2 is off unless it is asked for.  Without \<open>enable-http2\<close> both servers end up with
  HTTP/1.1 as their only protocol, whatever certificates are configured and however
  \<open>append\<close> grows; with it the protocols stay as they were.  No nil option is ever called.\<close>

theorem http2_off_by_default:
  assumes "NewManager o1 \<in> set (snd (run_state (runManager (traceApi l ok earlier later z) grow fl) []))"
    and "opts = rsMetricsTLS o1 \<or> opts = rsWebhookTLS o1"
  shows "\<exists>c. applyTLSOptions webhook metrics opts cfg = Value c \<and>
    nextProtos c = (if enableHTTP2 fl then nextProtos cfg else [''http/1.1''])"
  using assms(2)
  by (auto simp: manager_options [OF assms(1)] optionsFor_def metricsTLS_def webhookTLS_def baseTLS_def
      webhookTLSNow_def sharedArray_def applyTLSOption_def)

section \<open>Certificate files\<close>

text \<open>The file \<open>f\<close> directly in the directory \<open>d\<close>.\<close>

definition fileIn :: "string \<Rightarrow> string \<Rightarrow> string" where
  "fileIn d f =
     (if cleanElements d = [] then (if rootedPath d then ''/'' @ f else f) else filepathClean d @ ''/'' @ f)"

text \<open>C23: with plain file names the watchers only read files directly in the two configured
  directories, and no watcher is made for a directory that is not configured.\<close>

theorem certificate_files:
  assumes "NewCertWatcher c k \<in> set (snd (run_state (runManager (traceApi l ok earlier later z) grow fl) []))"
    and "list_all plainFileName [webhookCertName fl, webhookCertKey fl, metricsCertName fl, metricsCertKey fl]"
  shows "(webhookCertPath fl \<noteq> '''' \<and> c = fileIn (webhookCertPath fl) (webhookCertName fl) \<and>
      k = fileIn (webhookCertPath fl) (webhookCertKey fl)) \<or>
    (metricsCertPath fl \<noteq> '''' \<and> c = fileIn (metricsCertPath fl) (metricsCertName fl) \<and>
      k = fileIn (metricsCertPath fl) (metricsCertKey fl))"
proof -
  have "NewCertWatcher c k \<in> set (mainPlan fl (webhookTLSNow grow fl))"
    using assms(1) upToFailure_sub [of ok] follows_runManager [of ok fl grow l earlier later z]
    by (fastforce simp: follows_def)
  then have "webhookFiles fl = Some (c, k) \<or> metricsFiles fl = Some (c, k)"
    by (auto simp: mainPlan_def watcherPlan_def startPlan_def split: option.splits)
  then show ?thesis
    using assms(2)
    by (auto simp: webhookFiles_def metricsFiles_def certificateFiles_def fileIn_def filepathJoin_file
        split: if_splits)
qed

section \<open>The command line\<close>

text \<open>C22: the command line says what it means.  Started with the flags written out for some settings,
  the program runs with exactly these settings, whatever flags other packages add (as long as
  no name is taken twice, in which case it panics).\<close>

theorem command_line_roundtrip:
  assumes "registerFlags (earlierFlags api) (laterFlags api) = Value flags"
  shows "managerMain api grow (renderSettings fl) = do {
     scheme \<leftarrow> initScheme api;
     (case scheme of
        Panic \<Rightarrow> ret Panic
      | Value _ \<Rightarrow> do { status \<leftarrow> runManager api grow fl; ret (Value status) })
   }"
proof -
  have "parseCommandLine flags (renderSettings fl) z = Inr (fl, z)" for z
    by (simp add: parseCommandLine_def parse_renderSettings [OF assms])
  then show ?thesis unfolding managerMain_def assms outcome.case by simp
qed

text \<open>An unknown flag ends the program with code 2 before the manager is asked for anything,
  even after valid flags.\<close>

lemma unknown_flag_exits:
  assumes "registerFlags earlier later = Value flags"
    and "plainFlagName name" and "lookupFlag flags name = None" and "name \<noteq> ''help''" and "name \<noteq> ''h''"
    and "ok AddClientGoTypes" and "ok (AddTypes addToScheme)"
  shows "run_state (managerMain (traceApi l ok earlier later z) grow (renderSettings fl @ (''--'' @ name) # args)) [] =
    (Value (Exit 2), [AddClientGoTypes, AddTypes addToScheme])"
proof -
  obtain c cs where name: "name = c # cs" using assms(2) by (cases name) (auto simp: plainFlagName_def)
  have "\<forall>x \<in> set name. x \<noteq> CHR ''=''" using assms(2) by (auto simp: plainFlagName_def)
  then have cut: "cutAssign name = (name, None)"
    by (simp add: cutAssign_def dropWhile_eq_Nil_conv [THEN iffD2])
  have c: "c \<noteq> CHR ''-''" "c \<noteq> CHR ''=''" using assms(2) by (auto simp: plainFlagName_def name)
  have bad: "parseArgs flags ((''--'' @ name) # args) st = Inl ErrFlag" for st
    using assms(3-5) c cut by (simp add: parseArgs.simps(2) name)
  have "parseCommandLine flags (renderSettings fl @ (''--'' @ name) # args) z = Inl ErrFlag"
    unfolding parseCommandLine_def parse_renderSettings_append [OF assms(1)] bad by simp
  then show ?thesis
    using assms(6,7) by (simp add: managerMain_def initScheme_def traceError_def run_simps assms(1))
qed

end
