(* ===== verification/Manager_Witnesses.thy ===== *)
theory Manager_Witnesses
  imports Manager_Properties Examples
begin

text \<open>
  Concrete runs of the manager for the properties of \<open>Manager_Properties\<close>: both certificates
  configured, a foreign flag before and after the manager's own, and every step succeeding.
\<close>

definition kubeconfigFlag :: "string list flagDef" where
  "kubeconfigFlag = \<lparr>flagName = ''kubeconfig'', flagIsBool = False, flagSet = (\<lambda>v z. Some (v # z))\<rparr>"

definition zapDevelFlag :: "string list flagDef" where
  "zapDevelFlag = \<lparr>flagName = ''zap-devel'', flagIsBool = True,
     flagSet = (\<lambda>v z. map_option (\<lambda>b. z) (parseBool v))\<rparr>"

definition exampleFlags :: "(managerSettings \<times> string list) flagDef list" where
  "exampleFlags = map foreignFlag [kubeconfigFlag] @ managerFlags @ map foreignFlag [zapDevelFlag]"

lemma example_registered: "registerFlags [kubeconfigFlag] [zapDevelFlag] = Value exampleFlags"
  by (simp add: registerFlags_def exampleFlags_def managerFlags_def kubeconfigFlag_def zapDevelFlag_def)

definition secureSettings :: managerSettings where
  "secureSettings = defaultSettings\<lparr>webhookCertPath := ''/webhook'', metricsCertPath := ''/metrics''\<rparr>"

abbreviation exampleApi :: "(event list, string \<times> string, unit, unit, string list) managerApi" where
  "exampleApi \<equiv> traceApi exampleLib (\<lambda>_. True) [kubeconfigFlag] [zapDevelFlag] []"

abbreviation tightGrow :: "nat \<Rightarrow> nat \<Rightarrow> nat" where
  "tightGrow \<equiv> (\<lambda>cap needed. needed)"

lemma example_upTo: "upToFailure (\<lambda>_. True) es = es"
  by (induction es) simp_all

lemma example_all: "list_all (\<lambda>_. True) es"
  by (simp add: list_all_iff)

lemma example_trace:
  "run_state (runManager exampleApi tightGrow fl) tr = (Returned, tr @ mainPlan fl (webhookTLSNow tightGrow fl))"
  using follows_runManager [of "\<lambda>_. True" fl tightGrow exampleLib "[kubeconfigFlag]" "[zapDevelFlag]" "[]"]
  by (simp add: follows_def example_upTo example_all)

lemma example_manager:
  "NewManager (optionsFor fl (webhookTLSNow tightGrow fl))
     \<in> set (snd (run_state (runManager exampleApi tightGrow fl) []))"
  by (simp add: example_trace mainPlan_def)

lemma command_line_roundtrip_witness:
  "fst (run_state (managerMain exampleApi tightGrow (renderSettings secureSettings)) []) = Value Returned"
proof -
  have reg: "registerFlags (earlierFlags exampleApi) (laterFlags exampleApi) = Value exampleFlags"
    by (simp add: example_registered)
  show ?thesis
    unfolding command_line_roundtrip [OF reg]
    by (simp add: run_simps initScheme_def traceError_def example_trace)
qed

lemma tls_certificates_witness:
  "\<exists>c d. applyTLSOptions (Some ''webhook'') (Some ''metrics'')
      (rsWebhookTLS (optionsFor secureSettings (webhookTLSNow tightGrow secureSettings)))
      \<lparr>nextProtos = [], getCertificate = None\<rparr> = Value c \<and> getCertificate c = Some ''webhook'' \<and>
    applyTLSOptions (Some ''webhook'') None
      (rsWebhookTLS (optionsFor (secureSettings\<lparr>metricsCertPath := ''''\<rparr>)
        (webhookTLSNow tightGrow (secureSettings\<lparr>metricsCertPath := ''''\<rparr>))))
      \<lparr>nextProtos = [], getCertificate = None\<rparr> = Value d \<and> getCertificate d = Some ''webhook''"
proof -
  note at = tls_certificates [OF example_manager, where webhook = "''webhook''" and metrics = "''metrics''"
    and cfg = "\<lparr>nextProtos = [], getCertificate = None\<rparr>", unfolded Let_def, THEN conjunct2]
  have paths: "webhookCertPath secureSettings = ''/webhook''" "metricsCertPath secureSettings = ''/metrics''"
    by (simp_all add: secureSettings_def)
  show ?thesis
    using at [of secureSettings] at [of "secureSettings\<lparr>metricsCertPath := ''''\<rparr>"]
    by (simp add: watcherFor_def paths)
qed

lemma http2_off_by_default_witness:
  "\<exists>c. applyTLSOptions (Some ''webhook'') (Some ''metrics'')
      (rsMetricsTLS (optionsFor secureSettings (webhookTLSNow tightGrow secureSettings)))
      \<lparr>nextProtos = [''h2'', ''http/1.1''], getCertificate = None\<rparr> = Value c \<and> nextProtos c = [''http/1.1'']"
  using http2_off_by_default [OF example_manager disjI1 [OF refl], of "Some ''webhook''" "Some ''metrics''"
      secureSettings "\<lparr>nextProtos = [''h2'', ''http/1.1''], getCertificate = None\<rparr>"]
  by (simp add: secureSettings_def defaultSettings_def)

lemma certificate_files_witness:
  "filepathJoin ''/webhook'' ''tls.crt'' = fileIn ''/webhook'' ''tls.crt''"
proof -
  have mem: "NewCertWatcher (filepathJoin ''/webhook'' ''tls.crt'') (filepathJoin ''/webhook'' ''tls.key'')
      \<in> set (snd (run_state (runManager exampleApi tightGrow (secureSettings\<lparr>metricsCertPath := ''''\<rparr>)) []))"
    by (simp add: example_trace mainPlan_def watcherPlan_def webhookFiles_def certificateFiles_def
        secureSettings_def defaultSettings_def)
  have plain: "list_all plainFileName [webhookCertName (secureSettings\<lparr>metricsCertPath := ''''\<rparr>),
      webhookCertKey (secureSettings\<lparr>metricsCertPath := ''''\<rparr>),
      metricsCertName (secureSettings\<lparr>metricsCertPath := ''''\<rparr>),
      metricsCertKey (secureSettings\<lparr>metricsCertPath := ''''\<rparr>)]"
    by (simp add: plainFileName_def secureSettings_def defaultSettings_def)
  from certificate_files [OF mem plain] show ?thesis
    by (simp add: secureSettings_def defaultSettings_def)
qed

end
