(* ===== verification/Go_Memory.thy ===== *)
theory Go_Memory
  imports Prelude
begin

text \<open>
  Go's memory as far as copying depends on it: allocated cells with addresses, and the four kinds
  of references the resource types hold.  A slice refers to a window of a backing array, a map to
  a table, a pointer to a struct; the zero value of each is nil.  A composite literal, \<open>new\<close>
  and \<open>make\<close> allocate; nothing is ever freed, as under a garbage collector.

  A \<open>deep_copier\<close> is a function that copies a value with everything it refers to.  The
  laws: the copy reads like the original, it lives entirely in cells that the call allocated, and
  no older cell was written.  The combinators below build a copier for a pair, a struct, a slice,
  a map and a pointer from copiers of the parts, the way generated code is put together.
\<close>

section \<open>Cells\<close>

record 'c memory =
  cells :: "nat \<Rightarrow> 'c option"
  nextFree :: nat

definition memoryOk :: "'c memory \<Rightarrow> bool" where
  "memoryOk h \<longleftrightarrow> (\<forall>a \<ge> nextFree h. cells h a = None)"

definition alloc :: "'c \<Rightarrow> ('c memory, nat) go" where
  "alloc c = State (\<lambda>h. (nextFree h,
     h\<lparr>cells := (cells h)(nextFree h \<mapsto> c), nextFree := Suc (nextFree h)\<rparr>))"

definition loadCell :: "nat \<Rightarrow> ('c memory, 'c option) go" where
  "loadCell a = State (\<lambda>h. (cells h a, h))"

definition storeCell :: "nat \<Rightarrow> 'c \<Rightarrow> ('c memory, unit) go" where
  "storeCell a c = State (\<lambda>h. ((), h\<lparr>cells := (cells h)(a \<mapsto> c)\<rparr>))"

lemma run_alloc [run_simps]:
  "run_state (alloc c) h = (nextFree h,
     h\<lparr>cells := (cells h)(nextFree h \<mapsto> c), nextFree := Suc (nextFree h)\<rparr>)"
  by (simp add: alloc_def)

lemma run_loadCell [run_simps]: "run_state (loadCell a) h = (cells h a, h)"
  by (simp add: loadCell_def)

lemma run_storeCell [run_simps]:
  "run_state (storeCell a c) h = ((), h\<lparr>cells := (cells h)(a \<mapsto> c)\<rparr>)"
  by (simp add: storeCell_def)

text \<open>\<open>grows B h h'\<close>: \<open>h'\<close> has more cells than \<open>h\<close>, and of the old ones only those of
  \<open>B\<close> may have been written.\<close>

definition grows :: "nat set \<Rightarrow> 'c memory \<Rightarrow> 'c memory \<Rightarrow> bool" where
  "grows B h h' \<longleftrightarrow> nextFree h \<le> nextFree h' \<and> memoryOk h' \<and>
     (\<forall>a < nextFree h. a \<notin> B \<longrightarrow> cells h' a = cells h a)"

lemma grows_refl [simp]: "memoryOk h \<Longrightarrow> grows B h h"
  by (simp add: grows_def)

lemma grows_trans: "grows B h h' \<Longrightarrow> grows B h' h'' \<Longrightarrow> grows B h h''"
  by (auto simp: grows_def)

lemma grows_mono: "grows B h h' \<Longrightarrow> B \<subseteq> C \<Longrightarrow> grows C h h'"
  by (auto simp: grows_def)

lemma grows_ok: "grows B h h' \<Longrightarrow> memoryOk h'"
  by (simp add: grows_def)

lemma grows_next: "grows B h h' \<Longrightarrow> nextFree h \<le> nextFree h'"
  by (simp add: grows_def)

lemma grows_cells: "grows B h h' \<Longrightarrow> a < nextFree h \<Longrightarrow> a \<notin> B \<Longrightarrow> cells h' a = cells h a"
  by (simp add: grows_def)

lemma grows_alloc:
  "memoryOk h \<Longrightarrow> grows {} h
     (h\<lparr>cells := (cells h)(nextFree h \<mapsto> c), nextFree := Suc (nextFree h)\<rparr>)"
  by (auto simp: grows_def memoryOk_def)

lemma grows_store:
  "memoryOk h \<Longrightarrow> a < nextFree h \<Longrightarrow> a \<in> B \<Longrightarrow> grows B h (h\<lparr>cells := (cells h)(a \<mapsto> c)\<rparr>)"
  by (auto simp: grows_def memoryOk_def)

text \<open>Cells allocated since are not old cells: writes to them are forgotten.\<close>

lemma grows_forget: "grows B h h' \<Longrightarrow> B \<inter> {..<nextFree h} = {} \<Longrightarrow> grows {} h h'"
  by (auto simp: grows_def)

section \<open>The contract of a deep copy\<close>

text \<open>\<open>view h m\<close> is the value that \<open>m\<close> stands for in \<open>h\<close>, if every reference in it
  leads to a cell of its type; \<open>reach h m\<close> are the cells it depends on.\<close>

locale deep_copier =
  fixes copy :: "'m \<Rightarrow> ('c memory, 'm) go"
    and view :: "'c memory \<Rightarrow> 'm \<Rightarrow> 'v option"
    and reach :: "'c memory \<Rightarrow> 'm \<Rightarrow> nat set"
  assumes view_frame: "(\<And>a. a \<in> reach h m \<Longrightarrow> cells h' a = cells h a) \<Longrightarrow> view h' m = view h m"
    and reach_frame: "(\<And>a. a \<in> reach h m \<Longrightarrow> cells h' a = cells h a) \<Longrightarrow> reach h' m = reach h m"
    and reach_allocated: "memoryOk h \<Longrightarrow> view h m = Some v \<Longrightarrow> reach h m \<subseteq> {..<nextFree h}"
    and copy_sound: "memoryOk h \<Longrightarrow> view h m = Some v \<Longrightarrow> run_state (copy m) h = (m', h') \<Longrightarrow>
      grows {} h h' \<and> view h' m' = Some v \<and> reach h' m' \<subseteq> {nextFree h..<nextFree h'}"
begin

lemma view_grows:
  assumes "memoryOk h" and "view h m = Some v" and "grows B h h'" and "reach h m \<inter> B = {}"
  shows "view h' m = Some v" and "reach h' m = reach h m"
proof -
  have same: "\<And>a. a \<in> reach h m \<Longrightarrow> cells h' a = cells h a"
    using reach_allocated [OF assms(1,2)] assms(3,4) by (auto intro!: grows_cells)
  show "view h' m = Some v" using view_frame [OF same] assms(2) by simp
  show "reach h' m = reach h m" by (rule reach_frame [OF same])
qed

text \<open>The original still reads the same, and shares no cell with the copy.\<close>

lemma copy_disjoint:
  assumes "memoryOk h" and "view h m = Some v" and "run_state (copy m) h = (m', h')"
  shows "view h' m = Some v" and "reach h' m \<inter> reach h' m' = {}"
proof -
  note s = copy_sound [OF assms]
  show "view h' m = Some v" using view_grows [of h m v "{}" h'] s assms(1,2) by simp
  have "reach h' m = reach h m" using view_grows [of h m v "{}" h'] s assms(1,2) by simp
  then have "reach h' m \<subseteq> {..<nextFree h}" using reach_allocated [OF assms(1,2)] by simp
  then show "reach h' m \<inter> reach h' m' = {}" using s by fastforce
qed

text \<open>Whatever is written through one of them later, the other does not see it.\<close>

lemma copy_isolated:
  assumes "memoryOk h" and "view h m = Some v" and "run_state (copy m) h = (m', h')"
  shows "(\<And>a. a \<notin> reach h' m' \<Longrightarrow> cells h2 a = cells h' a) \<Longrightarrow> view h2 m = Some v"
    and "(\<And>a. a \<notin> reach h' m \<Longrightarrow> cells h2 a = cells h' a) \<Longrightarrow> view h2 m' = Some v"
proof -
  note d = copy_disjoint [OF assms] and s = copy_sound [OF assms]
  show "view h2 m = Some v" if "\<And>a. a \<notin> reach h' m' \<Longrightarrow> cells h2 a = cells h' a"
    using view_frame [of h' m h2] that d by auto
  show "view h2 m' = Some v" if "\<And>a. a \<notin> reach h' m \<Longrightarrow> cells h2 a = cells h' a"
    using view_frame [of h' m' h2] that d s by auto
qed

end

named_theorems copier_intros \<open>copiers built from copiers\<close>

section \<open>Values without references\<close>

interpretation plainCopier: deep_copier "\<lambda>m. ret m" "\<lambda>h m. Some m" "\<lambda>h m. {}"
  by unfold_locales (auto simp: run_simps)

lemmas plain_copier [copier_intros] = plainCopier.deep_copier_axioms

section \<open>Pairs and structs\<close>

definition copyPair ::
  "('a \<Rightarrow> ('c memory, 'a) go) \<Rightarrow> ('b \<Rightarrow> ('c memory, 'b) go) \<Rightarrow> 'a \<times> 'b \<Rightarrow> ('c memory, 'a \<times> 'b) go"
  where
  "copyPair f g p = do { x \<leftarrow> f (fst p); y \<leftarrow> g (snd p); ret (x, y) }"

definition viewPair ::
  "('c memory \<Rightarrow> 'a \<Rightarrow> 'v option) \<Rightarrow> ('c memory \<Rightarrow> 'b \<Rightarrow> 'w option) \<Rightarrow>
   'c memory \<Rightarrow> 'a \<times> 'b \<Rightarrow> ('v \<times> 'w) option" where
  "viewPair f g h p =
     (case f h (fst p) of None \<Rightarrow> None
      | Some v \<Rightarrow> (case g h (snd p) of None \<Rightarrow> None | Some w \<Rightarrow> Some (v, w)))"

definition reachPair ::
  "('c memory \<Rightarrow> 'a \<Rightarrow> nat set) \<Rightarrow> ('c memory \<Rightarrow> 'b \<Rightarrow> nat set) \<Rightarrow> 'c memory \<Rightarrow> 'a \<times> 'b \<Rightarrow> nat set"
  where
  "reachPair f g h p = f h (fst p) \<union> g h (snd p)"

locale pair_copier =
  left: deep_copier copy1 view1 reach1 + right: deep_copier copy2 view2 reach2
  for copy1 :: "'a \<Rightarrow> ('c memory, 'a) go" and view1 :: "'c memory \<Rightarrow> 'a \<Rightarrow> 'v option" and reach1
    and copy2 :: "'b \<Rightarrow> ('c memory, 'b) go" and view2 :: "'c memory \<Rightarrow> 'b \<Rightarrow> 'w option" and reach2
begin

lemma copy_pair_sound:
  assumes ok: "memoryOk h" and v: "viewPair view1 view2 h p = Some v"
    and run: "run_state (copyPair copy1 copy2 p) h = (p', h')"
  shows "grows {} h h' \<and> viewPair view1 view2 h' p' = Some v \<and>
         reachPair reach1 reach2 h' p' \<subseteq> {nextFree h..<nextFree h'}"
proof -
  obtain v1 v2 where v1: "view1 h (fst p) = Some v1" and v2: "view2 h (snd p) = Some v2"
    and [simp]: "v = (v1, v2)"
    using v by (auto simp: viewPair_def split: option.splits)
  obtain x h1 where r1: "run_state (copy1 (fst p)) h = (x, h1)" by fastforce
  obtain y h2 where r2: "run_state (copy2 (snd p)) h1 = (y, h2)" by fastforce
  have [simp]: "p' = (x, y)" "h' = h2"
    using run r1 r2 by (auto simp: copyPair_def run_simps)
  note s1 = left.copy_sound [OF ok v1 r1]
  note w2 = right.view_grows [OF ok v2, of "{}" h1]
  note s2 = right.copy_sound [of h1 "snd p" v2 y h2]
  have s2: "grows {} h1 h2 \<and> view2 h2 y = Some v2 \<and> reach2 h2 y \<subseteq> {nextFree h1..<nextFree h2}"
    using s1 w2 r2 by (intro s2) (auto dest: grows_ok)
  have w1: "view1 h2 x = Some v1" "reach1 h2 x = reach1 h1 x"
    using left.view_grows [of h1 x v1 "{}" h2] s1 s2 by (auto dest: grows_ok)
  show ?thesis
    using s1 s2 w1 grows_trans [of "{}" h h1 h2] grows_next [of "{}" h h1] grows_next [of "{}" h1 h2]
    by (fastforce simp: viewPair_def reachPair_def)
qed

end

sublocale pair_copier \<subseteq> pair:
  deep_copier "copyPair copy1 copy2" "viewPair view1 view2" "reachPair reach1 reach2"
proof unfold_locales
  show "viewPair view1 view2 h' m = viewPair view1 view2 h m"
    if "\<And>a. a \<in> reachPair reach1 reach2 h m \<Longrightarrow> cells h' a = cells h a" for h m h'
    using left.view_frame [of h "fst m" h'] right.view_frame [of h "snd m" h'] that
    by (simp add: viewPair_def reachPair_def cong: option.case_cong)
  show "reachPair reach1 reach2 h' m = reachPair reach1 reach2 h m"
    if "\<And>a. a \<in> reachPair reach1 reach2 h m \<Longrightarrow> cells h' a = cells h a" for h m h'
    using left.reach_frame [of h "fst m" h'] right.reach_frame [of h "snd m" h'] that
    by (simp add: reachPair_def)
  show "reachPair reach1 reach2 h m \<subseteq> {..<nextFree h}"
    if "memoryOk h" "viewPair view1 view2 h m = Some v" for h m v
    using that left.reach_allocated [of h "fst m"] right.reach_allocated [of h "snd m"]
    by (auto simp: viewPair_def reachPair_def split: option.splits)
qed (rule copy_pair_sound)

context pair_copier
begin

lemmas is_deep_copier = pair.deep_copier_axioms

end

lemma copier_of_pair [copier_intros]:
  "deep_copier f v r \<Longrightarrow> deep_copier g w s \<Longrightarrow>
   deep_copier (copyPair f g) (viewPair v w) (reachPair r s)"
  by (rule pair_copier.is_deep_copier [OF pair_copier.intro])

text \<open>
  A struct: \<open>*out = *in\<close>, then the fields that hold references are replaced by copies.
  \<open>parts\<close> are these fields, \<open>assemble\<close> puts new ones into a struct and \<open>build\<close> makes
  the value of a struct from the values of the parts.
\<close>

definition copyStruct ::
  "('m \<Rightarrow> 'p) \<Rightarrow> ('m \<Rightarrow> 'p \<Rightarrow> 'm) \<Rightarrow> ('p \<Rightarrow> ('c memory, 'p) go) \<Rightarrow> 'm \<Rightarrow> ('c memory, 'm) go" where
  "copyStruct parts assemble f m = do { p \<leftarrow> f (parts m); ret (assemble m p) }"

definition viewStruct ::
  "('m \<Rightarrow> 'p) \<Rightarrow> ('m \<Rightarrow> 'v \<Rightarrow> 'w) \<Rightarrow> ('c memory \<Rightarrow> 'p \<Rightarrow> 'v option) \<Rightarrow> 'c memory \<Rightarrow> 'm \<Rightarrow> 'w option"
  where
  "viewStruct parts build f h m = map_option (build m) (f h (parts m))"

definition reachStruct ::
  "('m \<Rightarrow> 'p) \<Rightarrow> ('c memory \<Rightarrow> 'p \<Rightarrow> nat set) \<Rightarrow> 'c memory \<Rightarrow> 'm \<Rightarrow> nat set" where
  "reachStruct parts f h m = f h (parts m)"

locale struct_copier = fields: deep_copier copy view reach
  for copy :: "'p \<Rightarrow> ('c memory, 'p) go" and view :: "'c memory \<Rightarrow> 'p \<Rightarrow> 'v option" and reach +
  fixes parts :: "'m \<Rightarrow> 'p" and assemble :: "'m \<Rightarrow> 'p \<Rightarrow> 'm" and build :: "'m \<Rightarrow> 'v \<Rightarrow> 'w"
  assumes parts_assemble: "parts (assemble m p) = p"
    and build_assemble: "build (assemble m p) v = build m v"

sublocale struct_copier \<subseteq> struct:
  deep_copier "copyStruct parts assemble copy" "viewStruct parts build view" "reachStruct parts reach"
proof unfold_locales
  show "viewStruct parts build view h' m = viewStruct parts build view h m"
    if "\<And>a. a \<in> reachStruct parts reach h m \<Longrightarrow> cells h' a = cells h a" for h m h'
    using fields.view_frame [of h "parts m" h'] that by (simp add: viewStruct_def reachStruct_def)
  show "reachStruct parts reach h' m = reachStruct parts reach h m"
    if "\<And>a. a \<in> reachStruct parts reach h m \<Longrightarrow> cells h' a = cells h a" for h m h'
    using fields.reach_frame [of h "parts m" h'] that by (simp add: reachStruct_def)
  show "reachStruct parts reach h m \<subseteq> {..<nextFree h}"
    if "memoryOk h" "viewStruct parts build view h m = Some v" for h m v
    using that fields.reach_allocated [of h "parts m"] by (auto simp: viewStruct_def reachStruct_def)
  show "grows {} h h' \<and> viewStruct parts build view h' m' = Some v \<and>
        reachStruct parts reach h' m' \<subseteq> {nextFree h..<nextFree h'}"
    if ok: "memoryOk h" and v: "viewStruct parts build view h m = Some v"
      and run: "run_state (copyStruct parts assemble copy m) h = (m', h')" for h m v m' h'
  proof -
    obtain p h1 where r: "run_state (copy (parts m)) h = (p, h1)" by fastforce
    obtain u where u: "view h (parts m) = Some u" and [simp]: "v = build m u"
      using v by (auto simp: viewStruct_def)
    have [simp]: "m' = assemble m p" "h' = h1"
      using run r by (auto simp: copyStruct_def run_simps)
    show ?thesis
      using fields.copy_sound [OF ok u r]
      by (simp add: viewStruct_def reachStruct_def parts_assemble build_assemble)
  qed
qed

context struct_copier
begin

lemmas is_deep_copier = struct.deep_copier_axioms

end

lemma copier_of_struct [copier_intros]:
  assumes "deep_copier f v r" and "\<And>m p. parts (assemble m p) = p"
    and "\<And>m p u. build (assemble m p) u = build m u"
  shows "deep_copier (copyStruct parts assemble f) (viewStruct parts build v) (reachStruct parts r)"
  by (intro struct_copier.is_deep_copier struct_copier.intro struct_copier_axioms.intro assms)

section \<open>Slices\<close>

text \<open>A slice that is not nil is a window of \<open>n\<close> elements, from \<open>off\<close> on, of the array at
  an address.\<close>

datatype sliceRef = NilSlice | SliceAt nat nat nat

definition arrayOf :: "('c \<Rightarrow> 'e list option) \<Rightarrow> 'c option \<Rightarrow> 'e list" where
  "arrayOf get c = (case c of None \<Rightarrow> [] | Some x \<Rightarrow> (case get x of None \<Rightarrow> [] | Some xs \<Rightarrow> xs))"

definition window :: "nat \<Rightarrow> nat \<Rightarrow> 'e list \<Rightarrow> 'e list" where
  "window off n xs = take n (drop off xs)"

text \<open>The loop \<open>for i := range *in { (*in)[i].DeepCopyInto(&(*out)[i]) }\<close>, with the new array
  at \<open>b\<close>; \<open>out\<close> is its present contents.\<close>

primrec copyItems ::
  "('e list \<Rightarrow> 'c) \<Rightarrow> ('e \<Rightarrow> ('c memory, 'e) go) \<Rightarrow> nat \<Rightarrow> 'e list \<Rightarrow> 'e list \<Rightarrow> nat \<Rightarrow> ('c memory, unit) go"
  where
  "copyItems put f b [] out i = ret ()"
| "copyItems put f b (x # xs) out i =
     do { y \<leftarrow> f x; storeCell b (put (out[i := y])); copyItems put f b xs (out[i := y]) (Suc i) }"

definition copySlice ::
  "('c \<Rightarrow> 'e list option) \<Rightarrow> ('e list \<Rightarrow> 'c) \<Rightarrow> 'e \<Rightarrow> ('e \<Rightarrow> ('c memory, 'e) go) \<Rightarrow>
   sliceRef \<Rightarrow> ('c memory, sliceRef) go" where
  "copySlice get put zero f s =
     (case s of
        NilSlice \<Rightarrow> ret NilSlice
      | SliceAt a off n \<Rightarrow> do {
          b \<leftarrow> alloc (put (replicate n zero));
          c \<leftarrow> loadCell a;
          copyItems put f b (window off n (arrayOf get c)) (replicate n zero) 0;
          ret (SliceAt b 0 n)
        })"

text \<open>\<open>copy(*out, *in)\<close> into a new array, for elements without references.\<close>

definition copyElements ::
  "('c \<Rightarrow> 'e list option) \<Rightarrow> ('e list \<Rightarrow> 'c) \<Rightarrow> 'e \<Rightarrow> sliceRef \<Rightarrow> ('c memory, sliceRef) go" where
  "copyElements get put zero s =
     (case s of
        NilSlice \<Rightarrow> ret NilSlice
      | SliceAt a off n \<Rightarrow> do {
          b \<leftarrow> alloc (put (replicate n zero));
          c \<leftarrow> loadCell a;
          storeCell b (put (window off n (arrayOf get c)));
          ret (SliceAt b 0 n)
        })"

definition viewSlice ::
  "('c \<Rightarrow> 'e list option) \<Rightarrow> ('c memory \<Rightarrow> 'e \<Rightarrow> 'v option) \<Rightarrow> 'c memory \<Rightarrow> sliceRef \<Rightarrow> 'v list option option"
  where
  "viewSlice get f h s =
     (case s of
        NilSlice \<Rightarrow> Some None
      | SliceAt a off n \<Rightarrow>
          (case Option.bind (cells h a) get of
             None \<Rightarrow> None
           | Some xs \<Rightarrow>
               if length xs < off + n then None
               else map_option Some (those (map (f h) (window off n xs)))))"

definition reachSlice ::
  "('c \<Rightarrow> 'e list option) \<Rightarrow> ('c memory \<Rightarrow> 'e \<Rightarrow> nat set) \<Rightarrow> 'c memory \<Rightarrow> sliceRef \<Rightarrow> nat set" where
  "reachSlice get f h s =
     (case s of
        NilSlice \<Rightarrow> {}
      | SliceAt a off n \<Rightarrow>
          insert a (\<Union>x \<in> set (window off n (arrayOf get (cells h a))). f h x))"

lemma those_map_cong: "(\<And>x. x \<in> set xs \<Longrightarrow> f x = g x) \<Longrightarrow> those (map f xs) = those (map g xs)"
  by (metis map_cong)

lemma those_map_iff:
  "those (map f xs) = Some vs \<longleftrightarrow> list_all2 (\<lambda>x v. f x = Some v) xs vs"
  by (induction xs arbitrary: vs) (auto simp: list_all2_Cons1 split: option.splits)

lemma list_all2_viewed:
  "list_all2 (\<lambda>x v. f x = Some v) xs vs \<Longrightarrow> z \<in> set xs \<Longrightarrow> \<exists>w. f z = Some w"
  by (induction rule: list_all2_induct) auto

lemma length_window: "off + n \<le> length xs \<Longrightarrow> length (window off n xs) = n"
  by (simp add: window_def)

lemma window_all [simp]: "window 0 (length xs) xs = xs"
  by (simp add: window_def)

locale slice_copier = elements: deep_copier copy view reach
  for copy :: "'e \<Rightarrow> ('c memory, 'e) go" and view :: "'c memory \<Rightarrow> 'e \<Rightarrow> 'v option" and reach +
  fixes get :: "'c \<Rightarrow> 'e list option" and put :: "'e list \<Rightarrow> 'c" and zero :: 'e
  assumes get_put: "get (put xs) = Some xs"
begin

lemma copy_items:
  assumes "memoryOk h" and "b < nextFree h" and "cells h b = Some (put out)"
    and "length out = i + length xs" and "list_all2 (\<lambda>x v. view h x = Some v) xs vs"
    and "\<And>x. x \<in> set xs \<Longrightarrow> b \<notin> reach h x"
    and "run_state (copyItems put copy b xs out i) h = (u, h')"
  shows "\<exists>ys. grows {b} h h' \<and> cells h' b = Some (put (take i out @ ys)) \<and>
              list_all2 (\<lambda>y v. view h' y = Some v) ys vs \<and>
              (\<Union>y \<in> set ys. reach h' y) \<subseteq> {nextFree h..<nextFree h'}"
  using assms
proof (induction xs arbitrary: out i h vs)
  case Nil
  then show ?case by (simp add: run_simps)
next
  case (Cons x xs)
  obtain v ws where [simp]: "vs = v # ws" and v: "view h x = Some v"
    and ws: "list_all2 (\<lambda>x v. view h x = Some v) xs ws"
    using Cons.prems(5) by (auto simp: list_all2_Cons1)
  obtain y h1 where r: "run_state (copy x) h = (y, h1)" by fastforce
  define out2 where "out2 = out[i := y]"
  define h2 where "h2 = h1\<lparr>cells := (cells h1)(b \<mapsto> put out2)\<rparr>"
  have run: "run_state (copyItems put copy b xs out2 (Suc i)) h2 = (u, h')"
    using Cons.prems(7) r by (simp add: run_simps out2_def h2_def)
  note s = elements.copy_sound [OF Cons.prems(1) v r]
  have g2: "grows {b} h1 h2"
    using s Cons.prems(2) unfolding h2_def by (intro grows_store) (auto simp: grows_def)
  have g: "grows {b} h h2"
    using s g2 by (meson grows_trans grows_mono empty_subsetI)
  have later: "view h2 z = Some w \<and> reach h2 z = reach h z"
    if "z \<in> set xs" "view h z = Some w" for z w
    using elements.view_grows [OF Cons.prems(1) that(2) g] Cons.prems(6) [of z] that(1) by auto
  have ws2: "list_all2 (\<lambda>x v. view h2 x = Some v) xs ws"
    using ws later by (auto intro: list.rel_mono_strong)
  have away: "b \<notin> reach h2 z" if z: "z \<in> set xs" for z
  proof -
    obtain w where "view h z = Some w"
      using list_all2_viewed [OF ws z] by blast
    then show ?thesis using later [OF z] Cons.prems(6) [of z] z by simp
  qed
  have by1: "b \<notin> reach h1 y" using s Cons.prems(2) by auto
  have y2: "view h2 y = Some v" "reach h2 y = reach h1 y"
    using elements.view_grows [of h1 y v "{b}" h2] s g2 by1 by (auto dest: grows_ok)
  have len: "length out2 = Suc i + length xs" "take (Suc i) out2 = take i out @ [y]"
    using Cons.prems(4) by (auto simp: out2_def take_Suc_conv_app_nth)
  obtain ys where ys: "grows {b} h2 h'" "cells h' b = Some (put (take (Suc i) out2 @ ys))"
    "list_all2 (\<lambda>y v. view h' y = Some v) ys ws"
    "(\<Union>y \<in> set ys. reach h' y) \<subseteq> {nextFree h2..<nextFree h'}"
    using Cons.IH [OF grows_ok [OF g] _ _ len(1) ws2 away run] Cons.prems(2) g
    by (auto simp: h2_def grows_def)
  have y3: "view h' y = Some v" "reach h' y = reach h1 y"
    using elements.view_grows [of h2 y v "{b}" h'] y2 ys(1) grows_ok [OF g] by1 by auto
  show ?case
    using ys y3 len(2) s grows_trans [OF g ys(1)] grows_next [OF g] grows_next [OF ys(1)]
      grows_next [OF g2]
    by (intro exI [of _ "y # ys"]) fastforce
qed

lemma view_slice_iff:
  "viewSlice get view h (SliceAt a off n) = Some w \<longleftrightarrow>
     (\<exists>c xs vs. cells h a = Some c \<and> get c = Some xs \<and> off + n \<le> length xs \<and>
        list_all2 (\<lambda>x v. view h x = Some v) (window off n xs) vs \<and> w = Some vs)"
  by (auto simp: viewSlice_def those_map_iff bind_eq_Some_conv split: option.splits if_splits)

lemma copy_slice_sound:
  assumes ok: "memoryOk h" and v: "viewSlice get view h s = Some w"
    and run: "run_state (copySlice get put zero copy s) h = (s', h')"
  shows "grows {} h h' \<and> viewSlice get view h' s' = Some w \<and>
         reachSlice get reach h' s' \<subseteq> {nextFree h..<nextFree h'}"
proof (cases s)
  case NilSlice
  then show ?thesis
    using ok v run by (auto simp: copySlice_def viewSlice_def reachSlice_def run_simps)
next
  case (SliceAt a off n)
  obtain c xs vs where c: "cells h a = Some c" "get c = Some xs" "off + n \<le> length xs"
    and vs: "list_all2 (\<lambda>x v. view h x = Some v) (window off n xs) vs" and w: "w = Some vs"
    using v by (auto simp: SliceAt view_slice_iff)
  define b where "b = nextFree h"
  define h1 where
    "h1 = h\<lparr>cells := (cells h)(b \<mapsto> put (replicate n zero)), nextFree := Suc b\<rparr>"
  have a: "a < b" using c(1) ok by (auto simp: memoryOk_def b_def not_less [symmetric])
  obtain h2 where
    r: "run_state (copyItems put copy b (window off n xs) (replicate n zero) 0) h1 = ((), h2)"
    by (cases "run_state (copyItems put copy b (window off n xs) (replicate n zero) 0) h1") auto
  have [simp]: "s' = SliceAt b 0 n" "h' = h2"
    using run r c a by (auto simp: SliceAt copySlice_def run_simps arrayOf_def h1_def b_def split: if_splits)
  have g1: "grows {} h h1" using grows_alloc [OF ok] by (simp add: h1_def b_def)
  have old: "view h1 x = Some y \<and> b \<notin> reach h1 x" if "view h x = Some y" for x y
    using elements.view_grows [OF ok that g1] elements.reach_allocated [OF ok that]
    by (auto simp: b_def)
  have vs1: "list_all2 (\<lambda>x v. view h1 x = Some v) (window off n xs) vs"
    using vs old by (auto intro: list.rel_mono_strong)
  have away: "b \<notin> reach h1 x" if "x \<in> set (window off n xs)" for x
    using list_all2_viewed [OF vs that] old by blast
  obtain ys where ys: "grows {b} h1 h2" "cells h2 b = Some (put ys)"
    "list_all2 (\<lambda>y v. view h2 y = Some v) ys vs"
    "(\<Union>y \<in> set ys. reach h2 y) \<subseteq> {nextFree h1..<nextFree h2}"
    using copy_items [OF grows_ok [OF g1] _ _ _ vs1 away r] c(3)
    by (auto simp: h1_def length_window)
  have n: "n = length ys"
    using ys(3) vs c(3) by (auto dest!: list_all2_lengthD simp: length_window)
  have "grows {b} h h2"
    using grows_trans [OF grows_mono [OF g1] ys(1)] by simp
  then have g2: "grows {} h h2"
    by (rule grows_forget) (simp add: b_def)
  have "viewSlice get view h2 (SliceAt b 0 n) = Some w"
    using ys(2,3) n w by (simp add: view_slice_iff get_put)
  moreover have "reachSlice get reach h2 (SliceAt b 0 n) = insert b (\<Union>y \<in> set ys. reach h2 y)"
    using ys(2) n by (simp add: reachSlice_def arrayOf_def get_put)
  moreover have "b < nextFree h2" "nextFree h1 = Suc b" "b = nextFree h"
    using grows_next [OF ys(1)] by (simp_all add: h1_def b_def)
  ultimately show ?thesis
    using g2 ys(4) by auto
qed

end

sublocale slice_copier \<subseteq> slice:
  deep_copier "copySlice get put zero copy" "viewSlice get view" "reachSlice get reach"
proof unfold_locales
  show "viewSlice get view h' m = viewSlice get view h m"
    if same: "\<And>a. a \<in> reachSlice get reach h m \<Longrightarrow> cells h' a = cells h a" for h m h'
  proof (cases m)
    case (SliceAt a off n)
    have c: "cells h' a = cells h a"
      using same by (simp add: SliceAt reachSlice_def)
    have "view h' x = view h x" if "x \<in> set (window off n (arrayOf get (cells h a)))" for x
      using same that by (intro elements.view_frame) (auto simp: SliceAt reachSlice_def)
    then show ?thesis
      using c by (auto simp: SliceAt viewSlice_def arrayOf_def intro!: arg_cong [where f = "map_option Some"]
          those_map_cong split: option.splits bind_splits)
  qed (simp add: viewSlice_def)
  show "reachSlice get reach h' m = reachSlice get reach h m"
    if same: "\<And>a. a \<in> reachSlice get reach h m \<Longrightarrow> cells h' a = cells h a" for h m h'
  proof (cases m)
    case (SliceAt a off n)
    have c: "cells h' a = cells h a"
      using same by (simp add: SliceAt reachSlice_def)
    have "reach h' x = reach h x" if "x \<in> set (window off n (arrayOf get (cells h a)))" for x
      using same that by (intro elements.reach_frame) (auto simp: SliceAt reachSlice_def)
    then show ?thesis
      using c by (simp add: SliceAt reachSlice_def)
  qed (simp add: reachSlice_def)
  show "reachSlice get reach h m \<subseteq> {..<nextFree h}"
    if ok: "memoryOk h" and v: "viewSlice get view h m = Some w" for h m w
  proof (cases m)
    case (SliceAt a off n)
    obtain c xs vs where c: "cells h a = Some c" "get c = Some xs"
      and vs: "list_all2 (\<lambda>x v. view h x = Some v) (window off n xs) vs"
      using v by (auto simp: SliceAt view_slice_iff)
    have "a < nextFree h" using ok c(1) by (auto simp: memoryOk_def not_less [symmetric])
    moreover have "reach h x \<subseteq> {..<nextFree h}" if "x \<in> set (window off n xs)" for x
      using list_all2_viewed [OF vs that] elements.reach_allocated [OF ok] by blast
    ultimately show ?thesis using c by (auto simp: SliceAt reachSlice_def arrayOf_def)
  qed (simp add: reachSlice_def)
qed (rule copy_slice_sound)

context slice_copier
begin

lemmas is_deep_copier = slice.deep_copier_axioms

end

lemma copier_of_slice [copier_intros]:
  assumes "deep_copier f v r" and "\<And>xs. get (put xs) = Some xs"
  shows "deep_copier (copySlice get put zero f) (viewSlice get v) (reachSlice get r)"
  by (intro slice_copier.is_deep_copier slice_copier.intro slice_copier_axioms.intro assms)

text \<open>\<open>copy\<close> leaves the memory as the loop over plain elements does.\<close>

lemma copyItems_plain:
  "length out = i + length xs \<Longrightarrow> cells h b = Some (put out) \<Longrightarrow>
   run_state (copyItems put ret b xs out i) h =
     ((), h\<lparr>cells := (cells h)(b \<mapsto> put (take i out @ xs))\<rparr>)"
proof (induction xs arbitrary: out i h)
  case (Cons x xs)
  then have "take (Suc i) (out[i := x]) = take i out @ [x]"
    by (auto simp: take_Suc_conv_app_nth)
  moreover have "h\<lparr>cells := f\<rparr>\<lparr>cells := (cells (h\<lparr>cells := f\<rparr>))(b \<mapsto> c)\<rparr> =
    h\<lparr>cells := f(b \<mapsto> c)\<rparr>" for f c
    by simp
  ultimately show ?case
    using Cons.IH [of "out[i := x]" "Suc i" "h\<lparr>cells := (cells h)(b \<mapsto> put (out[i := x]))\<rparr>"] Cons.prems(1)
    by (simp add: run_simps fun_upd_same del: fun_upd_apply)
qed (auto simp: run_simps fun_upd_idem)

lemma copyElements_eq:
  assumes "viewSlice get (\<lambda>h m. Some m) h s = Some w" and "memoryOk h"
  shows "run_state (copyElements get put zero s) h = run_state (copySlice get put zero ret s) h"
proof (cases s)
  case (SliceAt a off n)
  obtain c xs where c: "cells h a = Some c" "get c = Some xs" "off + n \<le> length xs"
    using assms(1) by (auto simp: SliceAt viewSlice_def bind_eq_Some_conv split: option.splits if_splits)
  moreover have "a \<noteq> nextFree h"
    using assms(2) c(1) by (auto simp: memoryOk_def)
  ultimately show ?thesis
    by (simp add: SliceAt copyElements_def copySlice_def run_simps arrayOf_def copyItems_plain length_window)
qed (simp add: copyElements_def copySlice_def)

lemma elements_copier [copier_intros]:
  assumes "\<And>xs. get (put xs) = Some xs"
  shows "deep_copier (copyElements get put zero) (viewSlice get (\<lambda>h m. Some m))
                     (reachSlice get (\<lambda>h m. {}))"
proof -
  have d: "deep_copier (copySlice get put zero ret) (viewSlice get (\<lambda>h m. Some m))
             (reachSlice get (\<lambda>h m. {}))"
    by (intro copier_intros assms)
  show ?thesis
  proof
    show "grows {} h h' \<and> viewSlice get (\<lambda>h m. Some m) h' m' = Some v \<and>
          reachSlice get (\<lambda>h m. {}) h' m' \<subseteq> {nextFree h..<nextFree h'}"
      if "memoryOk h" "viewSlice get (\<lambda>h m. Some m) h m = Some v"
        "run_state (copyElements get put zero m) h = (m', h')" for h m v m' h'
      using deep_copier.copy_sound [OF d that(1,2)] that(3) copyElements_eq [OF that(2,1)] by metis
  qed (fact deep_copier.view_frame [OF d] deep_copier.reach_frame [OF d] deep_copier.reach_allocated [OF d])+
qed

section \<open>Maps\<close>

type_synonym tableRef = "nat option"

definition tableOf :: "('c \<Rightarrow> ('k \<rightharpoonup> 'e) option) \<Rightarrow> 'c option \<Rightarrow> 'k \<rightharpoonup> 'e" where
  "tableOf get c = (case c of None \<Rightarrow> Map.empty | Some x \<Rightarrow> (case get x of None \<Rightarrow> Map.empty | Some t \<Rightarrow> t))"

text \<open>\<open>make\<close>, then one assignment per key of the old map, for plain keys and values.\<close>

definition copyTable ::
  "('c \<Rightarrow> ('k \<rightharpoonup> 'e) option) \<Rightarrow> (('k \<rightharpoonup> 'e) \<Rightarrow> 'c) \<Rightarrow> tableRef \<Rightarrow> ('c memory, tableRef) go" where
  "copyTable get put r =
     (case r of
        None \<Rightarrow> ret None
      | Some a \<Rightarrow> do {
          b \<leftarrow> alloc (put Map.empty);
          c \<leftarrow> loadCell a;
          storeCell b (put (Map.empty ++ tableOf get c));
          ret (Some b)
        })"

definition viewTable ::
  "('c \<Rightarrow> ('k \<rightharpoonup> 'e) option) \<Rightarrow> 'c memory \<Rightarrow> tableRef \<Rightarrow> ('k \<rightharpoonup> 'e) option option" where
  "viewTable get h r =
     (case r of None \<Rightarrow> Some None | Some a \<Rightarrow> map_option Some (Option.bind (cells h a) get))"

definition reachTable :: "'c memory \<Rightarrow> tableRef \<Rightarrow> nat set" where
  "reachTable h r = set_option r"

lemma viewed_allocated: "memoryOk h \<Longrightarrow> cells h a = Some c \<Longrightarrow> a < nextFree h"
  by (auto simp: memoryOk_def not_less [symmetric])

lemma table_copier [copier_intros]:
  assumes get_put: "\<And>t. get (put t) = Some t"
  shows "deep_copier (copyTable get put) (viewTable get) reachTable"
proof
  show "grows {} h h' \<and> viewTable get h' m' = Some v \<and> reachTable h' m' \<subseteq> {nextFree h..<nextFree h'}"
    if ok: "memoryOk h" and v: "viewTable get h m = Some v"
      and run: "run_state (copyTable get put m) h = (m', h')" for h m v m' h'
  proof (cases m)
    case (Some a)
    obtain c t where c: "cells h a = Some c" "get c = Some t" "v = Some t"
      using v by (auto simp: Some viewTable_def bind_eq_Some_conv)
    have [simp]: "a \<noteq> nextFree h" using viewed_allocated [OF ok c(1)] by simp
    show ?thesis
      using run c ok
      by (auto simp: Some copyTable_def viewTable_def reachTable_def run_simps tableOf_def get_put
          grows_def memoryOk_def)
  qed (use ok v run in \<open>auto simp: copyTable_def viewTable_def reachTable_def run_simps\<close>)
  show "reachTable h m \<subseteq> {..<nextFree h}"
    if "memoryOk h" "viewTable get h m = Some v" for h m v
    using that by (auto simp: viewTable_def reachTable_def bind_eq_Some_conv viewed_allocated)
qed (auto simp: viewTable_def reachTable_def split: option.splits)

section \<open>Pointers to structs\<close>

type_synonym pointer = "nat option"

definition structAt :: "('c \<Rightarrow> 'm option) \<Rightarrow> 'm \<Rightarrow> 'c option \<Rightarrow> 'm" where
  "structAt get zero c = (case c of None \<Rightarrow> zero | Some x \<Rightarrow> (case get x of None \<Rightarrow> zero | Some m \<Rightarrow> m))"

text \<open>The shape of every generated \<open>DeepCopy\<close>: nil for nil, else \<open>new\<close> and
  \<open>in.DeepCopyInto(out)\<close>.\<close>

definition copyPointer ::
  "('c \<Rightarrow> 'm option) \<Rightarrow> ('m \<Rightarrow> 'c) \<Rightarrow> 'm \<Rightarrow> ('m \<Rightarrow> ('c memory, 'm) go) \<Rightarrow>
   pointer \<Rightarrow> ('c memory, pointer) go" where
  "copyPointer get put zero f p =
     (case p of
        None \<Rightarrow> ret None
      | Some a \<Rightarrow> do {
          b \<leftarrow> alloc (put zero);
          c \<leftarrow> loadCell a;
          m \<leftarrow> f (structAt get zero c);
          storeCell b (put m);
          ret (Some b)
        })"

definition viewPointer ::
  "('c \<Rightarrow> 'm option) \<Rightarrow> ('c memory \<Rightarrow> 'm \<Rightarrow> 'v option) \<Rightarrow> 'c memory \<Rightarrow> pointer \<Rightarrow> 'v option option"
  where
  "viewPointer get f h p =
     (case p of
        None \<Rightarrow> Some None
      | Some a \<Rightarrow> map_option Some (Option.bind (Option.bind (cells h a) get) (f h)))"

definition reachPointer ::
  "('c \<Rightarrow> 'm option) \<Rightarrow> 'm \<Rightarrow> ('c memory \<Rightarrow> 'm \<Rightarrow> nat set) \<Rightarrow> 'c memory \<Rightarrow> pointer \<Rightarrow> nat set" where
  "reachPointer get zero f h p =
     (case p of None \<Rightarrow> {} | Some a \<Rightarrow> insert a (f h (structAt get zero (cells h a))))"

lemma pointer_copier [copier_intros]:
  assumes inner: "deep_copier f v r" and get_put: "\<And>m. get (put m) = Some m"
  shows "deep_copier (copyPointer get put zero f) (viewPointer get v) (reachPointer get zero r)"
proof
  show "grows {} h h' \<and> viewPointer get v h' p' = Some w \<and>
        reachPointer get zero r h' p' \<subseteq> {nextFree h..<nextFree h'}"
    if ok: "memoryOk h" and w: "viewPointer get v h p = Some w"
      and run: "run_state (copyPointer get put zero f p) h = (p', h')" for h p w p' h'
  proof (cases p)
    case (Some a)
    obtain c m u where c: "cells h a = Some c" "get c = Some m" and u: "v h m = Some u" "w = Some u"
      using w by (auto simp: Some viewPointer_def bind_eq_Some_conv)
    define b where "b = nextFree h"
    define h1 where "h1 = h\<lparr>cells := (cells h)(b \<mapsto> put zero), nextFree := Suc b\<rparr>"
    obtain m2 h2 where r2: "run_state (f m) h1 = (m2, h2)" by fastforce
    have "a \<noteq> b" using viewed_allocated [OF ok c(1)] by (simp add: b_def)
    then have res: "p' = Some b" "h' = h2\<lparr>cells := (cells h2)(b \<mapsto> put m2)\<rparr>"
      using run r2 c by (auto simp: Some copyPointer_def run_simps structAt_def h1_def b_def)
    have g1: "grows {} h h1" using grows_alloc [OF ok] by (simp add: h1_def b_def)
    have u1: "v h1 m = Some u" using deep_copier.view_grows [OF inner ok u(1) g1] by simp
    note s = deep_copier.copy_sound [OF inner grows_ok [OF g1] u1 r2]
    have b2: "b < nextFree h1" "b < nextFree h2" "b \<notin> r h2 m2"
      using s by (auto simp: h1_def grows_def)
    have g2: "grows {b} h2 h'" using s b2 unfolding res by (intro grows_store) (auto dest: grows_ok)
    have m2: "v h' m2 = Some u" "r h' m2 = r h2 m2"
      using deep_copier.view_grows [OF inner _ _ g2, of m2 u] s b2 by (auto dest: grows_ok)
    have "grows {b} h h'"
      using grows_trans [OF grows_mono [OF grows_trans [OF g1]] g2] s by blast
    then have "grows {} h h'" by (rule grows_forget) (simp add: b_def)
    moreover have "r h2 m2 \<subseteq> {b..<nextFree h'}" "b < nextFree h'"
      using s b2 grows_next [OF g2] by (auto simp: h1_def)
    ultimately show ?thesis
      using m2 u(2) get_put
      by (auto simp: res(1) viewPointer_def reachPointer_def structAt_def res(2) b_def)
  qed (use ok w run in \<open>auto simp: copyPointer_def viewPointer_def reachPointer_def run_simps\<close>)
  show "reachPointer get zero r h p \<subseteq> {..<nextFree h}"
    if ok: "memoryOk h" and w: "viewPointer get v h p = Some w" for h p w
  proof (cases p)
    case (Some a)
    obtain c m u where c: "cells h a = Some c" "get c = Some m" and u: "v h m = Some u"
      using w by (auto simp: Some viewPointer_def bind_eq_Some_conv)
    show ?thesis
      using deep_copier.reach_allocated [OF inner ok u] viewed_allocated [OF ok c(1)] c
      by (simp add: Some reachPointer_def structAt_def)
  qed (simp add: reachPointer_def)
  show "viewPointer get v h' p = viewPointer get v h p"
    and "reachPointer get zero r h' p = reachPointer get zero r h p"
    if same: "\<And>a. a \<in> reachPointer get zero r h p \<Longrightarrow> cells h' a = cells h a" for h p h'
  proof -
    have c: "cells h' a = cells h a" if "p = Some a" for a
      using same that by (simp add: reachPointer_def)
    define m where "m = structAt get zero (case p of None \<Rightarrow> None | Some a \<Rightarrow> cells h a)"
    have agree: "cells h' x = cells h x" if "p = Some a" "x \<in> r h m" for a x
      using same that by (simp add: reachPointer_def m_def)
    have m: "v h' m = v h m" "r h' m = r h m" if "p = Some a" for a
      using deep_copier.view_frame [OF inner agree] deep_copier.reach_frame [OF inner agree] that by auto
    show "viewPointer get v h' p = viewPointer get v h p"
    proof (cases p)
      case (Some a)
      have "v h' k = v h k" if "cells h a = Some y" "get y = Some k" for y k
        using m(1) [OF Some] that by (simp add: Some m_def structAt_def)
      then show ?thesis
        using c [OF Some] by (auto simp: Some viewPointer_def split: bind_splits)
    qed (simp add: viewPointer_def)
    show "reachPointer get zero r h' p = reachPointer get zero r h p"
      using c m(2) by (cases p) (simp_all add: reachPointer_def m_def)
  qed
qed

end
