(* ===== verification/Deep_Copy.thy ===== *)
theory Deep_Copy
  imports Go_Memory Api_Types
begin

text \<open>
  \<open>api/v1/zz_generated.deepcopy.go\<close>: the deep copies of the resource types, over memory.
  \<open>Api_Types\<close> has the same structs as values; here a field that is a slice, a map or a
  foreign struct with references is a type parameter of the record, so that one record serves
  for the struct in memory, with references, and for the value it stands for.

  The structs of other modules (object and list metadata, conditions, and the filter types of
  villip) are one type \<open>'f\<close>; their \<open>DeepCopyInto\<close> methods are the parameter
  \<open>foreignCopies\<close>, with the contract \<open>deep_copier\<close> of Kubernetes' generated code as the
  hypothesis.  \<open>DeepCopyInto\<close> is modelled as the function from \<open>*in\<close> to the final
  \<open>*out\<close>; what it allocates is its effect.
\<close>

section \<open>Structs in memory\<close>

record typeMeta =
  typeKind :: string
  typeApiVersion :: string

record 'labels rulesetMem =
  memMatchLabels :: 'labels

record ('ports, 'rulesets) proxySpecMem =
  memDebug :: bool
  memImage :: villipImage
  memPorts :: 'ports
  memRuleset :: 'rulesets
  memTarget :: villipProxyTarget
  memSize :: "32 word"

record 'conditions proxyStatusMem =
  memProxyConditions :: 'conditions

record ('strings, 'dump, 'replacements, 'action, 'tokens) rulesSpecMem =
  memContentTypes :: 'strings
  memDump :: 'dump
  memForce :: bool
  memInsecure :: bool
  memPort :: "64 word"
  memPrefix :: 'replacements
  memPriority :: "8 word"
  memReplace :: 'replacements
  memRequest :: 'action
  memResponse :: 'action
  memRestricted :: 'strings
  memStatus :: 'strings
  memToken :: 'tokens
  memType :: string

record 'conditions rulesStatusMem =
  memRulesConditions :: 'conditions
  memLastSum :: string

text \<open>VillipProxy and VillipRules differ in the types of their parts only, as do their lists.\<close>

record ('meta, 'spec, 'status) resourceMem =
  memKind :: typeMeta
  memMeta :: 'meta
  memSpec :: 'spec
  memResourceStatus :: 'status

record ('meta, 'items) listMem =
  memListKind :: typeMeta
  memListMeta :: 'meta
  memItems :: 'items

type_synonym rulesetStruct = "tableRef rulesetMem"
type_synonym proxySpecStruct = "(sliceRef, sliceRef) proxySpecMem"
type_synonym proxyStatusStruct = "sliceRef proxyStatusMem"
type_synonym 'f proxyStruct = "('f, proxySpecStruct, proxyStatusStruct) resourceMem"
type_synonym 'f rulesSpecStruct = "(sliceRef, 'f, sliceRef, 'f, sliceRef) rulesSpecMem"
type_synonym rulesStatusStruct = "sliceRef rulesStatusMem"
type_synonym 'f rulesStruct = "('f, 'f rulesSpecStruct, rulesStatusStruct) resourceMem"
type_synonym 'f listStruct = "('f, sliceRef) listMem"

datatype ('f, 'x) cell =
    PortArray "16 word list" | StringArray "string list" | TokenArray "ctokenAction list"
  | LabelTable stringMap | RulesetArray "rulesetStruct list"
  | ConditionArray "'f list" | ReplacementArray "'f list"
  | ProxyArray "'f proxyStruct list" | RulesArray "'f rulesStruct list"
  | ImageCell villipImage | TargetCell villipProxyTarget | RulesetCell rulesetStruct
  | ProxySpecCell proxySpecStruct | ProxyStatusCell proxyStatusStruct | ProxyCell "'f proxyStruct"
  | RulesSpecCell "'f rulesSpecStruct" | RulesStatusCell rulesStatusStruct | RulesCell "'f rulesStruct"
  | ProxyListCell "'f listStruct" | RulesListCell "'f listStruct"
  | ForeignCell 'x

fun portArray where "portArray (PortArray xs) = Some xs" | "portArray _ = None"
fun stringArray where "stringArray (StringArray xs) = Some xs" | "stringArray _ = None"
fun tokenArray where "tokenArray (TokenArray xs) = Some xs" | "tokenArray _ = None"
fun labelTable where "labelTable (LabelTable t) = Some t" | "labelTable _ = None"
fun rulesetArray where "rulesetArray (RulesetArray xs) = Some xs" | "rulesetArray _ = None"
fun conditionArray where "conditionArray (ConditionArray xs) = Some xs" | "conditionArray _ = None"
fun replacementArray where "replacementArray (ReplacementArray xs) = Some xs" | "replacementArray _ = None"
fun proxyArray where "proxyArray (ProxyArray xs) = Some xs" | "proxyArray _ = None"
fun rulesArray where "rulesArray (RulesArray xs) = Some xs" | "rulesArray _ = None"
fun imageCell where "imageCell (ImageCell m) = Some m" | "imageCell _ = None"
fun targetCell where "targetCell (TargetCell m) = Some m" | "targetCell _ = None"
fun rulesetCell where "rulesetCell (RulesetCell m) = Some m" | "rulesetCell _ = None"
fun proxySpecCell where "proxySpecCell (ProxySpecCell m) = Some m" | "proxySpecCell _ = None"
fun proxyStatusCell where "proxyStatusCell (ProxyStatusCell m) = Some m" | "proxyStatusCell _ = None"
fun proxyCell where "proxyCell (ProxyCell m) = Some m" | "proxyCell _ = None"
fun rulesSpecCell where "rulesSpecCell (RulesSpecCell m) = Some m" | "rulesSpecCell _ = None"
fun rulesStatusCell where "rulesStatusCell (RulesStatusCell m) = Some m" | "rulesStatusCell _ = None"
fun rulesCell where "rulesCell (RulesCell m) = Some m" | "rulesCell _ = None"
fun proxyListCell where "proxyListCell (ProxyListCell m) = Some m" | "proxyListCell _ = None"
fun rulesListCell where "rulesListCell (RulesListCell m) = Some m" | "rulesListCell _ = None"
fun foreignCell where "foreignCell (ForeignCell m) = Some m" | "foreignCell _ = None"

type_synonym ('f, 'x, 'a) mem = "(('f, 'x) cell memory, 'a) go"

text \<open>What other modules provide: the methods and the zero values of their structs.\<close>

record ('f, 'x) foreignCopies =
  copyObjectMeta :: "'f \<Rightarrow> ('f, 'x, 'f) mem"
  copyListMeta :: "'f \<Rightarrow> ('f, 'x, 'f) mem"
  copyCondition :: "'f \<Rightarrow> ('f, 'x, 'f) mem"
  copyDump :: "'f \<Rightarrow> ('f, 'x, 'f) mem"
  copyReplacement :: "'f \<Rightarrow> ('f, 'x, 'f) mem"
  copyAction :: "'f \<Rightarrow> ('f, 'x, 'f) mem"
  zeroObjectMeta :: 'f
  zeroListMeta :: 'f
  zeroCondition :: 'f
  zeroDump :: 'f
  zeroReplacement :: 'f
  zeroAction :: 'f

section \<open>Zero values\<close>

definition zeroImage :: villipImage where
  "zeroImage = \<lparr>imageName = '''', imageTag = ''''\<rparr>"

definition zeroTarget :: villipProxyTarget where
  "zeroTarget = \<lparr>targetNamespace = '''', targetName = '''', targetPort = 0, targetUri = ''''\<rparr>"

definition zeroToken :: ctokenAction where
  "zeroToken = \<lparr>tokenAction = '''', tokenHeader = '''', tokenValue = ''''\<rparr>"

definition zeroTypeMeta :: typeMeta where
  "zeroTypeMeta = \<lparr>typeKind = '''', typeApiVersion = ''''\<rparr>"

definition zeroRuleset :: rulesetStruct where
  "zeroRuleset = \<lparr>memMatchLabels = None\<rparr>"

definition zeroProxySpec :: proxySpecStruct where
  "zeroProxySpec =
     \<lparr>memDebug = False, memImage = zeroImage, memPorts = NilSlice, memRuleset = NilSlice,
      memTarget = zeroTarget, memSize = 0\<rparr>"

definition zeroProxyStatus :: proxyStatusStruct where
  "zeroProxyStatus = \<lparr>memProxyConditions = NilSlice\<rparr>"

definition zeroProxy :: "('f, 'x) foreignCopies \<Rightarrow> 'f proxyStruct" where
  "zeroProxy F =
     \<lparr>memKind = zeroTypeMeta, memMeta = zeroObjectMeta F, memSpec = zeroProxySpec,
      memResourceStatus = zeroProxyStatus\<rparr>"

definition zeroRulesSpec :: "('f, 'x) foreignCopies \<Rightarrow> 'f rulesSpecStruct" where
  "zeroRulesSpec F =
     \<lparr>memContentTypes = NilSlice, memDump = zeroDump F, memForce = False, memInsecure = False,
      memPort = 0, memPrefix = NilSlice, memPriority = 0, memReplace = NilSlice,
      memRequest = zeroAction F, memResponse = zeroAction F, memRestricted = NilSlice,
      memStatus = NilSlice, memToken = NilSlice, memType = ''''\<rparr>"

definition zeroRulesStatus :: rulesStatusStruct where
  "zeroRulesStatus = \<lparr>memRulesConditions = NilSlice, memLastSum = ''''\<rparr>"

definition zeroRules :: "('f, 'x) foreignCopies \<Rightarrow> 'f rulesStruct" where
  "zeroRules F =
     \<lparr>memKind = zeroTypeMeta, memMeta = zeroObjectMeta F, memSpec = zeroRulesSpec F,
      memResourceStatus = zeroRulesStatus\<rparr>"

definition zeroList :: "('f, 'x) foreignCopies \<Rightarrow> 'f listStruct" where
  "zeroList F =
     \<lparr>memListKind = zeroTypeMeta, memListMeta = zeroListMeta F, memItems = NilSlice\<rparr>"

section \<open>VillipImage, VillipProxyTarget, VillipProxyRuleset\<close>

definition villipImageDeepCopyInto :: "villipImage \<Rightarrow> ('f, 'x, villipImage) mem" where
  "villipImageDeepCopyInto i = ret i"

definition villipImageDeepCopy :: "pointer \<Rightarrow> ('f, 'x, pointer) mem" where
  "villipImageDeepCopy p = copyPointer imageCell ImageCell zeroImage villipImageDeepCopyInto p"

definition villipProxyTargetDeepCopyInto :: "villipProxyTarget \<Rightarrow> ('f, 'x, villipProxyTarget) mem" where
  "villipProxyTargetDeepCopyInto i = ret i"

definition villipProxyTargetDeepCopy :: "pointer \<Rightarrow> ('f, 'x, pointer) mem" where
  "villipProxyTargetDeepCopy p = copyPointer targetCell TargetCell zeroTarget villipProxyTargetDeepCopyInto p"

definition villipProxyRulesetDeepCopyInto :: "rulesetStruct \<Rightarrow> ('f, 'x, rulesetStruct) mem" where
  "villipProxyRulesetDeepCopyInto i = do {
     labels \<leftarrow> copyTable labelTable LabelTable (memMatchLabels i);
     ret (i\<lparr>memMatchLabels := labels\<rparr>)
   }"

definition villipProxyRulesetDeepCopy :: "pointer \<Rightarrow> ('f, 'x, pointer) mem" where
  "villipProxyRulesetDeepCopy p =
     copyPointer rulesetCell RulesetCell zeroRuleset villipProxyRulesetDeepCopyInto p"

section \<open>VillipProxy\<close>

definition villipProxySpecDeepCopyInto :: "proxySpecStruct \<Rightarrow> ('f, 'x, proxySpecStruct) mem" where
  "villipProxySpecDeepCopyInto i = do {
     ports \<leftarrow> copyElements portArray PortArray 0 (memPorts i);
     rulesets \<leftarrow> copySlice rulesetArray RulesetArray zeroRuleset villipProxyRulesetDeepCopyInto
                  (memRuleset i);
     ret (i\<lparr>memPorts := ports, memRuleset := rulesets\<rparr>)
   }"

definition villipProxySpecDeepCopy :: "pointer \<Rightarrow> ('f, 'x, pointer) mem" where
  "villipProxySpecDeepCopy p =
     copyPointer proxySpecCell ProxySpecCell zeroProxySpec villipProxySpecDeepCopyInto p"

definition villipProxyStatusDeepCopyInto ::
  "('f, 'x) foreignCopies \<Rightarrow> proxyStatusStruct \<Rightarrow> ('f, 'x, proxyStatusStruct) mem" where
  "villipProxyStatusDeepCopyInto F i = do {
     conditions \<leftarrow> copySlice conditionArray ConditionArray (zeroCondition F) (copyCondition F)
                    (memProxyConditions i);
     ret (i\<lparr>memProxyConditions := conditions\<rparr>)
   }"

definition villipProxyStatusDeepCopy :: "('f, 'x) foreignCopies \<Rightarrow> pointer \<Rightarrow> ('f, 'x, pointer) mem" where
  "villipProxyStatusDeepCopy F p =
     copyPointer proxyStatusCell ProxyStatusCell zeroProxyStatus (villipProxyStatusDeepCopyInto F) p"

definition villipProxyDeepCopyInto ::
  "('f, 'x) foreignCopies \<Rightarrow> 'f proxyStruct \<Rightarrow> ('f, 'x, 'f proxyStruct) mem" where
  "villipProxyDeepCopyInto F i = do {
     m \<leftarrow> copyObjectMeta F (memMeta i);
     spec \<leftarrow> villipProxySpecDeepCopyInto (memSpec i);
     status \<leftarrow> villipProxyStatusDeepCopyInto F (memResourceStatus i);
     ret (i\<lparr>memMeta := m, memSpec := spec, memResourceStatus := status\<rparr>)
   }"

definition villipProxyDeepCopy :: "('f, 'x) foreignCopies \<Rightarrow> pointer \<Rightarrow> ('f, 'x, pointer) mem" where
  "villipProxyDeepCopy F p =
     copyPointer proxyCell ProxyCell (zeroProxy F) (villipProxyDeepCopyInto F) p"

definition villipProxyListDeepCopyInto ::
  "('f, 'x) foreignCopies \<Rightarrow> 'f listStruct \<Rightarrow> ('f, 'x, 'f listStruct) mem" where
  "villipProxyListDeepCopyInto F i = do {
     m \<leftarrow> copyListMeta F (memListMeta i);
     items \<leftarrow> copySlice proxyArray ProxyArray (zeroProxy F) (villipProxyDeepCopyInto F) (memItems i);
     ret (i\<lparr>memListMeta := m, memItems := items\<rparr>)
   }"

definition villipProxyListDeepCopy :: "('f, 'x) foreignCopies \<Rightarrow> pointer \<Rightarrow> ('f, 'x, pointer) mem" where
  "villipProxyListDeepCopy F p =
     copyPointer proxyListCell ProxyListCell (zeroList F) (villipProxyListDeepCopyInto F) p"

section \<open>VillipRules\<close>

definition villipRulesSpecDeepCopyInto ::
  "('f, 'x) foreignCopies \<Rightarrow> 'f rulesSpecStruct \<Rightarrow> ('f, 'x, 'f rulesSpecStruct) mem" where
  "villipRulesSpecDeepCopyInto F i = do {
     contentTypes \<leftarrow> copyElements stringArray StringArray '''' (memContentTypes i);
     dump \<leftarrow> copyDump F (memDump i);
     prefix' \<leftarrow> copySlice replacementArray ReplacementArray (zeroReplacement F) (copyReplacement F)
                 (memPrefix i);
     replace \<leftarrow> copySlice replacementArray ReplacementArray (zeroReplacement F) (copyReplacement F)
                 (memReplace i);
     request \<leftarrow> copyAction F (memRequest i);
     response \<leftarrow> copyAction F (memResponse i);
     restricted \<leftarrow> copyElements stringArray StringArray '''' (memRestricted i);
     status \<leftarrow> copyElements stringArray StringArray '''' (memStatus i);
     token \<leftarrow> copyElements tokenArray TokenArray zeroToken (memToken i);
     ret (i\<lparr>memContentTypes := contentTypes, memDump := dump, memPrefix := prefix',
            memReplace := replace, memRequest := request, memResponse := response,
            memRestricted := restricted, memStatus := status, memToken := token\<rparr>)
   }"

definition villipRulesSpecDeepCopy :: "('f, 'x) foreignCopies \<Rightarrow> pointer \<Rightarrow> ('f, 'x, pointer) mem" where
  "villipRulesSpecDeepCopy F p =
     copyPointer rulesSpecCell RulesSpecCell (zeroRulesSpec F) (villipRulesSpecDeepCopyInto F) p"

definition villipRulesStatusDeepCopyInto ::
  "('f, 'x) foreignCopies \<Rightarrow> rulesStatusStruct \<Rightarrow> ('f, 'x, rulesStatusStruct) mem" where
  "villipRulesStatusDeepCopyInto F i = do {
     conditions \<leftarrow> copySlice conditionArray ConditionArray (zeroCondition F) (copyCondition F)
                    (memRulesConditions i);
     ret (i\<lparr>memRulesConditions := conditions\<rparr>)
   }"

definition villipRulesStatusDeepCopy :: "('f, 'x) foreignCopies \<Rightarrow> pointer \<Rightarrow> ('f, 'x, pointer) mem" where
  "villipRulesStatusDeepCopy F p =
     copyPointer rulesStatusCell RulesStatusCell zeroRulesStatus (villipRulesStatusDeepCopyInto F) p"

definition villipRulesDeepCopyInto ::
  "('f, 'x) foreignCopies \<Rightarrow> 'f rulesStruct \<Rightarrow> ('f, 'x, 'f rulesStruct) mem" where
  "villipRulesDeepCopyInto F i = do {
     m \<leftarrow> copyObjectMeta F (memMeta i);
     spec \<leftarrow> villipRulesSpecDeepCopyInto F (memSpec i);
     status \<leftarrow> villipRulesStatusDeepCopyInto F (memResourceStatus i);
     ret (i\<lparr>memMeta := m, memSpec := spec, memResourceStatus := status\<rparr>)
   }"

definition villipRulesDeepCopy :: "('f, 'x) foreignCopies \<Rightarrow> pointer \<Rightarrow> ('f, 'x, pointer) mem" where
  "villipRulesDeepCopy F p =
     copyPointer rulesCell RulesCell (zeroRules F) (villipRulesDeepCopyInto F) p"

definition villipRulesListDeepCopyInto ::
  "('f, 'x) foreignCopies \<Rightarrow> 'f listStruct \<Rightarrow> ('f, 'x, 'f listStruct) mem" where
  "villipRulesListDeepCopyInto F i = do {
     m \<leftarrow> copyListMeta F (memListMeta i);
     items \<leftarrow> copySlice rulesArray RulesArray (zeroRules F) (villipRulesDeepCopyInto F) (memItems i);
     ret (i\<lparr>memListMeta := m, memItems := items\<rparr>)
   }"

definition villipRulesListDeepCopy :: "('f, 'x) foreignCopies \<Rightarrow> pointer \<Rightarrow> ('f, 'x, pointer) mem" where
  "villipRulesListDeepCopy F p =
     copyPointer rulesListCell RulesListCell (zeroList F) (villipRulesListDeepCopyInto F) p"

section \<open>As runtime objects\<close>

text \<open>A non-nil \<open>runtime.Object\<close> has one of four dynamic types and holds a pointer, which may
  be nil.\<close>

datatype runtimeObject =
    ProxyObject pointer | ProxyListObject pointer | RulesObject pointer | RulesListObject pointer

definition villipProxyDeepCopyObject ::
  "('f, 'x) foreignCopies \<Rightarrow> pointer \<Rightarrow> ('f, 'x, runtimeObject option) mem" where
  "villipProxyDeepCopyObject F p = do {
     c \<leftarrow> villipProxyDeepCopy F p;
     ret (if c \<noteq> None then Some (ProxyObject c) else None)
   }"

definition villipProxyListDeepCopyObject ::
  "('f, 'x) foreignCopies \<Rightarrow> pointer \<Rightarrow> ('f, 'x, runtimeObject option) mem" where
  "villipProxyListDeepCopyObject F p = do {
     c \<leftarrow> villipProxyListDeepCopy F p;
     ret (if c \<noteq> None then Some (ProxyListObject c) else None)
   }"

definition villipRulesDeepCopyObject ::
  "('f, 'x) foreignCopies \<Rightarrow> pointer \<Rightarrow> ('f, 'x, runtimeObject option) mem" where
  "villipRulesDeepCopyObject F p = do {
     c \<leftarrow> villipRulesDeepCopy F p;
     ret (if c \<noteq> None then Some (RulesObject c) else None)
   }"

definition villipRulesListDeepCopyObject ::
  "('f, 'x) foreignCopies \<Rightarrow> pointer \<Rightarrow> ('f, 'x, runtimeObject option) mem" where
  "villipRulesListDeepCopyObject F p = do {
     c \<leftarrow> villipRulesListDeepCopy F p;
     ret (if c \<noteq> None then Some (RulesListObject c) else None)
   }"

text \<open>The call \<open>obj.DeepCopyObject()\<close> of the client and its cache.\<close>

primrec deepCopyObject ::
  "('f, 'x) foreignCopies \<Rightarrow> runtimeObject \<Rightarrow> ('f, 'x, runtimeObject option) mem" where
  "deepCopyObject F (ProxyObject p) = villipProxyDeepCopyObject F p"
| "deepCopyObject F (ProxyListObject p) = villipProxyListDeepCopyObject F p"
| "deepCopyObject F (RulesObject p) = villipRulesDeepCopyObject F p"
| "deepCopyObject F (RulesListObject p) = villipRulesListDeepCopyObject F p"

end
