(* ===== verification/Deep_Copy_Laws.thy ===== *)
theory Deep_Copy_Laws
  imports Deep_Copy
begin

text \<open>
  Every method of \<open>Deep_Copy\<close> satisfies the contract \<open>deep_copier\<close>: what each struct in
  memory stands for (\<open>view...\<close>), the cells it depends on (\<open>reach...\<close>), and an
  interpretation or, where foreign structs are involved, a lemma under the same contract for
  them.
\<close>

text \<open>\<open>v\<close> reads a foreign struct, \<open>r\<close> are the cells it depends on.\<close>

type_synonym ('f, 'x, 'm, 'v) reading = "('f, 'x) cell memory \<Rightarrow> 'm \<Rightarrow> 'v option"
type_synonym ('f, 'x, 'm) reaching = "('f, 'x) cell memory \<Rightarrow> 'm \<Rightarrow> nat set"

definition foreignOk ::
  "('f, 'x) foreignCopies \<Rightarrow> ('f, 'x, 'f, 'v) reading \<Rightarrow> ('f, 'x, 'f) reaching \<Rightarrow> bool" where
  "foreignOk F v r \<longleftrightarrow>
     deep_copier (copyObjectMeta F) v r \<and> deep_copier (copyListMeta F) v r \<and>
     deep_copier (copyCondition F) v r \<and> deep_copier (copyDump F) v r \<and>
     deep_copier (copyReplacement F) v r \<and> deep_copier (copyAction F) v r"

lemma foreignOkD:
  assumes "foreignOk F v r"
  shows "deep_copier (copyObjectMeta F) v r" "deep_copier (copyListMeta F) v r"
    "deep_copier (copyCondition F) v r" "deep_copier (copyDump F) v r"
    "deep_copier (copyReplacement F) v r" "deep_copier (copyAction F) v r"
  using assms by (simp_all add: foreignOk_def)

section \<open>Structs without foreign parts\<close>

definition viewRuleset :: "('f, 'x, rulesetStruct, stringMap option rulesetMem) reading" where
  "viewRuleset = viewStruct memMatchLabels (\<lambda>m t. \<lparr>memMatchLabels = t\<rparr>) (viewTable labelTable)"

definition reachRuleset :: "('f, 'x, rulesetStruct) reaching" where
  "reachRuleset = reachStruct memMatchLabels reachTable"

interpretation imageCopier: deep_copier villipImageDeepCopyInto "\<lambda>h m. Some m" "\<lambda>h m. {}"
  by (subst villipImageDeepCopyInto_def [abs_def], rule plain_copier)

interpretation targetCopier: deep_copier villipProxyTargetDeepCopyInto "\<lambda>h m. Some m" "\<lambda>h m. {}"
  by (subst villipProxyTargetDeepCopyInto_def [abs_def], rule plain_copier)

lemma rulesetDeepCopyInto_struct:
  "villipProxyRulesetDeepCopyInto =
     copyStruct memMatchLabels (\<lambda>m t. m\<lparr>memMatchLabels := t\<rparr>) (copyTable labelTable LabelTable)"
  by (simp add: fun_eq_iff villipProxyRulesetDeepCopyInto_def copyStruct_def)

interpretation rulesetFields: struct_copier "copyTable labelTable LabelTable" "viewTable labelTable"
  reachTable memMatchLabels "\<lambda>m t. m\<lparr>memMatchLabels := t\<rparr>" "\<lambda>m t. \<lparr>memMatchLabels = t\<rparr>"
  by (intro struct_copier.intro struct_copier_axioms.intro copier_intros) simp_all

interpretation rulesetCopier: deep_copier villipProxyRulesetDeepCopyInto viewRuleset reachRuleset
  unfolding rulesetDeepCopyInto_struct viewRuleset_def reachRuleset_def
  by (rule rulesetFields.is_deep_copier)

interpretation rulesetsCopier: slice_copier villipProxyRulesetDeepCopyInto viewRuleset reachRuleset
  rulesetArray RulesetArray zeroRuleset
  by unfold_locales simp

text \<open>What a VillipProxySpec stands for: nil and empty slices are told apart.\<close>

type_synonym proxySpecValue = "(16 word slice, stringMap option rulesetMem slice) proxySpecMem"

definition proxySpecParts :: "('p, 'r) proxySpecMem \<Rightarrow> 'p \<times> 'r" where
  "proxySpecParts m = (memPorts m, memRuleset m)"

definition withProxySpecParts :: "('p, 'r) proxySpecMem \<Rightarrow> 'p2 \<times> 'r2 \<Rightarrow> ('p2, 'r2) proxySpecMem" where
  "withProxySpecParts m p =
     \<lparr>memDebug = memDebug m, memImage = memImage m, memPorts = fst p, memRuleset = snd p,
      memTarget = memTarget m, memSize = memSize m\<rparr>"

definition viewProxySpec :: "('f, 'x, proxySpecStruct, proxySpecValue) reading" where
  "viewProxySpec = viewStruct proxySpecParts withProxySpecParts
     (viewPair (viewSlice portArray (\<lambda>h m. Some m)) (viewSlice rulesetArray viewRuleset))"

definition reachProxySpec :: "('f, 'x, proxySpecStruct) reaching" where
  "reachProxySpec = reachStruct proxySpecParts
     (reachPair (reachSlice portArray (\<lambda>h m. {})) (reachSlice rulesetArray reachRuleset))"

lemma withProxySpecParts_same:
  "withProxySpecParts m (p, r) = m\<lparr>memPorts := p, memRuleset := r\<rparr>"
  by (cases m) (simp add: withProxySpecParts_def)

lemma proxySpecDeepCopyInto_struct:
  "villipProxySpecDeepCopyInto =
     copyStruct proxySpecParts withProxySpecParts
       (copyPair (copyElements portArray PortArray 0)
                 (copySlice rulesetArray RulesetArray zeroRuleset villipProxyRulesetDeepCopyInto))"
  by (simp add: fun_eq_iff villipProxySpecDeepCopyInto_def copyStruct_def copyPair_def
      proxySpecParts_def withProxySpecParts_same)

interpretation proxySpecFields: pair_copier
  "copyElements portArray PortArray 0" "viewSlice portArray (\<lambda>h m. Some m)"
  "reachSlice portArray (\<lambda>h m. {})"
  "copySlice rulesetArray RulesetArray zeroRuleset villipProxyRulesetDeepCopyInto"
  "viewSlice rulesetArray viewRuleset" "reachSlice rulesetArray reachRuleset"
  by (intro pair_copier.intro elements_copier rulesetsCopier.is_deep_copier) simp

interpretation proxySpecCopier: deep_copier villipProxySpecDeepCopyInto viewProxySpec reachProxySpec
  unfolding proxySpecDeepCopyInto_struct viewProxySpec_def reachProxySpec_def
  by (intro copier_of_struct proxySpecFields.is_deep_copier)
    (simp_all add: proxySpecParts_def withProxySpecParts_def)

section \<open>The status structs\<close>

definition viewProxyStatus ::
  "('f, 'x, 'f, 'v) reading \<Rightarrow> ('f, 'x, proxyStatusStruct, 'v slice proxyStatusMem) reading" where
  "viewProxyStatus v = viewStruct memProxyConditions (\<lambda>m c. \<lparr>memProxyConditions = c\<rparr>)
     (viewSlice conditionArray v)"

definition reachProxyStatus ::
  "('f, 'x, 'f) reaching \<Rightarrow> ('f, 'x, proxyStatusStruct) reaching" where
  "reachProxyStatus r = reachStruct memProxyConditions (reachSlice conditionArray r)"

lemma proxyStatusDeepCopyInto_struct:
  "villipProxyStatusDeepCopyInto F =
     copyStruct memProxyConditions (\<lambda>m c. m\<lparr>memProxyConditions := c\<rparr>)
       (copySlice conditionArray ConditionArray (zeroCondition F) (copyCondition F))"
  by (simp add: fun_eq_iff villipProxyStatusDeepCopyInto_def copyStruct_def)

lemma proxy_status_copier [copier_intros]:
  "foreignOk F v r \<Longrightarrow>
   deep_copier (villipProxyStatusDeepCopyInto F) (viewProxyStatus v) (reachProxyStatus r)"
  unfolding proxyStatusDeepCopyInto_struct viewProxyStatus_def reachProxyStatus_def
  by (intro copier_intros foreignOkD(3)) simp_all

definition viewRulesStatus ::
  "('f, 'x, 'f, 'v) reading \<Rightarrow> ('f, 'x, rulesStatusStruct, 'v slice rulesStatusMem) reading" where
  "viewRulesStatus v =
     viewStruct memRulesConditions (\<lambda>m c. \<lparr>memRulesConditions = c, memLastSum = memLastSum m\<rparr>)
       (viewSlice conditionArray v)"

definition reachRulesStatus ::
  "('f, 'x, 'f) reaching \<Rightarrow> ('f, 'x, rulesStatusStruct) reaching" where
  "reachRulesStatus r = reachStruct memRulesConditions (reachSlice conditionArray r)"

lemma rulesStatusDeepCopyInto_struct:
  "villipRulesStatusDeepCopyInto F =
     copyStruct memRulesConditions (\<lambda>m c. m\<lparr>memRulesConditions := c\<rparr>)
       (copySlice conditionArray ConditionArray (zeroCondition F) (copyCondition F))"
  by (simp add: fun_eq_iff villipRulesStatusDeepCopyInto_def copyStruct_def)

lemma rules_status_copier [copier_intros]:
  "foreignOk F v r \<Longrightarrow>
   deep_copier (villipRulesStatusDeepCopyInto F) (viewRulesStatus v) (reachRulesStatus r)"
  unfolding rulesStatusDeepCopyInto_struct viewRulesStatus_def reachRulesStatus_def
  by (intro copier_intros foreignOkD(3)) simp_all

section \<open>The specification of rules\<close>

type_synonym 'v rulesSpecValue =
  "(string slice, 'v, 'v slice, 'v, ctokenAction slice) rulesSpecMem"

type_synonym ('s, 'd, 'r, 'a, 't) rulesSpecFields =
  "'s \<times> 'd \<times> 'r \<times> 'r \<times> 'a \<times> 'a \<times> 's \<times> 's \<times> 't"

definition rulesSpecParts ::
  "('s, 'd, 'r, 'a, 't) rulesSpecMem \<Rightarrow> ('s, 'd, 'r, 'a, 't) rulesSpecFields" where
  "rulesSpecParts m =
     (memContentTypes m, memDump m, memPrefix m, memReplace m, memRequest m, memResponse m,
      memRestricted m, memStatus m, memToken m)"

definition withRulesSpecParts ::
  "('s, 'd, 'r, 'a, 't) rulesSpecMem \<Rightarrow> ('s2, 'd2, 'r2, 'a2, 't2) rulesSpecFields \<Rightarrow>
   ('s2, 'd2, 'r2, 'a2, 't2) rulesSpecMem" where
  "withRulesSpecParts m ps =
     (case ps of (contentTypes, dump, prefix', replace, request, response, restricted, status, token) \<Rightarrow>
        \<lparr>memContentTypes = contentTypes, memDump = dump, memForce = memForce m,
         memInsecure = memInsecure m, memPort = memPort m, memPrefix = prefix',
         memPriority = memPriority m, memReplace = replace, memRequest = request,
         memResponse = response, memRestricted = restricted, memStatus = status,
         memToken = token, memType = memType m\<rparr>)"

lemma withRulesSpecParts_same:
  "withRulesSpecParts m (c, d, p, rp, rq, rs, x, s, t) =
     m\<lparr>memContentTypes := c, memDump := d, memPrefix := p, memReplace := rp, memRequest := rq,
       memResponse := rs, memRestricted := x, memStatus := s, memToken := t\<rparr>"
  by (cases m) (simp add: withRulesSpecParts_def)

definition viewRulesSpec ::
  "('f, 'x, 'f, 'v) reading \<Rightarrow> ('f, 'x, 'f rulesSpecStruct, 'v rulesSpecValue) reading" where
  "viewRulesSpec v = viewStruct rulesSpecParts withRulesSpecParts
     (viewPair (viewSlice stringArray (\<lambda>h m. Some m)) (viewPair v
       (viewPair (viewSlice replacementArray v) (viewPair (viewSlice replacementArray v)
         (viewPair v (viewPair v (viewPair (viewSlice stringArray (\<lambda>h m. Some m))
           (viewPair (viewSlice stringArray (\<lambda>h m. Some m))
             (viewSlice tokenArray (\<lambda>h m. Some m))))))))))"

definition reachRulesSpec ::
  "('f, 'x, 'f) reaching \<Rightarrow> ('f, 'x, 'f rulesSpecStruct) reaching" where
  "reachRulesSpec r = reachStruct rulesSpecParts
     (reachPair (reachSlice stringArray (\<lambda>h m. {})) (reachPair r
       (reachPair (reachSlice replacementArray r) (reachPair (reachSlice replacementArray r)
         (reachPair r (reachPair r (reachPair (reachSlice stringArray (\<lambda>h m. {}))
           (reachPair (reachSlice stringArray (\<lambda>h m. {}))
             (reachSlice tokenArray (\<lambda>h m. {}))))))))))"

lemma rulesSpecDeepCopyInto_struct:
  "villipRulesSpecDeepCopyInto F = copyStruct rulesSpecParts withRulesSpecParts
     (copyPair (copyElements stringArray StringArray '''') (copyPair (copyDump F)
       (copyPair (copySlice replacementArray ReplacementArray (zeroReplacement F) (copyReplacement F))
         (copyPair (copySlice replacementArray ReplacementArray (zeroReplacement F) (copyReplacement F))
           (copyPair (copyAction F) (copyPair (copyAction F)
             (copyPair (copyElements stringArray StringArray '''')
               (copyPair (copyElements stringArray StringArray '''')
                 (copyElements tokenArray TokenArray zeroToken)))))))))"
  by (simp add: fun_eq_iff villipRulesSpecDeepCopyInto_def copyStruct_def copyPair_def
      rulesSpecParts_def withRulesSpecParts_same)

lemma rules_spec_copier [copier_intros]:
  "foreignOk F v r \<Longrightarrow>
   deep_copier (villipRulesSpecDeepCopyInto F) (viewRulesSpec v) (reachRulesSpec r)"
  unfolding rulesSpecDeepCopyInto_struct viewRulesSpec_def reachRulesSpec_def
  by (intro copier_intros foreignOkD)
    (simp_all add: rulesSpecParts_def withRulesSpecParts_def split: prod.splits)

section \<open>Resources and lists\<close>

definition resourceParts :: "('m, 's, 't) resourceMem \<Rightarrow> 'm \<times> 's \<times> 't" where
  "resourceParts m = (memMeta m, memSpec m, memResourceStatus m)"

definition withResourceParts ::
  "('m, 's, 't) resourceMem \<Rightarrow> 'm2 \<times> 's2 \<times> 't2 \<Rightarrow> ('m2, 's2, 't2) resourceMem" where
  "withResourceParts m p =
     \<lparr>memKind = memKind m, memMeta = fst p, memSpec = fst (snd p), memResourceStatus = snd (snd p)\<rparr>"

lemma withResourceParts_same:
  "withResourceParts m (a, s, t) = m\<lparr>memMeta := a, memSpec := s, memResourceStatus := t\<rparr>"
  by (cases m) (simp add: withResourceParts_def)

definition listParts :: "('m, 'i) listMem \<Rightarrow> 'm \<times> 'i" where
  "listParts m = (memListMeta m, memItems m)"

definition withListParts :: "('m, 'i) listMem \<Rightarrow> 'm2 \<times> 'i2 \<Rightarrow> ('m2, 'i2) listMem" where
  "withListParts m p = \<lparr>memListKind = memListKind m, memListMeta = fst p, memItems = snd p\<rparr>"

lemma withListParts_same: "withListParts m (a, i) = m\<lparr>memListMeta := a, memItems := i\<rparr>"
  by (cases m) (simp add: withListParts_def)

type_synonym 'v proxyValue = "('v, proxySpecValue, 'v slice proxyStatusMem) resourceMem"
type_synonym 'v rulesValue = "('v, 'v rulesSpecValue, 'v slice rulesStatusMem) resourceMem"

definition viewProxy ::
  "('f, 'x, 'f, 'v) reading \<Rightarrow> ('f, 'x, 'f proxyStruct, 'v proxyValue) reading" where
  "viewProxy v = viewStruct resourceParts withResourceParts
     (viewPair v (viewPair viewProxySpec (viewProxyStatus v)))"

definition reachProxy :: "('f, 'x, 'f) reaching \<Rightarrow> ('f, 'x, 'f proxyStruct) reaching" where
  "reachProxy r = reachStruct resourceParts
     (reachPair r (reachPair reachProxySpec (reachProxyStatus r)))"

definition viewRules ::
  "('f, 'x, 'f, 'v) reading \<Rightarrow> ('f, 'x, 'f rulesStruct, 'v rulesValue) reading" where
  "viewRules v = viewStruct resourceParts withResourceParts
     (viewPair v (viewPair (viewRulesSpec v) (viewRulesStatus v)))"

definition reachRules :: "('f, 'x, 'f) reaching \<Rightarrow> ('f, 'x, 'f rulesStruct) reaching" where
  "reachRules r = reachStruct resourceParts
     (reachPair r (reachPair (reachRulesSpec r) (reachRulesStatus r)))"

lemma proxy_copier [copier_intros]:
  assumes "foreignOk F v r"
  shows "deep_copier (villipProxyDeepCopyInto F) (viewProxy v) (reachProxy r)"
proof -
  have eq: "villipProxyDeepCopyInto F = copyStruct resourceParts withResourceParts
      (copyPair (copyObjectMeta F) (copyPair villipProxySpecDeepCopyInto (villipProxyStatusDeepCopyInto F)))"
    by (simp add: fun_eq_iff villipProxyDeepCopyInto_def copyStruct_def copyPair_def
        resourceParts_def withResourceParts_same)
  show ?thesis
    unfolding eq viewProxy_def reachProxy_def
    by (intro copier_intros foreignOkD(1) [OF assms] assms proxySpecCopier.deep_copier_axioms)
      (simp_all add: resourceParts_def withResourceParts_def)
qed

lemma rules_copier [copier_intros]:
  assumes "foreignOk F v r"
  shows "deep_copier (villipRulesDeepCopyInto F) (viewRules v) (reachRules r)"
proof -
  have eq: "villipRulesDeepCopyInto F = copyStruct resourceParts withResourceParts
      (copyPair (copyObjectMeta F) (copyPair (villipRulesSpecDeepCopyInto F) (villipRulesStatusDeepCopyInto F)))"
    by (simp add: fun_eq_iff villipRulesDeepCopyInto_def copyStruct_def copyPair_def
        resourceParts_def withResourceParts_same)
  show ?thesis
    unfolding eq viewRules_def reachRules_def
    by (intro copier_intros foreignOkD(1) [OF assms] assms)
      (simp_all add: resourceParts_def withResourceParts_def)
qed

end
