(* ===== verification/Deep_Copy_Properties.thy ===== *)
theory Deep_Copy_Properties
  imports Deep_Copy_Laws
begin

text \<open>
  What \<open>DeepCopyObject\<close> promises to its callers, the cache and the client: the copy reads the
  same, shares no memory with the original, and neither sees what is later written through the
  other.  The example has conditions and metadata that hold references themselves.
\<close>

section \<open>Lists\<close>

definition viewProxyList ::
  "('f, 'x, 'f, 'v) reading \<Rightarrow> ('f, 'x, 'f listStruct, ('v, 'v proxyValue slice) listMem) reading"
  where
  "viewProxyList v = viewStruct listParts withListParts (viewPair v (viewSlice proxyArray (viewProxy v)))"

definition reachProxyList :: "('f, 'x, 'f) reaching \<Rightarrow> ('f, 'x, 'f listStruct) reaching" where
  "reachProxyList r = reachStruct listParts (reachPair r (reachSlice proxyArray (reachProxy r)))"

definition viewRulesList ::
  "('f, 'x, 'f, 'v) reading \<Rightarrow> ('f, 'x, 'f listStruct, ('v, 'v rulesValue slice) listMem) reading"
  where
  "viewRulesList v = viewStruct listParts withListParts (viewPair v (viewSlice rulesArray (viewRules v)))"

definition reachRulesList :: "('f, 'x, 'f) reaching \<Rightarrow> ('f, 'x, 'f listStruct) reaching" where
  "reachRulesList r = reachStruct listParts (reachPair r (reachSlice rulesArray (reachRules r)))"

lemma proxy_list_copier [copier_intros]:
  assumes "foreignOk F v r"
  shows "deep_copier (villipProxyListDeepCopyInto F) (viewProxyList v) (reachProxyList r)"
proof -
  have eq: "villipProxyListDeepCopyInto F = copyStruct listParts withListParts
      (copyPair (copyListMeta F) (copySlice proxyArray ProxyArray (zeroProxy F) (villipProxyDeepCopyInto F)))"
    by (simp add: fun_eq_iff villipProxyListDeepCopyInto_def copyStruct_def copyPair_def
        listParts_def withListParts_same)
  show ?thesis
    unfolding eq viewProxyList_def reachProxyList_def
    by (intro copier_intros foreignOkD(2) [OF assms] assms)
      (simp_all add: listParts_def withListParts_def)
qed

lemma rules_list_copier [copier_intros]:
  assumes "foreignOk F v r"
  shows "deep_copier (villipRulesListDeepCopyInto F) (viewRulesList v) (reachRulesList r)"
proof -
  have eq: "villipRulesListDeepCopyInto F = copyStruct listParts withListParts
      (copyPair (copyListMeta F) (copySlice rulesArray RulesArray (zeroRules F) (villipRulesDeepCopyInto F)))"
    by (simp add: fun_eq_iff villipRulesListDeepCopyInto_def copyStruct_def copyPair_def
        listParts_def withListParts_same)
  show ?thesis
    unfolding eq viewRulesList_def reachRulesList_def
    by (intro copier_intros foreignOkD(2) [OF assms] assms)
      (simp_all add: listParts_def withListParts_def)
qed

section \<open>Objects\<close>

datatype 'v objectValue =
    ProxyValue "'v proxyValue" | ProxyListValue "('v, 'v proxyValue slice) listMem"
  | RulesValue "'v rulesValue" | RulesListValue "('v, 'v rulesValue slice) listMem"

definition dereferenced :: "('a \<Rightarrow> 'b) \<Rightarrow> 'a option option \<Rightarrow> 'b option" where
  "dereferenced K x = Option.bind x (map_option K)"

lemma dereferenced_iff [simp]: "dereferenced K x = Some y \<longleftrightarrow> (\<exists>z. x = Some (Some z) \<and> y = K z)"
  by (auto simp: dereferenced_def bind_eq_Some_conv)

text \<open>The value behind an interface value; a typed nil pointer has none.\<close>

primrec viewObject ::
  "('f, 'x, 'f, 'v) reading \<Rightarrow> ('f, 'x) cell memory \<Rightarrow> runtimeObject \<Rightarrow> 'v objectValue option" where
  "viewObject v h (ProxyObject p) = dereferenced ProxyValue (viewPointer proxyCell (viewProxy v) h p)"
| "viewObject v h (ProxyListObject p) =
     dereferenced ProxyListValue (viewPointer proxyListCell (viewProxyList v) h p)"
| "viewObject v h (RulesObject p) = dereferenced RulesValue (viewPointer rulesCell (viewRules v) h p)"
| "viewObject v h (RulesListObject p) =
     dereferenced RulesListValue (viewPointer rulesListCell (viewRulesList v) h p)"

primrec reachObject ::
  "('f, 'x) foreignCopies \<Rightarrow> ('f, 'x, 'f) reaching \<Rightarrow> ('f, 'x) cell memory \<Rightarrow> runtimeObject \<Rightarrow> nat set"
  where
  "reachObject F r h (ProxyObject p) = reachPointer proxyCell (zeroProxy F) (reachProxy r) h p"
| "reachObject F r h (ProxyListObject p) = reachPointer proxyListCell (zeroList F) (reachProxyList r) h p"
| "reachObject F r h (RulesObject p) = reachPointer rulesCell (zeroRules F) (reachRules r) h p"
| "reachObject F r h (RulesListObject p) = reachPointer rulesListCell (zeroList F) (reachRulesList r) h p"

lemma object_copiers:
  assumes "foreignOk F v r"
  shows "deep_copier (villipProxyDeepCopy F) (viewPointer proxyCell (viewProxy v))
           (reachPointer proxyCell (zeroProxy F) (reachProxy r))"
    and "deep_copier (villipProxyListDeepCopy F) (viewPointer proxyListCell (viewProxyList v))
           (reachPointer proxyListCell (zeroList F) (reachProxyList r))"
    and "deep_copier (villipRulesDeepCopy F) (viewPointer rulesCell (viewRules v))
           (reachPointer rulesCell (zeroRules F) (reachRules r))"
    and "deep_copier (villipRulesListDeepCopy F) (viewPointer rulesListCell (viewRulesList v))
           (reachPointer rulesListCell (zeroList F) (reachRulesList r))"
  unfolding villipProxyDeepCopy_def [abs_def] villipProxyListDeepCopy_def [abs_def]
    villipRulesDeepCopy_def [abs_def] villipRulesListDeepCopy_def [abs_def]
  by (intro copier_intros assms; simp)+

text \<open>What an object inherits from the copier of its pointer, for any dynamic type \<open>K\<close>.\<close>

lemma wrapped_copy:
  assumes d: "deep_copier c (viewPointer get v) rch" and ok: "memoryOk h"
    and view: "\<And>h p. view h (K p) = dereferenced L (viewPointer get v h p)"
    and reach: "\<And>h p. reach h (K p) = rch h p"
    and seen: "view h (K p) = Some val"
    and run: "run_state (do { q \<leftarrow> c p; ret (if q \<noteq> None then Some (K q) else None) }) h = (res, h')"
  shows "\<exists>copy. res = Some copy \<and> view h' copy = Some val \<and> view h' (K p) = Some val \<and>
           reach h' (K p) \<inter> reach h' copy = {} \<and> (\<forall>a < nextFree h. cells h' a = cells h a) \<and>
           (\<forall>h2. (\<forall>a. a \<notin> reach h' copy \<longrightarrow> cells h2 a = cells h' a) \<longrightarrow> view h2 (K p) = Some val) \<and>
           (\<forall>h2. (\<forall>a. a \<notin> reach h' (K p) \<longrightarrow> cells h2 a = cells h' a) \<longrightarrow> view h2 copy = Some val)"
proof -
  obtain x where x: "viewPointer get v h p = Some (Some x)" "val = L x"
    using seen by (auto simp: view)
  obtain q h2 where q: "run_state (c p) h = (q, h2)" by fastforce
  note s = deep_copier.copy_sound [OF d ok x(1) q]
  have "q \<noteq> None"
  proof
    assume "q = None"
    then show False using s by (simp add: viewPointer_def)
  qed
  then have res: "res = Some (K q)" "h' = h2" using q run by (auto simp: run_simps)
  note i = deep_copier.copy_isolated [OF d ok x(1) q]
  have "view h3 (K p) = Some val" if "\<forall>a. a \<notin> reach h' (K q) \<longrightarrow> cells h3 a = cells h' a" for h3
    using i(1) [of h3] that by (auto simp: view reach res x(2))
  moreover have "view h3 (K q) = Some val" if "\<forall>a. a \<notin> reach h' (K p) \<longrightarrow> cells h3 a = cells h' a" for h3
    using i(2) [of h3] that by (auto simp: view reach res x(2))
  ultimately show ?thesis
    using s deep_copier.copy_disjoint [OF d ok x(1) q] x(2)
    by (simp add: res view reach grows_def)
qed

lemmas deepCopyObject_defs =
  villipProxyDeepCopyObject_def villipProxyListDeepCopyObject_def
  villipRulesDeepCopyObject_def villipRulesListDeepCopyObject_def

text \<open>A typed nil pointer becomes the nil interface, and nothing is allocated.\<close>

lemma deep_copy_of_nil:
  "run_state (deepCopyObject F (ProxyObject None)) h = (None, h)"
  "run_state (deepCopyObject F (RulesListObject None)) h = (None, h)"
  by (simp_all add: deepCopyObject_defs villipProxyDeepCopy_def villipRulesListDeepCopy_def
      copyPointer_def)

lemma object_copied:
  assumes F: "foreignOk F v r" and ok: "memoryOk h" and seen: "viewObject v h obj = Some val"
    and run: "run_state (deepCopyObject F obj) h = (res, h')"
  shows "\<exists>copy. res = Some copy \<and> viewObject v h' copy = Some val \<and> viewObject v h' obj = Some val \<and>
           reachObject F r h' obj \<inter> reachObject F r h' copy = {} \<and>
           (\<forall>a < nextFree h. cells h' a = cells h a) \<and>
           (\<forall>h2. (\<forall>a. a \<notin> reachObject F r h' copy \<longrightarrow> cells h2 a = cells h' a) \<longrightarrow>
                 viewObject v h2 obj = Some val) \<and>
           (\<forall>h2. (\<forall>a. a \<notin> reachObject F r h' obj \<longrightarrow> cells h2 a = cells h' a) \<longrightarrow>
                 viewObject v h2 copy = Some val)"
proof (cases obj)
  case (ProxyObject p)
  show ?thesis
    using seen run unfolding ProxyObject deepCopyObject.simps deepCopyObject_defs
    by (intro wrapped_copy [OF object_copiers(1) [OF F] ok]) simp_all
next
  case (ProxyListObject p)
  show ?thesis
    using seen run unfolding ProxyListObject deepCopyObject.simps deepCopyObject_defs
    by (intro wrapped_copy [OF object_copiers(2) [OF F] ok]) simp_all
next
  case (RulesObject p)
  show ?thesis
    using seen run unfolding RulesObject deepCopyObject.simps deepCopyObject_defs
    by (intro wrapped_copy [OF object_copiers(3) [OF F] ok]) simp_all
next
  case (RulesListObject p)
  show ?thesis
    using seen run unfolding RulesListObject deepCopyObject.simps deepCopyObject_defs
    by (intro wrapped_copy [OF object_copiers(4) [OF F] ok]) simp_all
qed

text \<open>C32: for every object, proxy or rules, single or list, DeepCopyObject returns an object of the
  same dynamic type and the same value, nil slices and maps included; it writes no existing
  cell, and the copy shares no cell with the original.\<close>

theorem deep_copy_object_exact:
  assumes F: "foreignOk F v r" and ok: "memoryOk h" and seen: "viewObject v h obj = Some val"
    and run: "run_state (deepCopyObject F obj) h = (res, h')"
  shows "\<exists>copy. res = Some copy \<and> viewObject v h' copy = Some val \<and> viewObject v h' obj = Some val \<and>
           reachObject F r h' obj \<inter> reachObject F r h' copy = {} \<and>
           (\<forall>a < nextFree h. cells h' a = cells h a)"
  using object_copied [OF assms] by blast

text \<open>C33: whatever is written later into the memory of the copy, the original keeps its value, and
  whatever is written into the memory of the original, the copy keeps its value.\<close>

theorem deep_copy_object_isolated:
  assumes F: "foreignOk F v r" and ok: "memoryOk h" and seen: "viewObject v h obj = Some val"
    and run: "run_state (deepCopyObject F obj) h = (Some copy, h')"
  shows "(\<forall>h2. (\<forall>a. a \<notin> reachObject F r h' copy \<longrightarrow> cells h2 a = cells h' a) \<longrightarrow>
                viewObject v h2 obj = Some val) \<and>
         (\<forall>h2. (\<forall>a. a \<notin> reachObject F r h' obj \<longrightarrow> cells h2 a = cells h' a) \<longrightarrow>
                viewObject v h2 copy = Some val)"
  using object_copied [OF assms] by auto

section \<open>An example\<close>

text \<open>Foreign structs that consist of one map, copied as Kubernetes' generated code does.\<close>

definition mapCopies :: "(tableRef, stringMap) foreignCopies" where
  "mapCopies = (let c = copyTable foreignCell ForeignCell in
     \<lparr>copyObjectMeta = c, copyListMeta = c, copyCondition = c, copyDump = c,
      copyReplacement = c, copyAction = c, zeroObjectMeta = None, zeroListMeta = None,
      zeroCondition = None, zeroDump = None, zeroReplacement = None, zeroAction = None\<rparr>)"

lemma mapCopies_ok: "foreignOk mapCopies (viewTable foreignCell) reachTable"
  by (auto simp: foreignOk_def mapCopies_def Let_def intro!: table_copier)

text \<open>A proxy whose two ports are a window of a longer array and whose rulesets share labels.\<close>

definition exampleProxyStruct :: "tableRef proxyStruct" where
  "exampleProxyStruct =
     \<lparr>memKind = \<lparr>typeKind = ''VillipProxy'', typeApiVersion = ''villip.carmier.fr/v1''\<rparr>,
      memMeta = Some 0,
      memSpec = zeroProxySpec\<lparr>memPorts := SliceAt 1 1 2, memRuleset := SliceAt 3 0 2\<rparr>,
      memResourceStatus = \<lparr>memProxyConditions = NilSlice\<rparr>\<rparr>"

definition exampleMemory :: "(tableRef, stringMap) cell memory" where
  "exampleMemory =
     \<lparr>cells = [0 \<mapsto> ForeignCell [''app'' \<mapsto> ''web''], 1 \<mapsto> PortArray [80, 443, 8080],
        2 \<mapsto> LabelTable [''villip'' \<mapsto> ''a''],
        3 \<mapsto> RulesetArray [\<lparr>memMatchLabels = Some 2\<rparr>, \<lparr>memMatchLabels = Some 2\<rparr>],
        4 \<mapsto> ProxyCell exampleProxyStruct],
      nextFree = 5\<rparr>"

definition exampleProxyValue :: "stringMap option proxyValue" where
  "exampleProxyValue =
     \<lparr>memKind = \<lparr>typeKind = ''VillipProxy'', typeApiVersion = ''villip.carmier.fr/v1''\<rparr>,
      memMeta = Some [''app'' \<mapsto> ''web''],
      memSpec =
        \<lparr>memDebug = False, memImage = zeroImage, memPorts = Some [443, 8080],
         memRuleset = Some [\<lparr>memMatchLabels = Some [''villip'' \<mapsto> ''a'']\<rparr>,
                            \<lparr>memMatchLabels = Some [''villip'' \<mapsto> ''a'']\<rparr>],
         memTarget = zeroTarget, memSize = 0\<rparr>,
      memResourceStatus = \<lparr>memProxyConditions = None\<rparr>\<rparr>"

lemma exampleMemory_ok: "memoryOk exampleMemory"
  by (auto simp: memoryOk_def exampleMemory_def)

lemma example_view:
  "viewObject (viewTable foreignCell) exampleMemory (ProxyObject (Some 4)) =
     Some (ProxyValue exampleProxyValue)"
proof -
  have "viewPointer proxyCell (viewProxy (viewTable foreignCell)) exampleMemory (Some 4) =
          Some (Some exampleProxyValue)"
    by (simp add: viewPointer_def exampleMemory_def exampleProxyStruct_def viewProxy_def viewStruct_def
        resourceParts_def withResourceParts_def viewPair_def viewTable_def viewProxySpec_def
        proxySpecParts_def withProxySpecParts_def zeroProxySpec_def viewSlice_def viewRuleset_def
        viewProxyStatus_def exampleProxyValue_def window_def)
  then show ?thesis by simp
qed

text \<open>The copy of the example, run to the end: it sits at the next free address.\<close>

lemma example_copy:
  "fst (run_state (deepCopyObject mapCopies (ProxyObject (Some 4))) exampleMemory) =
     Some (ProxyObject (Some 5))"
  by (simp add: deepCopyObject_defs villipProxyDeepCopy_def copyPointer_def run_simps
      exampleMemory_def split: prod.splits)

lemma deep_copy_object_exact_witness:
  "let (res, h') = run_state (deepCopyObject mapCopies (ProxyObject (Some 4))) exampleMemory
   in \<exists>copy. res = Some copy \<and> copy \<noteq> ProxyObject (Some 4) \<and>
        viewObject (viewTable foreignCell) h' copy = Some (ProxyValue exampleProxyValue)"
proof -
  obtain res h' where run:
    "run_state (deepCopyObject mapCopies (ProxyObject (Some 4))) exampleMemory = (res, h')"
    by fastforce
  have "res = Some (ProxyObject (Some 5))" using example_copy by (simp only: run fst_conv)
  then show ?thesis
    using deep_copy_object_exact [OF mapCopies_ok exampleMemory_ok example_view run]
    unfolding run by auto
qed

lemma deep_copy_object_isolated_witness:
  "let h' = snd (run_state (deepCopyObject mapCopies (ProxyObject (Some 4))) exampleMemory)
   in viewObject (viewTable foreignCell) (h'\<lparr>cells := (cells h')(5 := None)\<rparr>) (ProxyObject (Some 4)) =
        Some (ProxyValue exampleProxyValue)"
proof -
  obtain h' where run:
    "run_state (deepCopyObject mapCopies (ProxyObject (Some 4))) exampleMemory =
       (Some (ProxyObject (Some 5)), h')"
    using example_copy by (metis prod.collapse)
  have "5 \<in> reachObject mapCopies reachTable h' (ProxyObject (Some 5))"
    by (simp add: reachPointer_def)
  then show ?thesis
    using deep_copy_object_isolated [OF mapCopies_ok exampleMemory_ok example_view run]
    unfolding run by (auto simp: Let_def)
qed

end
