(* ===== verification/Careful_Client.thy ===== *)
theory Careful_Client
  imports Rolling_Client
begin

text \<open>
  How the reconcilers handle the Deployments and Services of others: every one they send was
  read first, or sent before, in the same pass, and differs from what was read in the fields
  the operator manages; new ones are sent only where none was read.  The locale
  \<open>careful_client\<close> is the contract: its invariant \<open>K S T\<close> may know the Deployments \<open>S\<close>
  and the Services \<open>T\<close> that were read so far, and the client promises to keep it for requests
  of this kind.  Then whole passes keep it; those over rules because such a client is in
  particular a \<open>rolling_client\<close>.  The instances are in \<open>Ownership\<close>,
  \<open>Shared_Store\<close>, \<open>Lagging_Store\<close> and \<open>Lost_Update\<close>.
\<close>

section \<open>The managed fields\<close>

text \<open>What is left of an object when the fields the operator writes, and the resource version, are
  blanked; lists as they are stored.\<close>

definition unmanagedContainers :: "container list \<Rightarrow> container list" where
  "unmanagedContainers cs =
     (case map (\<lambda>c. c\<lparr>containerPorts := jsonList (containerPorts c)\<rparr>) cs of
        [] \<Rightarrow> []
      | c # cs \<Rightarrow> c\<lparr>containerPorts := None, containerMounts := []\<rparr> # cs)"

definition unmanaged :: "deployment \<Rightarrow> deployment" where
  "unmanaged d =
     (let spec = deploymentSpec d; pod = templateSpec spec in
      \<lparr>deploymentMeta = (deploymentMeta d)\<lparr>metaAnnotations := Map.empty, metaResourceVersion := 0\<rparr>,
       deploymentSpec = spec
         \<lparr>deploymentReplicas := None,
          templateMeta := (templateMeta spec)\<lparr>metaAnnotations := Map.empty\<rparr>,
          templateSpec := pod\<lparr>podVolumes := [], podContainers := unmanagedContainers (podContainers pod)\<rparr>\<rparr>\<rparr>)"

definition unmanagedService :: "service \<Rightarrow> service" where
  "unmanagedService s =
     \<lparr>serviceMeta = (serviceMeta s)\<lparr>metaResourceVersion := 0\<rparr>,
      serviceSpec = (serviceSpec s)\<lparr>servicePorts := None\<rparr>\<rparr>"

text \<open>\<open>d\<close> is \<open>d0\<close> with edits of managed fields, at the version it was read.\<close>

definition editOf :: "deployment \<Rightarrow> deployment \<Rightarrow> bool" where
  "editOf d0 d \<longleftrightarrow>
     unmanaged d = unmanaged d0 \<and>
     metaResourceVersion (deploymentMeta d) = metaResourceVersion (deploymentMeta d0)"

definition editOfService :: "service \<Rightarrow> service \<Rightarrow> bool" where
  "editOfService s0 s \<longleftrightarrow>
     unmanagedService s = unmanagedService s0 \<and>
     metaResourceVersion (serviceMeta s) = metaResourceVersion (serviceMeta s0)"

lemma unmanaged_meta:
  assumes "unmanaged d = unmanaged d0"
  shows "keyOf (deploymentMeta d) = keyOf (deploymentMeta d0)"
    and "metaOwnerReferences (deploymentMeta d) = metaOwnerReferences (deploymentMeta d0)"
    and "metaFinalizers (deploymentMeta d) = metaFinalizers (deploymentMeta d0)"
    and "metaDeletionTimestamp (deploymentMeta d) = metaDeletionTimestamp (deploymentMeta d0)"
proof -
  let ?bare = "\<lambda>m::objectMeta. m\<lparr>metaAnnotations := Map.empty, metaResourceVersion := 0\<rparr>"
  have m: "?bare (deploymentMeta d) = ?bare (deploymentMeta d0)"
    using arg_cong [OF assms, of deploymentMeta] by (simp add: unmanaged_def Let_def)
  show "keyOf (deploymentMeta d) = keyOf (deploymentMeta d0)"
    using arg_cong [OF m, of keyOf] by (simp add: keyOf_def)
  show "metaOwnerReferences (deploymentMeta d) = metaOwnerReferences (deploymentMeta d0)"
    using arg_cong [OF m, of metaOwnerReferences] by simp
  show "metaFinalizers (deploymentMeta d) = metaFinalizers (deploymentMeta d0)"
    using arg_cong [OF m, of metaFinalizers] by simp
  show "metaDeletionTimestamp (deploymentMeta d) = metaDeletionTimestamp (deploymentMeta d0)"
    using arg_cong [OF m, of metaDeletionTimestamp] by simp
qed

lemma unmanagedService_meta:
  assumes "unmanagedService s = unmanagedService s0"
  shows "keyOf (serviceMeta s) = keyOf (serviceMeta s0)"
    and "metaOwnerReferences (serviceMeta s) = metaOwnerReferences (serviceMeta s0)"
    and "metaFinalizers (serviceMeta s) = metaFinalizers (serviceMeta s0)"
    and "metaDeletionTimestamp (serviceMeta s) = metaDeletionTimestamp (serviceMeta s0)"
proof -
  have m: "(serviceMeta s)\<lparr>metaResourceVersion := 0\<rparr> = (serviceMeta s0)\<lparr>metaResourceVersion := 0\<rparr>"
    using arg_cong [OF assms, of serviceMeta] by (simp add: unmanagedService_def)
  show "keyOf (serviceMeta s) = keyOf (serviceMeta s0)"
    using arg_cong [OF m, of keyOf] by (simp add: keyOf_def)
  show "metaOwnerReferences (serviceMeta s) = metaOwnerReferences (serviceMeta s0)"
    using arg_cong [OF m, of metaOwnerReferences] by simp
  show "metaFinalizers (serviceMeta s) = metaFinalizers (serviceMeta s0)"
    using arg_cong [OF m, of metaFinalizers] by simp
  show "metaDeletionTimestamp (serviceMeta s) = metaDeletionTimestamp (serviceMeta s0)"
    using arg_cong [OF m, of metaDeletionTimestamp] by simp
qed

text \<open>The edits of the code.\<close>

lemma unmanaged_edits [simp]:
  "unmanaged (setReplicas n d) = unmanaged d"
  "unmanaged (setMounts vm vol ann d) = unmanaged d"
  "unmanaged (setFirstContainer (\<lambda>c. c\<lparr>containerPorts := ps\<rparr>) d) = unmanaged d"
  "unmanaged (setReloadedAt now d) = unmanaged d"
  by (simp_all add: unmanaged_def unmanagedContainers_def setReplicas_def setMounts_def setFirstContainer_def
      setReloadedAt_def Let_def split: list.split)

lemma unmanagedService_edits [simp]: "unmanagedService (setServicePorts ps s) = unmanagedService s"
  by (simp add: unmanagedService_def setServicePorts_def)

lemma setReloadedAt_meta [simp]: "deploymentMeta (setReloadedAt now d) = deploymentMeta d"
  by (simp add: setReloadedAt_def)

lemma editOf_edits:
  assumes "editOf d0 d"
  shows "editOf d0 (setReplicas n d)" "editOf d0 (setMounts vm vol ann d)"
    "editOf d0 (setFirstContainer (\<lambda>c. c\<lparr>containerPorts := ps\<rparr>) d)" "editOf d0 (setReloadedAt now d)"
  using assms by (simp_all add: editOf_def)

lemma editOfService_edits:
  "editOfService s0 s \<Longrightarrow> editOfService s0 (setServicePorts ps s)"
  by (simp add: editOfService_def)

text \<open>An edit of one of the objects known.\<close>

definition known :: "deployment set \<Rightarrow> deployment \<Rightarrow> bool" where
  "known S d \<longleftrightarrow> (\<exists>d0 \<in> S. editOf d0 d)"

definition knownService :: "service set \<Rightarrow> service \<Rightarrow> bool" where
  "knownService T s \<longleftrightarrow> (\<exists>s0 \<in> T. editOfService s0 s)"

lemma known_self [simp]: "d \<in> S \<Longrightarrow> known S d" "s \<in> T \<Longrightarrow> knownService T s"
  by (auto simp: known_def knownService_def editOf_def editOfService_def)

lemma known_more:
  "known S d \<Longrightarrow> known (insert d' S) d" "knownService T s \<Longrightarrow> knownService (insert s' T) s"
  "known S d \<Longrightarrow> known (S' \<union> S) d"
  by (auto simp: known_def knownService_def)

lemma known_edits:
  assumes "known S d"
  shows "known S (setReplicas n d)" "known S (setMounts vm vol ann d)"
    "known S (setFirstContainer (\<lambda>c. c\<lparr>containerPorts := ps\<rparr>) d)" "known S (setReloadedAt now d)"
  using assms editOf_edits unfolding known_def by blast+

lemma knownService_edits: "knownService T s \<Longrightarrow> knownService T (setServicePorts ps s)"
  using editOfService_edits unfolding knownService_def by blast

section \<open>The contract\<close>

locale careful_client =
  fixes r :: "'w reconciler"
    and mayOwn :: "objectMeta \<Rightarrow> bool"
    and K :: "deployment set \<Rightarrow> service set \<Rightarrow> 'w \<Rightarrow> bool"
  assumes forget: "\<And>S S' T T' w. K S' T' w \<Longrightarrow> S \<subseteq> S' \<Longrightarrow> T \<subseteq> T' \<Longrightarrow> K S T w"
    and built: "\<And>p m m'. setControllerReference (lib r) (ProxyOwner p) m = Inr m' \<Longrightarrow>
      metaOwnerReferences m = [] \<Longrightarrow> metaDeletionTimestamp m = None \<Longrightarrow>
      keyOf m = keyOf (proxyMeta p) \<Longrightarrow> mayOwn m'"
    and ticks: "\<And>S T. maintains (K S T) (\<lambda>_. True) (timeNow r)"
      "\<And>S T. maintains (K S T) (\<lambda>_. True) (timeNowString r)"
      "\<And>S T n t x y. maintains (K S T) (\<lambda>_. True) (recordEvent r n t x y)"
    and reads: "\<And>S T n. maintains (K S T) (\<lambda>_. True) (apiGetProxy r n)"
      "\<And>S T n. maintains (K S T) (\<lambda>_. True) (apiGetRules r n)"
      "\<And>S T n. maintains (K S T) (\<lambda>_. True) (apiGetConfigMap r n)"
      "\<And>S T ns sel. maintains (K S T) (\<lambda>_. True) (apiListConfigMaps r ns sel)"
    and other_writes: "\<And>S T p. maintains (K S T) (\<lambda>_. True) (apiUpdateProxy r p)"
      "\<And>S T p. maintains (K S T) (\<lambda>_. True) (apiUpdateProxyStatus r p)"
      "\<And>S T q. maintains (K S T) (\<lambda>_. True) (apiUpdateRules r q)"
      "\<And>S T q. maintains (K S T) (\<lambda>_. True) (apiUpdateRulesStatus r q)"
      "\<And>S T q x. maintains (K S T) (\<lambda>_. True) (apiPatchRules r q x)"
      "\<And>S T cm. maintains (K S T) (\<lambda>_. True) (apiCreateConfigMap r cm)"
      "\<And>S T cm. maintains (K S T) (\<lambda>_. True) (apiUpdateConfigMap r cm)"
    and getDeployment: "\<And>S T n. triple (K S T) (apiGetDeployment r n) (\<lambda>x. K ({d. x = Inr d} \<union> S) T)"
    and listDeployments: "\<And>S T ns sel. triple (K S T) (apiListDeployments r ns sel)
      (\<lambda>x. K ({d. \<exists>ds. x = Inr ds \<and> d \<in> set ds} \<union> S) T)"
    and getService: "\<And>S T n. triple (K S T) (apiGetService r n) (\<lambda>x. K S ({s. x = Inr s} \<union> T))"
    and updateDeployment: "\<And>S T d. known S d \<Longrightarrow>
      triple (K S T) (apiUpdateDeployment r d) (\<lambda>x. K ({d. x = Inr d} \<union> S) T)"
    and updateService: "\<And>S T s. knownService T s \<Longrightarrow> maintains (K S T) (\<lambda>_. True) (apiUpdateService r s)"
    and createDeployment: "\<And>T d. mayOwn (deploymentMeta d) \<Longrightarrow>
      maintains (K {} T) (\<lambda>_. True) (apiCreateDeployment r d)"
    and createService: "\<And>S s. mayOwn (serviceMeta s) \<Longrightarrow>
      maintains (K S {}) (\<lambda>_. True) (apiCreateService r s)"
begin

lemmas careful_requests = ticks reads other_writes

lemmas careful_steps = careful_requests [THEN maintains_bind]

lemma bind_getDeployment:
  assumes "\<And>e. maintains (K S T) Q (k (Inl e))" and "\<And>d. maintains (K (insert d S) T) Q (k (Inr d))"
  shows "maintains (K S T) Q (Monad_Syntax.bind (apiGetDeployment r n) k)"
proof (rule maintains_learn [OF getDeployment])
  show "maintains (K ({d. x = Inr d} \<union> S) T) Q (k x)" for x
    using assms by (cases x) simp_all
qed (auto intro: forget)

lemma bind_updateDeployment:
  assumes "known S d" and "\<And>e. maintains (K S T) Q (k (Inl e))"
    and "\<And>d'. maintains (K (insert d' S) T) Q (k (Inr d'))"
  shows "maintains (K S T) Q (Monad_Syntax.bind (apiUpdateDeployment r d) k)"
proof (rule maintains_learn [OF updateDeployment [OF assms(1)]])
  show "maintains (K ({d. x = Inr d} \<union> S) T) Q (k x)" for x
    using assms(2,3) by (cases x) simp_all
qed (auto intro: forget)

lemma bind_getService:
  assumes "\<And>e. maintains (K S T) Q (k (Inl e))" and "\<And>s. maintains (K S (insert s T)) Q (k (Inr s))"
  shows "maintains (K S T) Q (Monad_Syntax.bind (apiGetService r n) k)"
proof (rule maintains_learn [OF getService])
  show "maintains (K S ({s. x = Inr s} \<union> T)) Q (k x)" for x
    using assms by (cases x) simp_all
qed (auto intro: forget)

text \<open>The steps of the proxy reconciler.\<close>

lemma kept_setProxyStatus: "maintains (K S T) (\<lambda>_. True) (setProxyStatus r p cond)"
  unfolding setProxyStatus_def setProxyCondition_def
  by (intro maintains_bind [OF maintains_bind [OF ticks(1) maintains_ret]] careful_steps maintains_intros)
     simp_all

lemma kept_deploymentUpdate:
  assumes "known S d"
  shows "maintains (K S T) (\<lambda>_. True) (deploymentUpdate r m p d)"
  unfolding deploymentUpdate_def
  by (intro bind_updateDeployment [OF assms] careful_steps maintains_bind [OF kept_setProxyStatus] maintains_intros)
     simp_all

lemma kept_serviceUpdate:
  assumes "knownService T s"
  shows "maintains (K S T) (\<lambda>_. True) (serviceUpdate r m p s)"
  unfolding serviceUpdate_def
  by (intro maintains_bind [OF updateService [OF assms]] careful_steps maintains_bind [OF kept_setProxyStatus]
        maintains_intros) simp_all

lemma kept_mountRulesets: "maintains (K S T) (\<lambda>_. True) (mountRulesets r ns rss acc)"
proof (induction rss arbitrary: acc)
  case (Cons rs rss)
  show ?case unfolding mountRulesets.simps by (intro careful_steps maintains_intros Cons.IH) simp_all
qed (simp add: maintains_ret)

lemma kept_collectNames: "maintains (K S T) (\<lambda>_. True) (collectNames r ns rss acc)"
proof (induction rss arbitrary: acc)
  case (Cons rs rss)
  show ?case unfolding collectNames.simps by (intro careful_steps maintains_intros Cons.IH) simp_all
qed (simp add: maintains_ret)

lemma kept_mountsForVillipProxy: "maintains (K S T) (\<lambda>_. True) (mountsForVillipProxy r rss ns)"
  unfolding mountsForVillipProxy_def
  by (intro maintains_bind [OF kept_mountRulesets] maintains_intros) simp_all

lemma kept_isRulesetsChanged: "maintains (K S T) (\<lambda>_. True) (isRulesetsChanged r p d)"
  unfolding isRulesetsChanged_def
  by (intro maintains_bind [OF kept_collectNames] maintains_intros) simp_all

lemma kept_deploymentForVillipProxy:
  "maintains (K S T) (\<lambda>x. \<forall>d. x = Value (Inr d) \<longrightarrow> mayOwn (deploymentMeta d)) (deploymentForVillipProxy r p)"
proof -
  obtain ls where ls: "labelsForVillipProxy p = Value ls" using labels_value [of p] by blast
  have own: "mayOwn m"
    if "setControllerReference (lib r) (ProxyOwner p) (deploymentMeta (deploymentObject (lib r) p ls vm vol ann)) = Inr m"
    for vm vol ann m
    by (rule built [OF that]) (simp_all add: deploymentObject_def emptyMeta_def keyOf_def)
  show ?thesis
    unfolding deploymentForVillipProxy_def ls outcome.case
    by (intro maintains_bind [OF kept_mountsForVillipProxy] maintains_intros) (auto dest: own)
qed

lemma kept_createDeployment: "maintains (K {} T) (\<lambda>_. True) (Proxy_Deployment.createDeployment r p)"
  unfolding createDeployment_def
  by (intro maintains_bind [OF kept_deploymentForVillipProxy] maintains_bind [OF createDeployment]
        maintains_bind [OF kept_setProxyStatus] maintains_intros) simp_all

lemma mayOwn_service: "serviceForVillipProxy r p = Inr s \<Longrightarrow> mayOwn (serviceMeta s)"
proof -
  assume s: "serviceForVillipProxy r p = Inr s"
  obtain m where m: "setControllerReference (lib r) (ProxyOwner p) (serviceMeta (serviceObject (lib r) p)) = Inr m"
    and "serviceMeta s = m"
    using s by (auto simp: serviceForVillipProxy_def Let_def split: sum.splits)
  moreover have "mayOwn m"
    by (rule built [OF m]) (simp_all add: serviceObject_def emptyMeta_def keyOf_def)
  ultimately show ?thesis by simp
qed

lemma kept_createService: "maintains (K S {}) (\<lambda>_. True) (Proxy_Service.createService r p)"
  unfolding createService_def
  by (intro maintains_bind [OF createService] maintains_bind [OF kept_setProxyStatus] maintains_intros)
     (simp_all add: mayOwn_service)

lemma kept_managePortChange:
  assumes "known S d" and "knownService T s"
  shows "maintains (K S T) (\<lambda>_. True) (managePortChange r p m d s)"
proof -
  have dep: "maintains (K S T) (\<lambda>_. True)
      (if b then do {
         (e, p', _) \<leftarrow> deploymentUpdate r m p (setFirstContainer (\<lambda>c. c\<lparr>containerPorts := ps\<rparr>) d);
         ret (e, p')
       } else ret (None, p))" for b ps
    by (intro maintains_if maintains_bind [OF kept_deploymentUpdate [OF known_edits(3) [OF assms(1)]]]
          maintains_prod maintains_ret) simp_all
  show ?thesis
    unfolding managePortChange_def Let_def
    by (intro maintains_intros maintains_bind [OF dep]
          maintains_bind [OF kept_serviceUpdate [OF knownService_edits [OF assms(2)]]])
       simp_all
qed

lemma kept_markedToBeDeleted: "maintains (K S T) (\<lambda>_. True) (villipProxyMarkedToBeDeleted r p m)"
  unfolding villipProxyMarkedToBeDeleted_def doFinalizerOperationsForVillipProxy_def
  by (intro maintains_intros maintains_bind [OF kept_setProxyStatus] careful_steps) simp_all

lemma kept_proxyService:
  assumes "known S d"
  shows "maintains (K S {}) (\<lambda>_. True) (reconcileProxyService r m p d)"
  unfolding reconcileProxyService_def
  by (intro bind_getService maintains_bind [OF kept_createService]
        maintains_bind [OF kept_managePortChange [OF assms]] maintains_bind [OF kept_setProxyStatus]
        maintains_intros) simp_all

lemma kept_proxyRulesets:
  assumes "known S d"
  shows "maintains (K S {}) (\<lambda>_. True) (reconcileProxyRulesets r m p d)"
  unfolding reconcileProxyRulesets_def
  by (intro maintains_bind [OF kept_isRulesetsChanged] maintains_bind [OF kept_mountsForVillipProxy]
        maintains_bind [OF kept_deploymentUpdate] kept_proxyService maintains_intros)
     (simp_all add: assms known_edits)

lemma kept_proxyDeployment: "maintains (K {} {}) (\<lambda>_. True) (reconcileProxyDeployment r m p)"
  unfolding reconcileProxyDeployment_def Let_def
  by (intro bind_getDeployment kept_createDeployment maintains_bind [OF kept_deploymentUpdate]
        kept_proxyRulesets maintains_intros) (auto simp: known_edits)

lemma kept_reconcileProxy: "maintains (K {} {}) (\<lambda>_. True) (reconcileProxy r m)"
proof -
  have init: "maintains (K {} {}) (\<lambda>_. True) (initProxyStatus r p)" for p
    unfolding initProxyStatus_def
    by (intro maintains_bind [OF kept_setProxyStatus] maintains_intros) simp_all
  have fin: "maintains (K {} {}) (\<lambda>_. True) (addProxyFinalizer r p)" for p
    unfolding addProxyFinalizer_def by (intro careful_steps maintains_intros) simp_all
  show ?thesis
    unfolding reconcileProxy_def
    by (intro careful_steps kept_proxyDeployment maintains_bind [OF init] maintains_bind [OF fin]
          maintains_bind [OF kept_markedToBeDeleted] maintains_intros) simp_all
qed

text \<open>A careful client is a rolling one, whatever Services were read: what was read or sent is
  known, and a reload is an edit of a managed field.\<close>

end

sublocale careful_client \<subseteq> rolling: rolling_client r known "\<lambda>S. K S T" for T
  by unfold_locales
     (auto intro: forget known_edits ticks reads other_writes listDeployments updateDeployment)

context careful_client
begin

lemmas kept_reconcileRules = rolling.kept_reconcileRules

end

end
