(* ===== verification/Ownership.thy ===== *)
theory Ownership
  imports Careful_Client
begin

text \<open>
  Who is told when an object changes.  A controller that owns a kind is woken for the controller
  reference of a changed object, so what matters is that Deployments and Services carry the
  reference to the proxy of their name.  The operator sets it on what it creates and never
  loses it, whatever requests fail: \<open>owning_client\<close> is the contract of a client whose
  requests keep an invariant in which the objects are owned, it gives the contract of
  \<open>Careful_Client\<close>, and the server meets it with \<open>ownedCluster\<close>.
\<close>

section \<open>The owner of an object\<close>

text \<open>The request a change of an owned object leads to: its controlling owner, when that has
  the kind and the group of the controller's own resource.\<close>

definition ownerRequest :: "lib \<Rightarrow> string \<Rightarrow> objectMeta \<Rightarrow> namespacedName option" where
  "ownerRequest l kind m =
     (case getControllerOf l m of
        None \<Rightarrow> None
      | Some ref \<Rightarrow>
          if ownerKind ref = kind \<and>
             ownerAPIVersion ref = groupVersionString l (gvGroup groupVersionV1) (gvVersion groupVersionV1)
          then Some \<lparr>nnNamespace = metaNamespace m, nnName = ownerName ref\<rparr> else None)"

text \<open>\<open>GetControllerOf\<close> looks at the owner references only.\<close>

definition controllerOfLaw :: "lib \<Rightarrow> bool" where
  "controllerOfLaw l \<longleftrightarrow>
     (\<forall>m m'. metaOwnerReferences m = metaOwnerReferences m' \<longrightarrow> getControllerOf l m = getControllerOf l m')"

text \<open>An object is controlled by the proxy of its own name, or by no proxy at all; those named
  \<open>n\<close> are controlled.\<close>

definition ownOk :: "lib \<Rightarrow> namespacedName \<Rightarrow> objectMeta \<Rightarrow> bool" where
  "ownOk l n m \<longleftrightarrow>
     ownerRequest l ''VillipProxy'' m = Some (keyOf m) \<or>
     ownerRequest l ''VillipProxy'' m = None \<and> keyOf m \<noteq> n"

definition ownedCluster :: "lib \<Rightarrow> namespacedName \<Rightarrow> cluster \<Rightarrow> bool" where
  "ownedCluster l n c \<longleftrightarrow>
     (\<forall>d \<in> set (clDeployments c). ownOk l n (deploymentMeta d)) \<and>
     (\<forall>s \<in> set (clServices c). ownOk l n (serviceMeta s)) \<and>
     (\<forall>e. Some e \<in> set (clFaults c) \<longrightarrow> \<not> isNotFound e)"

lemma ownOk_cong:
  assumes "controllerOfLaw l" and "metaOwnerReferences m' = metaOwnerReferences m" and "keyOf m' = keyOf m"
  shows "ownOk l n m' \<longleftrightarrow> ownOk l n m"
proof -
  have "getControllerOf l m' = getControllerOf l m"
    using assms(1,2) unfolding controllerOfLaw_def by blast
  moreover have "metaNamespace m' = metaNamespace m" using assms(3) by (simp add: keyOf_def)
  ultimately show ?thesis
    using assms(3) by (cases "getControllerOf l m") (simp_all add: ownOk_def ownerRequest_def)
qed

lemma ownOk_write:
  "controllerOfLaw l \<Longrightarrow> ownOk l n (nextVersion old m) \<longleftrightarrow> ownOk l n m"
  by (rule ownOk_cong) (simp_all add: nextVersion_def keyOf_def)

text \<open>What \<open>SetControllerReference\<close> gives a new object of the proxy's name.\<close>

lemma ownOk_built:
  assumes "libLaws l" and "setControllerReference l (ProxyOwner p) m = Inr m'"
    and "metaOwnerReferences m = []" and "keyOf m = keyOf (proxyMeta p)"
  shows "ownOk l n m'"
proof -
  have ns: "metaNamespace m = metaNamespace (proxyMeta p)" "metaName m = metaName (proxyMeta p)"
    using assms(4) by (simp_all add: keyOf_def)
  obtain ref where ref: "setControllerReference l (ProxyOwner p) m = Inr (m\<lparr>metaOwnerReferences := [ref]\<rparr>)"
    "ownerKind ref = ''VillipProxy''" "ownerName ref = metaName (proxyMeta p)"
    "ownerAPIVersion ref = groupVersionString l ''villip.carmier.fr'' ''v1''" "ownerController ref = Some True"
    by (rule libLaws_owner [OF assms(1,3), of "ProxyOwner p"]) (use ns in \<open>simp_all add: ownerMeta_def ownerKindOf_def\<close>)
  have m': "m' = m\<lparr>metaOwnerReferences := [ref]\<rparr>" using assms(2) ref(1) by simp
  have "getControllerOf l m' = Some ref"
    by (rule libLaws_controllerOf [OF assms(1)]) (simp_all add: m' ref(5))
  then show ?thesis
    using ref ns by (simp add: ownOk_def ownerRequest_def m' keyOf_def)
qed

section \<open>Requests\<close>

lemma owned_faults:
  "ownedCluster l n c \<Longrightarrow> set fs \<subseteq> set (clFaults c) \<Longrightarrow> ownedCluster l n (c\<lparr>clFaults := fs\<rparr>)"
  by (auto simp: ownedCluster_def)

lemma maintains_serve:
  assumes f: "\<And>c. ownedCluster l n c \<Longrightarrow> ownedCluster l n (snd (f c)) \<and> Q (fst (f c))"
    and e: "\<And>e. Q (Inl e)"
  shows "maintains (ownedCluster l n) Q (serve f)"
  unfolding maintains_def
proof (intro allI impI)
  fix c
  assume c: "ownedCluster l n c"
  have c': "ownedCluster l n (c\<lparr>clFaults := fs\<rparr>)" if "clFaults c = x # fs" for x fs
    using that by (intro owned_faults [OF c]) auto
  show "ownedCluster l n (snd (run_state (serve f) c)) \<and> Q (fst (run_state (serve f) c))"
    using f [OF c] f [OF c'] c' e by (auto simp: serve_def split: list.split option.split)
qed

lemma maintains_reading:
  assumes "\<And>c. ownedCluster l n c \<Longrightarrow> Q (g c)" and "\<And>e. Q (Inl e)"
  shows "maintains (ownedCluster l n) Q (serve (\<lambda>c. (g c, c)))"
  by (rule maintains_serve) (simp_all add: assms)

lemma owned_ticks:
  "maintains (ownedCluster l n) (\<lambda>_. True) (timeNow (storeReconciler pol k))"
  "maintains (ownedCluster l n) (\<lambda>_. True) (timeNowString (storeReconciler pol k))"
  "maintains (ownedCluster l n) (\<lambda>_. True) (recordEvent (storeReconciler pol k) m t x y)"
  by (auto simp: maintains_def storeReconciler_def ownedCluster_def)

text \<open>Results that carry an object with the right owner.\<close>

definition ownResult :: "lib \<Rightarrow> namespacedName \<Rightarrow> ('a \<Rightarrow> objectMeta) \<Rightarrow> goError + 'a \<Rightarrow> bool" where
  "ownResult l n meta x \<longleftrightarrow> (\<forall>y. x = Inr y \<longrightarrow> ownOk l n (meta y))"

lemma ownResult_simps [simp]:
  "ownResult l n meta (Inl e)" "ownResult l n meta (Inr y) \<longleftrightarrow> ownOk l n (meta y)"
  by (simp_all add: ownResult_def)

lemma ownResult_found:
  "\<forall>x \<in> set xs. ownOk l n (meta x) \<Longrightarrow> ownResult l n meta (found pol k m (findObj meta m xs))"
  by (auto simp: found_def split: option.splits dest: findObj_in)

lemma in_writeObj: "x \<in> set (writeObj meta y xs) \<Longrightarrow> x = y \<or> x \<in> set xs"
  by (auto simp: writeObj_def replaceObj_def removeObj_def split: if_splits)

lemma owned_reads:
  "maintains (ownedCluster l n) (\<lambda>_. True) (apiGetProxy (storeReconciler pol k) m)"
  "maintains (ownedCluster l n) (ownResult l n deploymentMeta) (apiGetDeployment (storeReconciler pol k) m)"
  "maintains (ownedCluster l n) (ownResult l n serviceMeta) (apiGetService (storeReconciler pol k) m)"
  "maintains (ownedCluster l n) (\<lambda>_. True) (apiGetRules (storeReconciler pol k) m)"
  "maintains (ownedCluster l n) (\<lambda>_. True) (apiGetConfigMap (storeReconciler pol k) m)"
  "maintains (ownedCluster l n) (\<lambda>_. True) (apiListConfigMaps (storeReconciler pol k) ns sel)"
  "maintains (ownedCluster l n) (\<lambda>x. \<forall>ds. x = Inr ds \<longrightarrow> (\<forall>d \<in> set ds. ownOk l n (deploymentMeta d)))
     (apiListDeployments (storeReconciler pol k) ns sel')"
  by (auto simp: store_calls ownedCluster_def selectDeployments_def intro!: maintains_reading ownResult_found)

text \<open>Writes of resources other than Deployments and Services.\<close>

lemma owned_other_writes:
  "maintains (ownedCluster l n) (\<lambda>_. True) (apiUpdateProxy (storeReconciler pol k) p)"
  "maintains (ownedCluster l n) (\<lambda>_. True) (apiUpdateProxyStatus (storeReconciler pol k) p)"
  "maintains (ownedCluster l n) (\<lambda>_. True) (apiUpdateRules (storeReconciler pol k) q)"
  "maintains (ownedCluster l n) (\<lambda>_. True) (apiUpdateRulesStatus (storeReconciler pol k) q)"
  "maintains (ownedCluster l n) (\<lambda>_. True) (apiPatchRules (storeReconciler pol k) q x)"
  "maintains (ownedCluster l n) (\<lambda>_. True) (apiCreateConfigMap (storeReconciler pol k) cm)"
  "maintains (ownedCluster l n) (\<lambda>_. True) (apiUpdateConfigMap (storeReconciler pol k) cm)"
  by (auto simp: store_calls storeUpdateProxy_def storeUpdateRules_def storePatchRules_def
      storeCreateConfigMap_def storeUpdateConfigMap_def Let_def ownedCluster_def
      intro!: maintains_serve split: option.split)

lemma owned_updateDeployment:
  assumes "controllerOfLaw l" and "ownOk l n (deploymentMeta d)"
  shows "maintains (ownedCluster l n) (ownResult l n deploymentMeta) (apiUpdateDeployment (storeReconciler pol k) d)"
  using assms
  by (auto simp: store_calls storeUpdateDeployment_def Let_def ownedCluster_def ownOk_write
      intro!: maintains_serve split: option.split dest!: in_writeObj)

lemma owned_updateService:
  assumes "controllerOfLaw l" and "ownOk l n (serviceMeta d)"
  shows "maintains (ownedCluster l n) (\<lambda>_. True) (apiUpdateService (storeReconciler pol k) d)"
  using assms
  by (auto simp: store_calls storeUpdateService_def Let_def ownedCluster_def ownOk_write
      intro!: maintains_serve split: option.split dest!: in_writeObj)

lemma owned_createDeployment:
  assumes "ownOk l n (deploymentMeta d)"
  shows "maintains (ownedCluster l n) (\<lambda>_. True) (apiCreateDeployment (storeReconciler pol k) d)"
  using assms
  by (auto simp: store_calls storeCreateDeployment_def Let_def ownedCluster_def encodeDeployment_def
      intro!: maintains_serve split: option.split)

lemma owned_createService:
  assumes "ownOk l n (serviceMeta d)"
  shows "maintains (ownedCluster l n) (\<lambda>_. True) (apiCreateService (storeReconciler pol k) d)"
  using assms
  by (auto simp: store_calls storeCreateService_def Let_def ownedCluster_def encodeService_def
      intro!: maintains_serve split: option.split)

section \<open>The contract of an owning client\<close>

text \<open>The invariant, with what is known of the owners of the objects read.\<close>

definition knowing ::
  "lib \<Rightarrow> namespacedName \<Rightarrow> ('w \<Rightarrow> bool) \<Rightarrow> deployment set \<Rightarrow> service set \<Rightarrow> 'w \<Rightarrow> bool" where
  "knowing l n I S T w \<longleftrightarrow>
     I w \<and> libLaws l \<and> controllerOfLaw l \<and>
     (\<forall>d \<in> S. ownOk l n (deploymentMeta d)) \<and> (\<forall>s \<in> T. ownOk l n (serviceMeta s))"

lemma knowing_lawful:
  "(libLaws l \<Longrightarrow> controllerOfLaw l \<Longrightarrow> maintains I Q m) \<Longrightarrow> maintains (knowing l n I S T) Q m"
  unfolding maintains_def knowing_def by blast

lemma knowing_keeps: "maintains I Q m \<Longrightarrow> maintains (knowing l n I S T) Q m"
  by (rule knowing_lawful)

lemma knowing_learns:
  assumes "maintains I Q m" and "\<And>x d. Q x \<Longrightarrow> d \<in> D x \<Longrightarrow> ownOk l n (deploymentMeta d)"
    and "\<And>x s. Q x \<Longrightarrow> s \<in> E x \<Longrightarrow> ownOk l n (serviceMeta s)"
  shows "triple (knowing l n I S T) m (\<lambda>x. knowing l n I (D x \<union> S) (E x \<union> T))"
  unfolding triple_def
proof (intro allI impI)
  fix w
  assume w: "knowing l n I S T w"
  then have "I (snd (run_state m w)) \<and> Q (fst (run_state m w))"
    using assms(1) by (simp add: knowing_def maintains_def)
  then show "knowing l n I (D (fst (run_state m w)) \<union> S) (E (fst (run_state m w)) \<union> T) (snd (run_state m w))"
    using w assms(2,3) by (auto simp: knowing_def)
qed

lemma known_owner:
  assumes "controllerOfLaw l" and "known S d" and "\<forall>d \<in> S. ownOk l n (deploymentMeta d)"
  shows "ownOk l n (deploymentMeta d)"
proof -
  obtain d0 where d0: "d0 \<in> S" "unmanaged d = unmanaged d0"
    using assms(2) by (auto simp: known_def editOf_def)
  have "ownOk l n (deploymentMeta d) \<longleftrightarrow> ownOk l n (deploymentMeta d0)"
    by (rule ownOk_cong [OF assms(1) unmanaged_meta(2,1) [OF d0(2)]])
  then show ?thesis using assms(3) d0(1) by blast
qed

lemma known_serviceOwner:
  assumes "controllerOfLaw l" and "knownService T s" and "\<forall>s \<in> T. ownOk l n (serviceMeta s)"
  shows "ownOk l n (serviceMeta s)"
proof -
  obtain s0 where s0: "s0 \<in> T" "unmanagedService s = unmanagedService s0"
    using assms(2) by (auto simp: knownService_def editOfService_def)
  have "ownOk l n (serviceMeta s) \<longleftrightarrow> ownOk l n (serviceMeta s0)"
    by (rule ownOk_cong [OF assms(1) unmanagedService_meta(2,1) [OF s0(2)]])
  then show ?thesis using assms(3) s0(1) by blast
qed

locale owning_client =
  fixes r :: "'w reconciler" and l :: lib and n :: namespacedName and I :: "'w \<Rightarrow> bool"
  assumes same_lib: "lib r = l"
    and own_ticks: "maintains I (\<lambda>_. True) (timeNow r)" "maintains I (\<lambda>_. True) (timeNowString r)"
      "\<And>m t x y. maintains I (\<lambda>_. True) (recordEvent r m t x y)"
    and own_reads: "\<And>m. maintains I (\<lambda>_. True) (apiGetProxy r m)"
      "\<And>m. maintains I (\<lambda>_. True) (apiGetRules r m)"
      "\<And>m. maintains I (\<lambda>_. True) (apiGetConfigMap r m)"
      "\<And>ns sel. maintains I (\<lambda>_. True) (apiListConfigMaps r ns sel)"
      "\<And>m. maintains I (ownResult l n deploymentMeta) (apiGetDeployment r m)"
      "\<And>m. maintains I (ownResult l n serviceMeta) (apiGetService r m)"
      "\<And>ns sel. maintains I (\<lambda>x. \<forall>ds. x = Inr ds \<longrightarrow> (\<forall>d \<in> set ds. ownOk l n (deploymentMeta d)))
         (apiListDeployments r ns sel)"
    and own_other_writes: "\<And>p. maintains I (\<lambda>_. True) (apiUpdateProxy r p)"
      "\<And>p. maintains I (\<lambda>_. True) (apiUpdateProxyStatus r p)"
      "\<And>q. maintains I (\<lambda>_. True) (apiUpdateRules r q)"
      "\<And>q. maintains I (\<lambda>_. True) (apiUpdateRulesStatus r q)"
      "\<And>q x. maintains I (\<lambda>_. True) (apiPatchRules r q x)"
      "\<And>cm. maintains I (\<lambda>_. True) (apiCreateConfigMap r cm)"
      "\<And>cm. maintains I (\<lambda>_. True) (apiUpdateConfigMap r cm)"
    and own_updateDeployment: "\<And>d. controllerOfLaw l \<Longrightarrow> ownOk l n (deploymentMeta d) \<Longrightarrow>
      maintains I (ownResult l n deploymentMeta) (apiUpdateDeployment r d)"
    and own_updateService: "\<And>s. controllerOfLaw l \<Longrightarrow> ownOk l n (serviceMeta s) \<Longrightarrow>
      maintains I (\<lambda>_. True) (apiUpdateService r s)"
    and own_createDeployment: "\<And>d. ownOk l n (deploymentMeta d) \<Longrightarrow>
      maintains I (\<lambda>_. True) (apiCreateDeployment r d)"
    and own_createService: "\<And>s. ownOk l n (serviceMeta s) \<Longrightarrow>
      maintains I (\<lambda>_. True) (apiCreateService r s)"
begin

end

sublocale owning_client \<subseteq> careful_client r "\<lambda>m. libLaws l \<longrightarrow> ownOk l n m" "knowing l n I"
proof
  show "knowing l n I S' T' w \<Longrightarrow> S \<subseteq> S' \<Longrightarrow> T \<subseteq> T' \<Longrightarrow> knowing l n I S T w" for S S' T T' w
    by (auto simp: knowing_def)
  show "setControllerReference (lib r) (ProxyOwner p) m = Inr m' \<Longrightarrow> metaOwnerReferences m = [] \<Longrightarrow>
      metaDeletionTimestamp m = None \<Longrightarrow> keyOf m = keyOf (proxyMeta p) \<Longrightarrow> libLaws l \<longrightarrow> ownOk l n m'" for p m m'
    using ownOk_built [of l p m m' n] by (simp add: same_lib)
  show "triple (knowing l n I S T) (apiGetDeployment r m) (\<lambda>x. knowing l n I ({d. x = Inr d} \<union> S) T)" for S T m
    using knowing_learns [OF own_reads(5), where D = "\<lambda>x. {d. x = Inr d}" and E = "\<lambda>_. {}"] by simp
  show "triple (knowing l n I S T) (apiListDeployments r ns sel)
      (\<lambda>x. knowing l n I ({d. \<exists>ds. x = Inr ds \<and> d \<in> set ds} \<union> S) T)" for S T ns sel
  proof -
    have "triple (knowing l n I S T) (apiListDeployments r ns sel)
        (\<lambda>x. knowing l n I ({d. \<exists>ds. x = Inr ds \<and> d \<in> set ds} \<union> S) ({} \<union> T))"
      by (rule knowing_learns [OF own_reads(7)]) auto
    then show ?thesis by simp
  qed
  show "triple (knowing l n I S T) (apiGetService r m) (\<lambda>x. knowing l n I S ({s. x = Inr s} \<union> T))" for S T m
    using knowing_learns [OF own_reads(6), where D = "\<lambda>_. {}" and E = "\<lambda>x. {s. x = Inr s}"] by simp
  show "triple (knowing l n I S T) (apiUpdateDeployment r d) (\<lambda>x. knowing l n I ({d. x = Inr d} \<union> S) T)"
    if d: "known S d" for S T d
    unfolding triple_def
  proof (intro allI impI)
    fix w
    assume w: "knowing l n I S T w"
    then have "ownOk l n (deploymentMeta d)"
      using known_owner [OF _ d] by (simp add: knowing_def)
    then have m: "maintains I (ownResult l n deploymentMeta) (apiUpdateDeployment r d)"
      using w by (intro own_updateDeployment) (simp_all add: knowing_def)
    show "knowing l n I ({d'. fst (run_state (apiUpdateDeployment r d) w) = Inr d'} \<union> S) T
        (snd (run_state (apiUpdateDeployment r d) w))"
      using knowing_learns [OF m, where D = "\<lambda>x. {d. x = Inr d}" and E = "\<lambda>_. {}"] w by (simp add: triple_def)
  qed
  show "maintains (knowing l n I S T) (\<lambda>_. True) (apiUpdateService r s)" if s: "knownService T s" for S T s
  proof (cases "controllerOfLaw l \<and> ownOk l n (serviceMeta s)")
    case True
    then show ?thesis by (intro knowing_keeps own_updateService) simp_all
  next
    case False
    then have "\<not> knowing l n I S T w" for w using known_serviceOwner [OF _ s] by (auto simp: knowing_def)
    then show ?thesis by (simp add: maintains_def)
  qed
  show "maintains (knowing l n I {} T) (\<lambda>_. True) (apiCreateDeployment r d)"
    if "libLaws l \<longrightarrow> ownOk l n (deploymentMeta d)" for T d
    by (intro knowing_lawful own_createDeployment) (use that in simp)
  show "maintains (knowing l n I S {}) (\<lambda>_. True) (apiCreateService r s)"
    if "libLaws l \<longrightarrow> ownOk l n (serviceMeta s)" for S s
    by (intro knowing_lawful own_createService) (use that in simp)
qed (intro knowing_keeps own_ticks own_reads own_other_writes)+

section \<open>The server\<close>

interpretation owned: owning_client "storeReconciler pol l" l n "ownedCluster l n" for pol l n
  by unfold_locales
     (simp_all add: store_calls(1) owned_ticks owned_reads owned_other_writes owned_updateDeployment
        owned_updateService owned_createDeployment owned_createService)

lemma knowing_nothing: "libLaws l \<Longrightarrow> controllerOfLaw l \<Longrightarrow> knowing l n I {} {} = I"
  by (rule ext) (simp add: knowing_def)

lemma owned_reconcileProxy:
  assumes "libLaws l" and "controllerOfLaw l"
  shows "maintains (ownedCluster l n) (\<lambda>_. True) (reconcileProxy (storeReconciler pol l) m)"
  using owned.kept_reconcileProxy [of l n pol m] by (simp only: knowing_nothing [OF assms])

lemma owned_reconcileRules:
  assumes "libLaws l" and "controllerOfLaw l"
  shows "maintains (ownedCluster l n) (\<lambda>_. True) (reconcileRules (storeReconciler pol l) m)"
  using owned.kept_reconcileRules [of l n "{}" "{}" pol m] by (simp only: knowing_nothing [OF assms])

end
