(* ===== verification/Events.thy ===== *)
theory Events
  imports Ownership Manager_Setup
begin

text \<open>
  Who is told of a change.  Whoever changes an object, a pass or somebody else, wakes the
  controllers that \<open>SetupWithManager\<close> made watch it: the one whose own kind it is with the key of
  the object, the ones that own the kind with the controlling owner of the old and of the new
  version.  A write that changes nothing but the resource version is no change (the server does
  not store it).  A proxy that is not woken sees the same objects of its name.
\<close>

section \<open>Events\<close>

definition unversioned :: "objectMeta \<Rightarrow> objectMeta" where
  "unversioned m = m\<lparr>metaResourceVersion := 0\<rparr>"

definition changedKeys :: "('a \<Rightarrow> 'a) \<Rightarrow> ('a \<Rightarrow> objectMeta) \<Rightarrow> 'a list \<Rightarrow> 'a list \<Rightarrow> namespacedName list" where
  "changedKeys plain meta xs ys =
     filter (\<lambda>k. map_option plain (findObj meta k xs) \<noteq> map_option plain (findObj meta k ys))
       (map (\<lambda>x. keyOf (meta x)) (xs @ ys))"

text \<open>The metadata of the old and the new version of each changed object.\<close>

definition versionsAt :: "('a \<Rightarrow> objectMeta) \<Rightarrow> namespacedName \<Rightarrow> 'a list \<Rightarrow> objectMeta list" where
  "versionsAt meta k xs = (case findObj meta k xs of None \<Rightarrow> [] | Some x \<Rightarrow> [meta x])"

definition changedMetas :: "('a \<Rightarrow> 'a) \<Rightarrow> ('a \<Rightarrow> objectMeta) \<Rightarrow> 'a list \<Rightarrow> 'a list \<Rightarrow> objectMeta list" where
  "changedMetas plain meta xs ys =
     concat (map (\<lambda>k. versionsAt meta k xs @ versionsAt meta k ys) (changedKeys plain meta xs ys))"

definition changesOf :: "string \<Rightarrow> cluster \<Rightarrow> cluster \<Rightarrow> objectMeta list" where
  "changesOf kind c c' =
     (if kind = ''VillipProxy''
      then changedMetas (proxyMeta_update unversioned) proxyMeta (clProxies c) (clProxies c')
      else if kind = ''VillipRules''
      then changedMetas (rulesMeta_update unversioned) rulesMeta (clRules c) (clRules c')
      else if kind = ''Deployment''
      then changedMetas (deploymentMeta_update unversioned) deploymentMeta (clDeployments c) (clDeployments c')
      else if kind = ''Service''
      then changedMetas (serviceMeta_update unversioned) serviceMeta (clServices c) (clServices c')
      else if kind = ''ConfigMap''
      then changedMetas (configMapMeta_update unversioned) configMapMeta (clConfigMaps c) (clConfigMaps c')
      else [])"

text \<open>What a controller set up with \<open>For\<close> and \<open>Owns\<close> is asked to reconcile.\<close>

definition requestsOf :: "lib \<Rightarrow> controllerSpec \<Rightarrow> cluster \<Rightarrow> cluster \<Rightarrow> namespacedName list" where
  "requestsOf l spec c c' =
     map keyOf (changesOf (ctlFor spec) c c') @
     concat (map (\<lambda>kind. List.map_filter (ownerRequest l (ctlFor spec)) (changesOf kind c c')) (ctlOwns spec))"

definition woken :: "lib \<Rightarrow> cluster \<Rightarrow> cluster \<Rightarrow> request list" where
  "woken l c c' =
     map ProxyPass (requestsOf l (proxyController '''') c c') @
     map RulesPass (requestsOf l (rulesController '''') c c')"

section \<open>Who is woken\<close>

lemma changedMetas_at:
  assumes "map_option plain (findObj meta k xs) \<noteq> map_option plain (findObj meta k ys)"
  shows "\<exists>x. (findObj meta k xs = Some x \<or> findObj meta k ys = Some x) \<and>
    keyOf (meta x) = k \<and> meta x \<in> set (changedMetas plain meta xs ys)"
proof -
  obtain x where x: "findObj meta k xs = Some x \<or> findObj meta k ys = Some x"
    using assms by (cases "findObj meta k xs"; cases "findObj meta k ys") auto
  then have "x \<in> set (xs @ ys)" "keyOf (meta x) = k" by (auto dest: findObj_in findObj_key)
  then have "k \<in> set (changedKeys plain meta xs ys)"
    using assms by (auto simp: changedKeys_def)
  moreover have "meta x \<in> set (versionsAt meta k xs @ versionsAt meta k ys)"
    using x by (auto simp: versionsAt_def)
  ultimately have "meta x \<in> set (changedMetas plain meta xs ys)"
    by (auto simp: changedMetas_def)
  with x \<open>keyOf (meta x) = k\<close> show ?thesis by blast
qed

lemma in_map_filter: "y \<in> set (List.map_filter f xs) \<longleftrightarrow> (\<exists>x \<in> set xs. f x = Some y)"
  by (induction xs) (auto simp: List.map_filter_simps split: option.splits)

lemma in_requestsOf:
  "n \<in> set (requestsOf l spec c c') \<longleftrightarrow>
     (\<exists>m \<in> set (changesOf (ctlFor spec) c c'). keyOf m = n) \<or>
     (\<exists>kind \<in> set (ctlOwns spec). \<exists>m \<in> set (changesOf kind c c'). ownerRequest l (ctlFor spec) m = Some n)"
  by (auto simp: requestsOf_def in_map_filter)

lemma woken_proxies:
  "ProxyPass n \<in> set (woken l c c') \<longleftrightarrow>
     (\<exists>m \<in> set (changesOf ''VillipProxy'' c c'). keyOf m = n) \<or>
     (\<exists>kind \<in> {''Service'', ''Deployment''}. \<exists>m \<in> set (changesOf kind c c').
        ownerRequest l ''VillipProxy'' m = Some n)"
proof -
  have "ProxyPass n \<in> set (woken l c c') \<longleftrightarrow> n \<in> set (requestsOf l (proxyController '''') c c')"
    by (auto simp: woken_def)
  then show ?thesis unfolding in_requestsOf by (simp add: proxyController_def)
qed

text \<open>A proxy that is not woken sees the same objects of its name, up to the resource version.\<close>

definition sameNamed :: "namespacedName \<Rightarrow> cluster \<Rightarrow> cluster \<Rightarrow> bool" where
  "sameNamed n c c' \<longleftrightarrow>
     map_option (proxyMeta_update unversioned) (findObj proxyMeta n (clProxies c)) =
       map_option (proxyMeta_update unversioned) (findObj proxyMeta n (clProxies c')) \<and>
     map_option (deploymentMeta_update unversioned) (findObj deploymentMeta n (clDeployments c)) =
       map_option (deploymentMeta_update unversioned) (findObj deploymentMeta n (clDeployments c')) \<and>
     map_option (serviceMeta_update unversioned) (findObj serviceMeta n (clServices c)) =
       map_option (serviceMeta_update unversioned) (findObj serviceMeta n (clServices c'))"

lemma owner_of_changed:
  assumes "\<forall>x \<in> set xs. ownOk l n (meta x)" and "\<forall>x \<in> set ys. ownOk l n (meta x)"
    and "map_option plain (findObj meta n xs) \<noteq> map_option plain (findObj meta n ys)"
  shows "\<exists>m \<in> set (changedMetas plain meta xs ys). ownerRequest l ''VillipProxy'' m = Some n"
proof -
  obtain x where x: "findObj meta n xs = Some x \<or> findObj meta n ys = Some x" "keyOf (meta x) = n"
    "meta x \<in> set (changedMetas plain meta xs ys)"
    using changedMetas_at [OF assms(3)] by blast
  then have "ownOk l n (meta x)" using assms(1,2) by (auto dest: findObj_in)
  with x show ?thesis by (auto simp: ownOk_def)
qed

lemma asleep_sameNamed:
  assumes "ownedCluster l n c" and "ownedCluster l n c'" and "ProxyPass n \<notin> set (woken l c c')"
  shows "sameNamed n c c'"
  unfolding sameNamed_def
proof (intro conjI; rule ccontr)
  assume "map_option (proxyMeta_update unversioned) (findObj proxyMeta n (clProxies c)) \<noteq>
    map_option (proxyMeta_update unversioned) (findObj proxyMeta n (clProxies c'))"
  from changedMetas_at [OF this] show False
    using assms(3) by (auto simp: woken_proxies changesOf_def)
next
  assume "map_option (deploymentMeta_update unversioned) (findObj deploymentMeta n (clDeployments c)) \<noteq>
    map_option (deploymentMeta_update unversioned) (findObj deploymentMeta n (clDeployments c'))"
  with assms(1,2) have "\<exists>m \<in> set (changesOf ''Deployment'' c c'). ownerRequest l ''VillipProxy'' m = Some n"
    by (simp add: ownedCluster_def changesOf_def owner_of_changed)
  with assms(3) show False by (auto simp: woken_proxies)
next
  assume "map_option (serviceMeta_update unversioned) (findObj serviceMeta n (clServices c)) \<noteq>
    map_option (serviceMeta_update unversioned) (findObj serviceMeta n (clServices c'))"
  with assms(1,2) have "\<exists>m \<in> set (changesOf ''Service'' c c'). ownerRequest l ''VillipProxy'' m = Some n"
    by (simp add: ownedCluster_def changesOf_def owner_of_changed)
  with assms(3) show False by (auto simp: woken_proxies)
qed

section \<open>Settled proxies\<close>

text \<open>What the last quiet pass over a proxy has established.\<close>

definition settled :: "lib \<Rightarrow> namespacedName \<Rightarrow> cluster \<Rightarrow> bool" where
  "settled l n c \<longleftrightarrow>
     (case findObj proxyMeta n (clProxies c) of
        None \<Rightarrow> True
      | Some p \<Rightarrow>
          metaDeletionTimestamp (proxyMeta p) \<noteq> None \<or>
          (\<exists>d s. findObj deploymentMeta n (clDeployments c) = Some d \<and>
             findObj serviceMeta n (clServices c) = Some s \<and>
             deploymentReplicas (deploymentSpec d) = Some (specSize (proxySpec p)) \<and>
             portsAligned l p d s \<and> availableNow l c n))"

lemma plain_proxy:
  assumes "proxyMeta_update unversioned p = proxyMeta_update unversioned q"
  shows "proxySpec q = proxySpec p" "proxyStatus q = proxyStatus p"
    "metaName (proxyMeta q) = metaName (proxyMeta p)"
    "metaDeletionTimestamp (proxyMeta q) = metaDeletionTimestamp (proxyMeta p)"
proof -
  have "unversioned (proxyMeta p) = unversioned (proxyMeta q)" and s: "proxySpec q = proxySpec p" "proxyStatus q = proxyStatus p"
    using assms by (cases p; cases q; simp)+
  then show "metaName (proxyMeta q) = metaName (proxyMeta p)"
    "metaDeletionTimestamp (proxyMeta q) = metaDeletionTimestamp (proxyMeta p)"
    by (cases "proxyMeta p"; cases "proxyMeta q"; simp add: unversioned_def)+
  show "proxySpec q = proxySpec p" "proxyStatus q = proxyStatus p" by (rule s)+
qed

lemma plain_workload:
  "deploymentMeta_update unversioned d = deploymentMeta_update unversioned e \<Longrightarrow> deploymentSpec e = deploymentSpec d"
  "serviceMeta_update unversioned s = serviceMeta_update unversioned t \<Longrightarrow> serviceSpec t = serviceSpec s"
  by (cases d; cases e; simp) (cases s; cases t; simp)

lemma settled_sameNamed:
  assumes "sameNamed n c c'" and "settled l n c"
  shows "settled l n c'"
proof (cases "findObj proxyMeta n (clProxies c')")
  case None
  then show ?thesis by (simp add: settled_def)
next
  case (Some q)
  then obtain p where p: "findObj proxyMeta n (clProxies c) = Some p"
    "proxyMeta_update unversioned p = proxyMeta_update unversioned q"
    using assms(1) by (cases "findObj proxyMeta n (clProxies c)") (auto simp: sameNamed_def)
  note pq = plain_proxy [OF p(2)]
  show ?thesis
  proof (cases "metaDeletionTimestamp (proxyMeta p) = None")
    case True
    then obtain d s where ds: "findObj deploymentMeta n (clDeployments c) = Some d"
      "findObj serviceMeta n (clServices c) = Some s"
      "deploymentReplicas (deploymentSpec d) = Some (specSize (proxySpec p))" "portsAligned l p d s"
      "availableNow l c n"
      using assms(2) p(1) by (auto simp: settled_def)
    obtain e where e: "findObj deploymentMeta n (clDeployments c') = Some e" "deploymentSpec e = deploymentSpec d"
      using assms(1) ds(1) plain_workload(1)
      by (cases "findObj deploymentMeta n (clDeployments c')") (auto simp: sameNamed_def)
    obtain t where t: "findObj serviceMeta n (clServices c') = Some t" "serviceSpec t = serviceSpec s"
      using assms(1) ds(2) plain_workload(2)
      by (cases "findObj serviceMeta n (clServices c')") (auto simp: sameNamed_def)
    have "availableNow l c' n"
      using ds(5) Some p(1) pq by (auto simp: availableNow_def proxyAvailable_def)
    then show ?thesis
      using ds(3,4) pq e t Some by (simp add: settled_def portsAligned_def)
  qed (use Some pq in \<open>simp add: settled_def\<close>)
qed

end
