(* ===== verification/Work_Queue.thy ===== *)
theory Work_Queue
  imports Events
begin

text \<open>
  The operator as controller-runtime drives it: a machine whose state is the world and the set
  of requests that wait in the two work queues.  The runtime is not in the repository; the
  machine has its documented behaviour.  A pass takes one request out; it comes back when the
  pass fails, panics or asks to be run again.  Changes wake the controllers that watch the object
  (\<open>Events\<close>).

  With all this, a proxy whose request does not wait is settled: the operator does not miss a
  drift of the objects it watches.
\<close>

section \<open>The machine\<close>

record 'w machine =
  world :: 'w
  pending :: "request set"

text \<open>One request: whether it comes back, and the world afterwards.\<close>

fun passOf :: "'w reconciler \<Rightarrow> request \<Rightarrow> 'w \<Rightarrow> bool \<times> 'w" where
  "passOf r (ProxyPass n) w =
     (case run_state (reconcileProxy r n) w of (x, w') \<Rightarrow> (x \<noteq> Value (noRequeue, None), w'))"
| "passOf r (RulesPass n) w =
     (case run_state (reconcileRules r n) w of (x, w') \<Rightarrow> (x \<noteq> (noRequeue, None), w'))"

definition afterPass :: "('w \<Rightarrow> cluster) \<Rightarrow> 'w reconciler \<Rightarrow> request \<Rightarrow> 'w machine \<Rightarrow> 'w machine" where
  "afterPass \<alpha> r q m =
     (case passOf r q (world m) of
        (again, w') \<Rightarrow>
          \<lparr>world = w',
           pending = pending m - {q} \<union> (if again then {q} else {}) \<union> set (woken (lib r) (\<alpha> (world m)) (\<alpha> w'))\<rparr>)"

lemma afterPass_run:
  "passOf r q (world m) = (again, w') \<Longrightarrow>
     afterPass \<alpha> r q m =
       \<lparr>world = w',
        pending = pending m - {q} \<union> (if again then {q} else {}) \<union> set (woken (lib r) (\<alpha> (world m)) (\<alpha> w'))\<rparr>"
  by (simp add: afterPass_def)

text \<open>
  A step: a pass over a waiting request, or an edit by somebody else, which may be any change of
  the world into one that \<open>allowed\<close> admits.  The queue may hold more than it has to: the
  runtime may ask for passes of its own accord, as in a resync.
\<close>

inductive opStep ::
  "('w \<Rightarrow> cluster) \<Rightarrow> 'w reconciler \<Rightarrow> (cluster \<Rightarrow> bool) \<Rightarrow> 'w machine \<Rightarrow> 'w machine \<Rightarrow> bool"
  for \<alpha> r allowed where
  pass: "q \<in> pending m \<Longrightarrow> pending (afterPass \<alpha> r q m) \<subseteq> waiting \<Longrightarrow>
    opStep \<alpha> r allowed m ((afterPass \<alpha> r q m)\<lparr>pending := waiting\<rparr>)"
| edit: "allowed (\<alpha> w') \<Longrightarrow> pending m \<union> set (woken (lib r) (\<alpha> (world m)) (\<alpha> w')) \<subseteq> waiting \<Longrightarrow>
    opStep \<alpha> r allowed m \<lparr>world = w', pending = waiting\<rparr>"

lemma opStep_afterPass: "q \<in> pending m \<Longrightarrow> opStep \<alpha> r allowed m (afterPass \<alpha> r q m)"
  using opStep.pass [of q m \<alpha> r "pending (afterPass \<alpha> r q m)"] by simp

inductive opReach ::
  "('w \<Rightarrow> cluster) \<Rightarrow> 'w reconciler \<Rightarrow> (cluster \<Rightarrow> bool) \<Rightarrow> 'w machine \<Rightarrow> 'w machine \<Rightarrow> bool"
  for \<alpha> r allowed m0 where
  start: "opReach \<alpha> r allowed m0 m0"
| step: "opReach \<alpha> r allowed m0 m \<Longrightarrow> opStep \<alpha> r allowed m m' \<Longrightarrow> opReach \<alpha> r allowed m0 m'"

section \<open>No drift goes unnoticed\<close>

lemma owned_passOf:
  assumes "libLaws l" and "controllerOfLaw l" and "ownedCluster l n c"
  shows "ownedCluster l n (snd (passOf (storeReconciler pol l) q c))"
proof (cases q)
  case (ProxyPass m)
  then show ?thesis
    using owned_reconcileProxy [OF assms(1,2), of n pol m] assms(3) by (simp add: maintains_def split_beta)
next
  case (RulesPass m)
  then show ?thesis
    using owned_reconcileRules [OF assms(1,2), of n pol m] assms(3) by (simp add: maintains_def split_beta)
qed

lemma quiet_pass_settles:
  assumes "libLaws l" and "ownedCluster l n c" and "sameNamed n c c'"
    and "passOf (storeReconciler pol l) (ProxyPass n) c = (False, c')"
  shows "settled l n c'"
proof -
  have run: "run_state (reconcileProxy (storeReconciler pol l) n) c = (Value (noRequeue, None), c')"
    using assms(4) by (simp split: prod.splits)
  have honest: "\<And>e. Some e \<in> set (clFaults c) \<Longrightarrow> \<not> isNotFound e"
    using assms(2) by (simp add: ownedCluster_def)
  have "settled l n c \<or> settled l n c'"
    using quiet_pass [OF assms(1) _ run] honest by (fastforce simp: settled_def portsAligned_def)
  then show ?thesis using settled_sameNamed [OF assms(3)] by blast
qed

definition watchful :: "lib \<Rightarrow> namespacedName \<Rightarrow> cluster machine \<Rightarrow> bool" where
  "watchful l n m \<longleftrightarrow> ownedCluster l n (world m) \<and> (ProxyPass n \<in> pending m \<or> settled l n (world m))"

lemma watchful_more: "watchful l n m \<Longrightarrow> pending m \<subseteq> waiting \<Longrightarrow> watchful l n (m\<lparr>pending := waiting\<rparr>)"
  by (auto simp: watchful_def)

lemma watchful_pass:
  assumes "libLaws l" and "controllerOfLaw l" and "watchful l n m"
  shows "watchful l n (afterPass (\<lambda>c. c) (storeReconciler pol l) q m)"
proof -
  obtain again c' where run: "passOf (storeReconciler pol l) q (world m) = (again, c')" by fastforce
  have own: "ownedCluster l n (world m)" "ownedCluster l n c'"
    using assms owned_passOf [OF assms(1,2), of n "world m" pol q] run by (simp_all add: watchful_def)
  have after: "world (afterPass (\<lambda>c. c) (storeReconciler pol l) q m) = c'"
    "pending (afterPass (\<lambda>c. c) (storeReconciler pol l) q m) =
       pending m - {q} \<union> (if again then {q} else {}) \<union> set (woken l (world m) c')"
    by (simp_all add: afterPass_run [OF run] store_calls(1))
  have "settled l n c'" if asleep: "ProxyPass n \<notin> pending m - {q} \<union> (if again then {q} else {}) \<union> set (woken l (world m) c')"
  proof -
    have same: "sameNamed n (world m) c'" using asleep by (intro asleep_sameNamed [OF own]) simp
    show ?thesis
    proof (cases "q = ProxyPass n")
      case True
      then show ?thesis using quiet_pass_settles [OF assms(1) own(1) same] run asleep by (simp split: if_splits)
    next
      case False
      then have "settled l n (world m)" using assms(3) asleep by (auto simp: watchful_def)
      then show ?thesis by (rule settled_sameNamed [OF same])
    qed
  qed
  then show ?thesis unfolding watchful_def after using own(2) by blast
qed

lemma watchful_edit:
  assumes "watchful l n m" and "ownedCluster l n c'" and "pending m \<union> set (woken l (world m) c') \<subseteq> waiting"
  shows "watchful l n \<lparr>world = c', pending = waiting\<rparr>"
  using assms asleep_sameNamed [OF _ assms(2), of "world m"] settled_sameNamed [of n "world m" c' l]
  by (auto simp: watchful_def)

text \<open>The machine of a client, seen through its abstraction.\<close>

definition seenMachine :: "('w \<Rightarrow> cluster) \<Rightarrow> 'w machine \<Rightarrow> cluster machine" where
  "seenMachine \<alpha> m = \<lparr>world = \<alpha> (world m), pending = pending m\<rparr>"

lemma passOf_refines:
  assumes "refines \<alpha> r r'" and "passOf r q w = (again, w')"
  shows "passOf r' q (\<alpha> w) = (again, \<alpha> w')"
proof (cases q)
  case (ProxyPass n)
  then show ?thesis
    using assms(2) simulatesD [OF refines_reconcileProxy [OF assms(1)], of n w] by (auto split: prod.splits)
next
  case (RulesPass n)
  then show ?thesis
    using assms(2) simulatesD [OF refines_reconcileRules [OF assms(1)], of n w] by (auto split: prod.splits)
qed

lemma passOf_transfer:
  "behavesLike \<alpha> pol r \<Longrightarrow> passOf r q w = (again, w') \<Longrightarrow>
     passOf (storeReconciler pol (lib r)) q (\<alpha> w) = (again, \<alpha> w')"
  unfolding behavesLike_def by (rule passOf_refines)

lemma seen_afterPass:
  assumes "behavesLike \<alpha> pol r"
  shows "seenMachine \<alpha> (afterPass \<alpha> r q m) = afterPass (\<lambda>c. c) (storeReconciler pol (lib r)) q (seenMachine \<alpha> m)"
proof -
  obtain again w' where run: "passOf r q (world m) = (again, w')" by fastforce
  show ?thesis
    using passOf_transfer [OF assms run] by (simp add: seenMachine_def afterPass_def run store_calls(1))
qed

lemma watchful_reach:
  assumes "behavesLike \<alpha> pol r" and "libLaws (lib r)" and "controllerOfLaw (lib r)"
    and "\<And>c. allowed c \<Longrightarrow> ownedCluster (lib r) n c"
    and "opReach \<alpha> r allowed m0 m" and "watchful (lib r) n (seenMachine \<alpha> m0)"
  shows "watchful (lib r) n (seenMachine \<alpha> m)"
  using assms(5)
proof induction
  case start
  show ?case by (rule assms(6))
next
  case (step m m')
  from step(2) show ?case
  proof cases
    case (pass q waiting)
    have "watchful (lib r) n (seenMachine \<alpha> (afterPass \<alpha> r q m))"
      using watchful_pass [OF assms(2,3) step.IH] by (simp add: seen_afterPass [OF assms(1)])
    from watchful_more [OF this, of waiting] show ?thesis using pass by (simp add: seenMachine_def)
  next
    case (edit w' waiting)
    have "watchful (lib r) n \<lparr>world = \<alpha> w', pending = waiting\<rparr>"
      by (rule watchful_edit [OF step.IH assms(4) [OF edit(2)]]) (use edit(3) in \<open>simp add: seenMachine_def\<close>)
    then show ?thesis by (simp add: edit seenMachine_def)
  qed
qed

text \<open>The operator does not miss a drift.  Start with the proxy's request waiting, as after the
  first list of the informers, and let passes over any objects, failing requests, resyncs and
  arbitrary edits by others follow in any order, as long as the edits leave the Deployment and the
  Service of the name to the proxy.  Then at every moment the request of the proxy waits to be
  served, or the proxy is gone or going, or its Deployment and its Service have the right size
  and ports and its status says Available.\<close>

lemma no_drift_unnoticed:
  assumes "behavesLike \<alpha> pol r" and "libLaws (lib r)" and "controllerOfLaw (lib r)"
    and "\<And>c. allowed c \<Longrightarrow> ownedCluster (lib r) n c"
    and "opReach \<alpha> r allowed m0 m" and "ownedCluster (lib r) n (\<alpha> (world m0))" and "ProxyPass n \<in> pending m0"
  shows "ProxyPass n \<in> pending m \<or> settled (lib r) n (\<alpha> (world m))"
  using watchful_reach [OF assms(1-5)] assms(6,7) by (simp add: watchful_def seenMachine_def)

end
