(* ===== verification/Queue_Drain.thy ===== *)
theory Queue_Drain
  imports Work_Queue Operator_Schedule
begin

text \<open>
  The queue comes to rest.  Every pass of the operator writes the status of the object it
  reconciles, and that write is an event of the object's own kind.  The loop ends only because a
  status that says the same again is not a change: the last pass leaves everything but the
  resource version as it found it, and so wakes nobody.
\<close>

section \<open>Writes that wake nobody\<close>

text \<open>\<open>SetStatusCondition\<close> leaves a condition alone that already says the same: the
  transition time changes with the status only.\<close>

definition quietConditionLaw :: "lib \<Rightarrow> bool" where
  "quietConditionLaw l \<longleftrightarrow>
     (\<forall>t cs c d. conditionOf (conditionType c) cs = Some d \<and> sameVerdict d c \<longrightarrow>
        setStatusConditionAt l t cs c = cs)"

lemma changedMetas_same [simp]: "changedMetas plain meta xs xs = []"
  by (simp add: changedMetas_def changedKeys_def)

lemma changedMetas_rewrite:
  assumes "findObj meta n xs = Some x" and "plain y = plain x" and "keyOf (meta y) = n"
  shows "changedMetas plain meta xs (replaceObj meta y xs) = []"
proof -
  have "map_option plain (findObj meta k (replaceObj meta y xs)) = map_option plain (findObj meta k xs)" for k
    using assms by (auto simp: findObj_replaceObj split: option.split)
  then show ?thesis by (simp add: changedMetas_def changedKeys_def)
qed

lemma withCondition_same:
  assumes "quietConditionLaw l"
    and "conditionOf (conditionType cond) (proxyConditions (proxyStatus p)) = Some d" and "sameVerdict d cond"
  shows "proxyMeta_update unversioned (withProxyCondition l t cond p) = proxyMeta_update unversioned p"
proof -
  have "setStatusConditionAt l t (proxyConditions (proxyStatus p)) cond = proxyConditions (proxyStatus p)"
    using assms unfolding quietConditionLaw_def by blast
  then show ?thesis by (simp add: withProxyCondition_def unversioned_def bump_def)
qed

text \<open>A pass over an aligned proxy that is already reported as available wakes nobody.\<close>

lemma aligned_pass_silent:
  assumes "libLaws l" and "quietConditionLaw l" and "healthy n c" and "proxyPhase l c n = Aligned"
    and "availableNow l c n"
  shows "\<exists>c'. run_state (reconcileProxy (storeReconciler pol l) n) c = (Value (noRequeue, None), c') \<and>
    ProxyPass n \<notin> set (woken l c c')"
proof -
  obtain c' p t where p: "passTo pol l n c noRequeue c'" "findObj proxyMeta n (clProxies c) = Some p"
    and same: "clDeployments c' = clDeployments c" "clServices c' = clServices c"
    and c': "clProxies c' = replaceObj proxyMeta
      (withProxyCondition l t (proxyAvailable p (specSize (proxySpec p))) p) (clProxies c)"
    using pass_Aligned [OF assms(1,3,4), of pol] by blast
  let ?av = "proxyAvailable p (specSize (proxySpec p))"
  obtain d where "conditionOf (conditionType ?av) (proxyConditions (proxyStatus p)) = Some d" "sameVerdict d ?av"
    using assms(5) p(2) by (auto simp: availableNow_def proxyAvailable_def mkCondition_def)
  then have "proxyMeta_update unversioned (withProxyCondition l t ?av p) = proxyMeta_update unversioned p"
    by (rule withCondition_same [OF assms(2)])
  then have "changedMetas (proxyMeta_update unversioned) proxyMeta (clProxies c) (clProxies c') = []"
    unfolding c' by (rule changedMetas_rewrite [OF p(2)]) (simp add: findObj_key [OF p(2)])
  then have "ProxyPass n \<notin> set (woken l c c')"
    by (simp add: woken_proxies changesOf_def same)
  with p(1) show ?thesis by (auto simp: passTo_def)
qed

section \<open>Under any interleaving\<close>

text \<open>The requests served, in order, between two states of the machine when nobody else writes.\<close>

inductive served ::
  "('w \<Rightarrow> cluster) \<Rightarrow> 'w reconciler \<Rightarrow> 'w machine \<Rightarrow> request list \<Rightarrow> 'w machine \<Rightarrow> bool"
  for \<alpha> r m0 where
  nothing: "served \<alpha> r m0 [] m0"
| another: "served \<alpha> r m0 qs m \<Longrightarrow> q \<in> pending m \<Longrightarrow> served \<alpha> r m0 (qs @ [q]) (afterPass \<alpha> r q m)"

lemma afterPass_world [simp]: "world (afterPass \<alpha> r q m) = runRequest r q (world m)"
  by (cases q) (simp_all add: afterPass_def split_beta)

lemma served_world: "served \<alpha> r m0 qs m \<Longrightarrow> world m = runSchedule r qs (world m0)"
  by (induction rule: served.induct) (simp_all add: runSchedule_append)

lemma served_seen:
  assumes "behavesLike \<alpha> pol r" and "served \<alpha> r m0 qs m"
  shows "served (\<lambda>c. c) (storeReconciler pol (lib r)) (seenMachine \<alpha> m0) qs (seenMachine \<alpha> m)"
  using assms(2)
proof induction
  case nothing
  show ?case by (rule served.nothing)
next
  case (another qs m q)
  have "q \<in> pending (seenMachine \<alpha> m)" using another(2) by (simp add: seenMachine_def)
  then show ?case using served.another [OF another.IH] by (simp add: seen_afterPass [OF assms(1)])
qed

lemma served_reach: "served \<alpha> r m0 qs m \<Longrightarrow> opReach \<alpha> r allowed m0 m"
  by (induction rule: served.induct) (auto intro: opReach.intros opStep_afterPass)

lemma served_funpow:
  assumes "\<And>j. j < k \<Longrightarrow> q \<in> pending ((afterPass \<alpha> r q ^^ j) m)"
  shows "served \<alpha> r m (replicate k q) ((afterPass \<alpha> r q ^^ k) m)"
  using assms
proof (induction k)
  case (Suc k)
  then have "served \<alpha> r m (replicate k q @ [q]) (afterPass \<alpha> r q ((afterPass \<alpha> r q ^^ k) m))"
    by (intro served.another) simp_all
  then show ?case by (simp add: replicate_append_same)
qed (simp add: served.nothing)

text \<open>A pass over another proxy wakes nobody but the owner of its own objects.\<close>

lemma sameAway_changed:
  assumes "sameAway meta m xs ys" and "mm \<in> set (changedMetas plain meta xs ys)"
  shows "keyOf mm = m \<and> (\<exists>x \<in> set xs \<union> set ys. mm = meta x)"
proof -
  obtain k x where k: "k \<in> set (changedKeys plain meta xs ys)" and x: "mm = meta x"
    "findObj meta k xs = Some x \<or> findObj meta k ys = Some x"
    using assms(2) by (auto simp: changedMetas_def versionsAt_def split: option.splits)
  have "k = m"
  proof (rule ccontr)
    assume "k \<noteq> m"
    from sameAway_find [OF assms(1) this] k show False by (simp add: changedKeys_def)
  qed
  with x show ?thesis by (auto dest: findObj_key findObj_in)
qed

lemma ownOk_owner: "ownOk l n mm \<Longrightarrow> ownerRequest l ''VillipProxy'' mm = Some k \<Longrightarrow> k = keyOf mm"
  by (auto simp: ownOk_def)

lemma frame_not_woken:
  assumes "proxyFrame m c c'" and "ownedCluster l n c" and "ownedCluster l n c'" and "m \<noteq> n"
  shows "ProxyPass n \<notin> set (woken l c c')"
proof
  have own: "\<And>d. d \<in> set (clDeployments c) \<union> set (clDeployments c') \<Longrightarrow> ownOk l n (deploymentMeta d)"
    "\<And>d. d \<in> set (clServices c) \<union> set (clServices c') \<Longrightarrow> ownOk l n (serviceMeta d)"
    using assms(2,3) by (auto simp: ownedCluster_def)
  have away: "sameAway proxyMeta m (clProxies c) (clProxies c')"
    "sameAway deploymentMeta m (clDeployments c) (clDeployments c')"
    "sameAway serviceMeta m (clServices c) (clServices c')"
    using assms(1) by (simp_all add: proxyFrame_def)
  assume "ProxyPass n \<in> set (woken l c c')"
  then consider (own) mm where "mm \<in> set (changesOf ''VillipProxy'' c c')" "keyOf mm = n"
    | (svc) mm where "mm \<in> set (changesOf ''Service'' c c')" "ownerRequest l ''VillipProxy'' mm = Some n"
    | (dep) mm where "mm \<in> set (changesOf ''Deployment'' c c')" "ownerRequest l ''VillipProxy'' mm = Some n"
    by (auto simp: woken_proxies)
  then show False
  proof cases
    case own
    then show ?thesis using sameAway_changed [OF away(1), of mm] assms(4) by (simp add: changesOf_def)
  next
    case svc
    then have "keyOf mm = m" "ownOk l n mm"
      using sameAway_changed [OF away(3), of mm] own(2) by (auto simp: changesOf_def)
    then show ?thesis using ownOk_owner [OF _ svc(2)] assms(4) by blast
  next
    case dep
    then have "keyOf mm = m" "ownOk l n mm"
      using sameAway_changed [OF away(2), of mm] own(1) by (auto simp: changesOf_def)
    then show ?thesis using ownOk_owner [OF _ dep(2)] assms(4) by blast
  qed
qed

lemma changesOf_same [simp]: "changesOf kind c c = []"
  by (simp add: changesOf_def)

lemma woken_same [simp]: "woken l c c = []"
  by (simp add: woken_def requestsOf_def List.map_filter_simps)

text \<open>One more pass of each kind, on the reference server.\<close>

lemma afterPass_pending:
  "ProxyPass n \<in> pending (afterPass \<alpha> r q m) \<longleftrightarrow>
     ProxyPass n \<in> pending m \<and> q \<noteq> ProxyPass n \<or> q = ProxyPass n \<and> fst (passOf r q (world m)) \<or>
     ProxyPass n \<in> set (woken (lib r) (\<alpha> (world m)) (\<alpha> (runRequest r q (world m))))"
  by (cases q) (auto simp: afterPass_def split_beta)

lemma own_pass_drains:
  assumes "libLaws l" and "quietConditionLaw l" and "obliging pol l n" and "healthy n (world m)"
  defines "m' \<equiv> afterPass (\<lambda>c. c) (storeReconciler pol l) (ProxyPass n) m"
  shows "proxyPhase l (world m) n = Aligned \<Longrightarrow> availableNow l (world m) n \<Longrightarrow> ProxyPass n \<notin> pending m'"
    and "ProxyPass n \<in> pending m' \<or> proxyPhase l (world m') n = Aligned \<and> availableNow l (world m') n"
proof -
  obtain res c' where st: "passTo pol l n (world m) res c'" and quiet: "res = noRequeue \<longleftrightarrow> proxyPhase l (world m) n = Aligned"
    using one_pass_result [OF assms(1,3,4)] by blast
  have run: "run_state (reconcileProxy (storeReconciler pol l) n) (world m) = (Value (res, None), c')"
    and step: "phaseStep (proxyPhase l (world m) n) (proxyPhase l c' n)"
    using st by (simp_all add: passTo_def)
  have pend: "ProxyPass n \<in> pending m' \<longleftrightarrow> res \<noteq> noRequeue \<or> ProxyPass n \<in> set (woken l (world m) c')"
    and w: "world m' = c'"
    by (simp_all add: m'_def afterPass_pending run store_calls(1))
  show "proxyPhase l (world m) n = Aligned \<Longrightarrow> availableNow l (world m) n \<Longrightarrow> ProxyPass n \<notin> pending m'"
    using aligned_pass_silent [OF assms(1,2,4), of pol] run quiet by (auto simp: pend)
  have "availableNow l c' n" if "proxyPhase l (world m) n = Aligned"
    using pass_Aligned [OF assms(1,4) that, of pol] run by (auto simp: passTo_def)
  then show "ProxyPass n \<in> pending m' \<or> proxyPhase l (world m') n = Aligned \<and> availableNow l (world m') n"
    using pend quiet step by (auto simp: w)
qed

lemma other_pass_drains:
  fixes pol :: policy
  assumes "libLaws l" and "controllerOfLaw l" and "healthy n (world m)" and "ownedCluster l n (world m)"
    and "q = ProxyPass k \<and> k \<noteq> n \<or> q = RulesPass k \<and> inSync l (world m) k"
  defines "m' \<equiv> afterPass (\<lambda>c. c) (storeReconciler pol l) q m"
  shows "ProxyPass n \<in> pending m' \<longleftrightarrow> ProxyPass n \<in> pending m"
    and "proxyPhase l (world m') n = proxyPhase l (world m) n"
    and "availableNow l (world m') n \<longleftrightarrow> availableNow l (world m) n"
proof -
  have nofault: "clFaults (world m) = []" using assms(3) by (simp add: healthy_def)
  let ?e = "runRequest (storeReconciler pol l) q (world m)"
  have "ProxyPass n \<notin> set (woken l (world m) ?e) \<and> proxyPhase l ?e n = proxyPhase l (world m) n \<and>
      (availableNow l ?e n \<longleftrightarrow> availableNow l (world m) n)"
    using assms(5)
  proof
    assume q: "q = ProxyPass k \<and> k \<noteq> n"
    then have fr: "proxyFrame k (world m) ?e" using proxyPass_frame [OF assms(1)] by simp
    have own: "ownedCluster l n ?e"
      using owned_passOf [OF assms(1,2,4), of pol q] q by (simp add: split_beta)
    show ?thesis
      using frame_not_woken [OF fr assms(4) own] proxy_undisturbed(2,3) [OF fr _ nofault] q by blast
  next
    assume q: "q = RulesPass k \<and> inSync l (world m) k"
    then have "?e = world m" using inSync_pass [OF assms(1)] by simp
    then show ?thesis by simp
  qed
  then show "ProxyPass n \<in> pending m' \<longleftrightarrow> ProxyPass n \<in> pending m"
    and "proxyPhase l (world m') n = proxyPhase l (world m) n"
    and "availableNow l (world m') n \<longleftrightarrow> availableNow l (world m) n"
    using assms(5) by (auto simp: m'_def afterPass_pending store_calls(1))
qed

lemma served_drains:
  assumes "libLaws l" and "controllerOfLaw l" and "quietConditionLaw l" and "obliging pol l n"
    and "healthy n (world m0)" and "ownedCluster l n (world m0)" and "ProxyPass n \<in> pending m0"
    and "served (\<lambda>c. c) (storeReconciler pol l) m0 qs m"
    and "\<And>k. RulesPass k \<in> set qs \<Longrightarrow> inSync l (world m0) k"
  defines "b \<equiv> rank (proxyPhase l (world m0) n)"
  shows "ownedCluster l n (world m) \<and>
    (let k = count_list qs (ProxyPass n) in k \<le> Suc b \<or> k \<le> Suc (Suc b) \<and> ProxyPass n \<notin> pending m) \<and>
    (ProxyPass n \<in> pending m \<or> proxyPhase l (world m) n = Aligned \<and> availableNow l (world m) n)"
  using assms(8,9)
proof induction
  case nothing
  then show ?case using assms(6,7) by simp
next
  case (another qs m q)
  let ?s = "storeReconciler pol l" and ?k = "count_list qs (ProxyPass n)"
  let ?m' = "afterPass (\<lambda>c. c) ?s q m"
  have own: "ownedCluster l n (world m)"
    and cnt: "?k \<le> Suc b \<or> ?k \<le> Suc (Suc b) \<and> ProxyPass n \<notin> pending m"
    and rest: "ProxyPass n \<in> pending m \<or> proxyPhase l (world m) n = Aligned \<and> availableNow l (world m) n"
    using another.IH another.prems by (simp_all add: Let_def)
  have inv: "healthy n (world m)" "\<And>k. inSync l (world m0) k \<Longrightarrow> inSync l (world m) k"
    "if proxyPhase l (world m) n = Aligned then b < ?k \<longrightarrow> availableNow l (world m) n
     else rank (proxyPhase l (world m) n) + ?k \<le> b"
    using schedule_inv [OF assms(1,4,5), of qs] another.prems served_world [OF another(1)]
    by (simp_all add: Let_def b_def)
  have own': "ownedCluster l n (world ?m')"
    using owned_passOf [OF assms(1,2) own, of pol q] by (cases q) (simp_all add: split_beta)
  show ?case
  proof (cases "q = ProxyPass n")
    case True
    note step = own_pass_drains [OF assms(1,3,4) inv(1), folded True]
    have "?k \<le> Suc b" using cnt another(2) True by blast
    moreover have "ProxyPass n \<notin> pending ?m'" if "?k = Suc b"
      using step(1) inv(3) that True by (simp split: if_splits)
    ultimately have "Suc ?k \<le> Suc b \<or> Suc ?k \<le> Suc (Suc b) \<and> ProxyPass n \<notin> pending ?m'" by force
    with own' step(2) show ?thesis by (simp add: True Let_def)
  next
    case False
    obtain k where "q = ProxyPass k \<and> k \<noteq> n \<or> q = RulesPass k \<and> inSync l (world m) k"
      using False inv(2) another.prems by (cases q) auto
    note step = other_pass_drains [OF assms(1,2) inv(1) own this, of pol]
    show ?thesis using own' cnt rest False unfolding step by (simp add: Let_def)
  qed
qed

lemma count_list_replicate [simp]: "count_list (replicate k x) x = k"
  by (induction k) simp_all

text \<open>Served alone, the request of a proxy stops waiting.\<close>

lemma drains_alone:
  assumes "libLaws l" and "controllerOfLaw l" and "quietConditionLaw l" and "obliging pol l n"
    and "healthy n (world m0)" and "ownedCluster l n (world m0)" and "ProxyPass n \<in> pending m0"
  shows "\<exists>k m. served (\<lambda>c. c) (storeReconciler pol l) m0 (replicate k (ProxyPass n)) m \<and> ProxyPass n \<notin> pending m"
proof -
  let ?m = "\<lambda>k. (afterPass (\<lambda>c. c) (storeReconciler pol l) (ProxyPass n) ^^ k) m0"
  have "\<exists>k. ProxyPass n \<notin> pending (?m k)"
  proof (rule ccontr)
    assume "\<nexists>k. ProxyPass n \<notin> pending (?m k)"
    then have "served (\<lambda>c. c) (storeReconciler pol l) m0 (replicate k (ProxyPass n)) (?m k)" for k
      by (intro served_funpow) simp
    then have "count_list (replicate k (ProxyPass n)) (ProxyPass n) \<le> rank (proxyPhase l (world m0) n) + 2" for k
      using served_drains [OF assms, of "replicate k (ProxyPass n)" "?m k"] by (auto simp: Let_def)
    then have "k \<le> rank (proxyPhase l (world m0) n) + 2" for k by (simp add: count_list_replicate)
    from this [of "rank (proxyPhase l (world m0) n) + 3"] show False by simp
  qed
  then obtain k where "ProxyPass n \<notin> pending (?m k)" "\<And>j. j < k \<Longrightarrow> ProxyPass n \<in> pending (?m j)"
    using exists_least_iff [of "\<lambda>k. ProxyPass n \<notin> pending (?m k)"] by auto
  then show ?thesis using served_funpow by blast
qed

text \<open>C6: the queue of a proxy drains under every interleaving.  On a server that admits what is valid and
  a healthy cluster on which nobody else writes, let passes over waiting requests follow in any order, over this proxy, other
  proxies and rules in sync.  The proxy wakes itself with its own writes, but it is served at
  most twice more often than the rank of its phase, so at most nine times; and when its request
  no longer waits, the workload is aligned and reported as available.\<close>

theorem queue_drains:
  assumes "behavesLike \<alpha> pol r" and "libLaws (lib r)" and "controllerOfLaw (lib r)" and "quietConditionLaw (lib r)"
    and "valueLaws (lib r)" and "admitsValid pol n" and "healthy n (\<alpha> (world m0))" and "ownedCluster (lib r) n (\<alpha> (world m0))"
    and "ProxyPass n \<in> pending m0" and "served \<alpha> r m0 qs m"
    and "\<And>k. RulesPass k \<in> set qs \<Longrightarrow> inSync (lib r) (\<alpha> (world m0)) k"
  shows "count_list qs (ProxyPass n) \<le> rank (proxyPhase (lib r) (\<alpha> (world m0)) n) + 2 \<and>
    count_list qs (ProxyPass n) \<le> 9 \<and>
    (ProxyPass n \<in> pending m \<or>
     proxyPhase (lib r) (\<alpha> (world m)) n = Aligned \<and> availableNow (lib r) (\<alpha> (world m)) n)"
proof -
  have ob: "obliging pol (lib r) n" using assms(5,6) by (simp add: obliging_def)
  have "rank q + 2 \<le> 9" for q by (cases q) simp_all
  from this [of "proxyPhase (lib r) (\<alpha> (world m0)) n"]
  show ?thesis
    using served_drains [OF assms(2-4) ob _ _ _ served_seen [OF assms(1,10)]] assms(7-9,11)
    by (auto simp: seenMachine_def Let_def)
qed

lemma example_quiet: "quietConditionLaw exampleLib"
proof -
  have "setConditionList t cs c = cs" if "conditionOf (conditionType c) cs = Some d" "sameVerdict d c" for t cs c d
    using that by (induction cs) (auto simp: conditionOf_def sameVerdict_def split: if_splits)
  then show ?thesis by (simp add: quietConditionLaw_def exampleLib_def)
qed

section \<open>The example, drained and disturbed\<close>

lemma example_controllerOf: "controllerOfLaw exampleLib"
  by (simp add: controllerOfLaw_def exampleLib_def)

lemma example_owned: "ownedCluster exampleLib n exampleCluster"
  by (simp add: ownedCluster_def exampleCluster_def)

definition exampleMachine :: "cluster machine" where
  "exampleMachine = \<lparr>world = exampleCluster, pending = {ProxyPass (exampleKey ''villip'')}\<rparr>"

abbreviation "exampleReach \<equiv>
  opReach (\<lambda>c. c) strictReconciler (ownedCluster exampleLib (exampleKey ''villip''))"

lemma example_drained:
  "\<exists>k m. served (\<lambda>c. c) strictReconciler exampleMachine (replicate k (ProxyPass (exampleKey ''villip''))) m \<and>
     ProxyPass (exampleKey ''villip'') \<notin> pending m \<and>
     healthy (exampleKey ''villip'') (world m) \<and> ownedCluster exampleLib (exampleKey ''villip'') (world m)"
proof -
  let ?q = "ProxyPass (exampleKey ''villip'')"
  have start: "world exampleMachine = exampleCluster" "?q \<in> pending exampleMachine" by (simp_all add: exampleMachine_def)
  note ok = exampleLib_laws example_controllerOf example_quiet example_obliging(1)
  note at = example_healthy [folded start(1)] example_owned [of "exampleKey ''villip''", folded start(1)] start(2)
  obtain k m where run: "served (\<lambda>c. c) strictReconciler exampleMachine (replicate k ?q) m" and rest: "?q \<notin> pending m"
    using drains_alone [OF ok at] by blast
  have "ownedCluster exampleLib (exampleKey ''villip'') (world m)"
    using served_drains [OF ok at run] by auto
  moreover have "healthy (exampleKey ''villip'') (world m)"
    using schedule_inv [OF exampleLib_laws example_obliging(1) at(1), of "replicate k ?q"] served_world [OF run]
    by (auto simp: Let_def)
  ultimately show ?thesis using run rest by blast
qed

lemma queue_drains_witness:
  "\<exists>k m. served (\<lambda>c. c) strictReconciler exampleMachine (replicate k (ProxyPass (exampleKey ''villip''))) m \<and>
     k \<le> 9 \<and> ProxyPass (exampleKey ''villip'') \<notin> pending m \<and>
     availableNow exampleLib (world m) (exampleKey ''villip'')"
proof -
  let ?q = "ProxyPass (exampleKey ''villip'')"
  obtain k m where run: "served (\<lambda>c. c) strictReconciler exampleMachine (replicate k ?q) m" and rest: "?q \<notin> pending m"
    using example_drained by blast
  have "RulesPass j \<notin> set (replicate k ?q)" for j by simp
  then show ?thesis
    using queue_drains [OF behavesLike_store [of strictPolicy exampleLib], of "exampleKey ''villip''" exampleMachine, OF _ _ _ _ _ _ _ _ run]
      exampleLib_laws example_controllerOf example_quiet exampleLib_values strict_admits example_healthy example_owned rest run
    by (auto simp: store_calls(1) exampleMachine_def count_list_replicate)
qed

text \<open>The proxy is at rest, then somebody deletes its Deployment.\<close>

lemma drift_noticed_example:
  "\<exists>m m'. exampleReach exampleMachine m \<and> ProxyPass (exampleKey ''villip'') \<notin> pending m \<and>
     opStep (\<lambda>c. c) strictReconciler (ownedCluster exampleLib (exampleKey ''villip'')) m m' \<and>
     clDeployments (world m') = [] \<and> ProxyPass (exampleKey ''villip'') \<in> pending m'"
proof -
  let ?n = "exampleKey ''villip''"
  obtain m where m: "exampleReach exampleMachine m" "ProxyPass ?n \<notin> pending m"
    "healthy ?n (world m)" "ownedCluster exampleLib ?n (world m)"
    using example_drained served_reach by blast
  let ?c = "world m\<lparr>clDeployments := []\<rparr>"
  let ?m' = "\<lparr>world = ?c, pending = pending m \<union> set (woken exampleLib (world m) ?c)\<rparr>"
  have step: "opStep (\<lambda>c. c) strictReconciler (ownedCluster exampleLib ?n) m ?m'"
    using m(4) by (intro opStep.edit) (simp_all add: store_calls(1) ownedCluster_def)
  have unsettled: "\<not> settled exampleLib ?n ?c"
    using m(3) by (auto simp: healthy_def settled_def plainProxyD findObj_def)
  have "ProxyPass ?n \<in> pending ?m'"
    using no_drift_unnoticed [OF behavesLike_store [of strictPolicy exampleLib] _ _ _ opReach.step [OF m(1) step]]
      unsettled
    by (auto simp: store_calls(1) exampleLib_laws example_controllerOf example_owned exampleMachine_def)
  with m step show ?thesis by (intro exI [of _ m] exI [of _ ?m']) simp
qed

end
