(* ===== verification/Queue_Blindspot.thy ===== *)
theory Queue_Blindspot
  imports Queue_Drain Rules_Properties Operator_Schedule Proxy_Witnesses
begin

text \<open>
  What the proxy controller does not watch.  It owns Deployments and Services, not ConfigMaps:
  the ConfigMap of a new rule that a ruleset of the proxy selects does not wake the proxy.
\<close>

section \<open>The annotation of a longer selection\<close>

definition joinedLength :: "string list \<Rightarrow> nat" where
  "joinedLength xs = (\<Sum>x\<leftarrow>xs. Suc (length x))"

lemma joinedLength_simps [simp]:
  "joinedLength [] = 0" "joinedLength (x # xs) = Suc (length x) + joinedLength xs"
  "joinedLength (xs @ ys) = joinedLength xs + joinedLength ys"
  by (simp_all add: joinedLength_def)

lemma joinedLength_sort [simp]: "joinedLength (sortStrings xs) = joinedLength xs"
proof -
  have "joinedLength xs = (\<Sum>x\<in>#mset xs. Suc (length x))" for xs
    by (simp add: joinedLength_def flip: sum_mset_sum_list)
  then show ?thesis by (simp add: sortStrings_def)
qed

lemma length_joinStrings: "xs \<noteq> [] \<Longrightarrow> Suc (length (joinStrings [c] xs)) = joinedLength xs"
  by (induction "[c]" xs rule: joinStrings.induct) auto

lemma longer_annotation:
  assumes "joinedLength xs < joinedLength ys" and "y \<in> set ys" and "y \<noteq> ''''"
  shows "joinStrings '','' (sortStrings xs) \<noteq> joinStrings '','' (sortStrings ys)"
proof -
  have ys: "Suc (length (joinStrings '','' (sortStrings ys))) = joinedLength ys"
    using assms(2) length_joinStrings [of "sortStrings ys" "CHR '',''"] by (cases ys) auto
  show ?thesis
  proof (cases "xs = []")
    case True
    obtain us vs where "ys = us @ y # vs" using assms(2) by (auto dest: split_list)
    then have "1 < joinedLength ys" using assms(3) by simp
    then have "joinStrings '','' (sortStrings ys) \<noteq> []" using ys by auto
    then show ?thesis using True by (simp add: sortStrings_def)
  next
    case False
    then have "Suc (length (joinStrings '','' (sortStrings xs))) = joinedLength xs"
      using length_joinStrings [of "sortStrings xs" "CHR '',''"] by simp
    then show ?thesis using ys assms(1) by auto
  qed
qed

text \<open>One more ConfigMap in the cluster.\<close>

lemma selectedNames_snoc:
  assumes "clConfigMaps c' = clConfigMaps c @ [cm]" and "s \<in> set (specRuleset (proxySpec p))"
    and "metaNamespace (configMapMeta cm) = metaNamespace (proxyMeta p)"
    and "matchLabels s \<subseteq>\<^sub>m metaLabels (configMapMeta cm)"
  shows "metaName (configMapMeta cm) \<in> set (selectedNames c' p)"
    and "joinedLength (selectedNames c p) < joinedLength (selectedNames c' p)"
proof -
  show "metaName (configMapMeta cm) \<in> set (selectedNames c' p)"
    using assms by (auto simp: selectedNames_def selectConfigMaps_def)
  let ?names = "\<lambda>c s. map (\<lambda>m. metaName (configMapMeta m))
      (selectConfigMaps (metaNamespace (proxyMeta p)) (matchLabels s) (clConfigMaps c))"
  have le: "joinedLength (?names c s) \<le> joinedLength (?names c' s)" for s
    by (simp add: assms(1) selectConfigMaps_def)
  have lt: "joinedLength (?names c s) < joinedLength (?names c' s)"
    by (simp add: assms(1,3,4) selectConfigMaps_def)
  obtain xs ys where split: "specRuleset (proxySpec p) = xs @ s # ys"
    using assms(2) by (auto dest: split_list)
  have "joinedLength (concat (map (?names c) ss)) \<le> joinedLength (concat (map (?names c') ss))" for ss
    using le by (induction ss) (auto intro: add_mono)
  from this [of xs] this [of ys] lt show "joinedLength (selectedNames c p) < joinedLength (selectedNames c' p)"
    by (simp add: selectedNames_def split)
qed

section \<open>A rule that starts to match\<close>

text \<open>A rules pass changes neither proxies nor Services; one that creates a ConfigMap changes no
  Deployment either, so it wakes no proxy.\<close>

lemma rules_pass_wakes_no_proxy:
  assumes "libLaws l" and "passOf (storeReconciler pol l) (RulesPass k) c = (again, c')"
    and "clDeployments c' = clDeployments c"
  shows "ProxyPass n \<notin> set (woken l c c')"
proof -
  have "rulesFrame k c c'"
    using rulesPass_frame [OF assms(1), of k c pol] assms(2) by (auto split: prod.splits)
  then show ?thesis using assms(3) by (simp add: woken_proxies changesOf_def rulesFrame_def)
qed

lemma unrendered_pass:
  assumes "libLaws l" and "healthyRules l k c" and "rulesPhase l c k = Unrendered"
    and "findObj rulesMeta k (clRules c) = Some q"
  obtains c' cm where "passOf (storeReconciler pol l) (RulesPass k) c = (False, c')"
    and "clDeployments c' = clDeployments c" and "clProxies c' = clProxies c"
    and "clConfigMaps c' = clConfigMaps c @ [cm]" and "keyOf (configMapMeta cm) = k"
    and "metaLabels (configMapMeta cm) = metaLabels (rulesMeta q)"
proof -
  obtain c' p cm where run: "rulesPassTo pol l k c noRequeue c'" and p: "findObj rulesMeta k (clRules c) = Some p"
    and cm: "configMapForVillipRule (storeReconciler pol l) p = Inr cm"
    and c': "clConfigMaps c' = clConfigMaps c @ [cm]" "clDeployments c' = clDeployments c"
    using rules_pass_Unrendered [OF assms(1-3), of pol] by blast
  have "p = q" using p assms(4) by simp
  then have lb: "metaLabels (configMapMeta cm) = metaLabels (rulesMeta q)"
    "metaName (configMapMeta cm) = metaName (rulesMeta q)"
    "metaNamespace (configMapMeta cm) = metaNamespace (rulesMeta q)"
    using configMapForVillipRule_owned [of "storeReconciler pol l" p cm] cm assms(1)
    by (auto simp: store_calls(1))
  with findObj_key [OF assms(4)] have "keyOf (configMapMeta cm) = k" by (simp add: keyOf_def)
  then show thesis
    using that [of c' cm] run c' lb(1) by (simp add: rulesPassTo_def keepsRules_def)
qed

text \<open>C30: a rule that starts to match is not noticed.  Take a proxy whose Deployment agrees with the
  ConfigMaps its rulesets select, and a rule without a ConfigMap whose labels one of the rulesets
  matches.  The pass over the rule creates the ConfigMap; now the annotation of the Deployment
  disagrees with the selection, which the next pass over the proxy would repair by mounting the
  new ConfigMap.  But nothing asks for that pass: the proxy waits in the queue afterwards exactly
  if it did before.\<close>

theorem new_rule_unnoticed:
  assumes "behavesLike \<alpha> pol r" and "libLaws (lib r)"
    and "healthyRules (lib r) k (\<alpha> (world m))" and "rulesPhase (lib r) (\<alpha> (world m)) k = Unrendered"
    and "findObj rulesMeta k (clRules (\<alpha> (world m))) = Some q"
    and "findObj proxyMeta n (clProxies (\<alpha> (world m))) = Some p"
    and "findObj deploymentMeta n (clDeployments (\<alpha> (world m))) = Some d"
    and "metaAnnotations (deploymentMeta d) confAnnotation \<noteq> None" and "rulesetsAligned (\<alpha> (world m)) p d"
    and "s \<in> set (specRuleset (proxySpec p))" and "matchLabels s \<subseteq>\<^sub>m metaLabels (rulesMeta q)"
    and "nnNamespace k = nnNamespace n" and "nnName k \<noteq> ''''"
  shows "let m' = afterPass \<alpha> r (RulesPass k) m; c' = \<alpha> (world m') in
    findObj proxyMeta n (clProxies c') = Some p \<and> findObj deploymentMeta n (clDeployments c') = Some d \<and>
    nnName k \<in> set (selectedNames c' p) \<and> \<not> rulesetsAligned c' p d \<and>
    (ProxyPass n \<in> pending m' \<longleftrightarrow> ProxyPass n \<in> pending m)"
proof -
  obtain c' cm where run: "passOf (storeReconciler pol (lib r)) (RulesPass k) (\<alpha> (world m)) = (False, c')"
    and same: "clDeployments c' = clDeployments (\<alpha> (world m))" "clProxies c' = clProxies (\<alpha> (world m))"
    and cm: "clConfigMaps c' = clConfigMaps (\<alpha> (world m)) @ [cm]" "keyOf (configMapMeta cm) = k"
      "metaLabels (configMapMeta cm) = metaLabels (rulesMeta q)"
    by (rule unrendered_pass [OF assms(2-5), of pol])
  obtain again w' where w': "passOf r (RulesPass k) (world m) = (again, w')" by fastforce
  then have seen: "\<not> again" "\<alpha> w' = c'" using passOf_transfer [OF assms(1) w'] run by simp_all
  have key: "metaName (configMapMeta cm) = nnName k" "metaNamespace (configMapMeta cm) = nnNamespace k"
    using cm(2) by (auto simp: keyOf_def)
  have "metaNamespace (configMapMeta cm) = metaNamespace (proxyMeta p)"
    using key(2) findObj_namespace [OF assms(6)] assms(12) by simp
  note names = selectedNames_snoc [OF cm(1) assms(10) this, unfolded cm(3), OF assms(11)]
  have "\<not> rulesetsAligned c' p d"
    using assms(8,9,13) longer_annotation [OF names(2,1)] by (auto simp: rulesetsAligned_def key(1))
  moreover have "ProxyPass n \<notin> set (woken (lib r) (\<alpha> (world m)) c')"
    by (rule rules_pass_wakes_no_proxy [OF assms(2) run same(1)])
  ultimately show ?thesis
    using names(1) assms(6,7) by (simp add: afterPass_run [OF w'] seen same key(1) Let_def)
qed

definition readyRule :: villipRules where
  "readyRule = exampleRule
     \<lparr>rulesMeta := (exampleMeta ''tcpexample'')
        \<lparr>metaLabels := [''ruleset'' \<mapsto> ''villiptests'', ''basedon'' \<mapsto> ''port''],
         metaFinalizers := [villiprulesFinalizer]\<rparr>,
      rulesStatus := \<lparr>rulesConditions =
          [mkCondition typeAvailableVillipRules ConditionUnknown ''Reconciling'' ''Starting reconciliation''],
        lastSum = ''''\<rparr>\<rparr>"

definition newRuleCluster :: cluster where
  "newRuleCluster = exampleCluster\<lparr>clConfigMaps := [], clRules := [readyRule],
     clDeployments := [staleDeployment\<lparr>deploymentMeta :=
       (exampleMeta ''villip'')\<lparr>metaAnnotations := [confAnnotation \<mapsto> '''']\<rparr>\<rparr>]\<rparr>"

lemma new_rule_unnoticed_witness:
  "let m' = afterPass (\<lambda>c. c) exampleReconciler (RulesPass (exampleKey ''tcpexample''))
       \<lparr>world = newRuleCluster, pending = {RulesPass (exampleKey ''tcpexample'')}\<rparr> in
     ''tcpexample'' \<in> set (selectedNames (world m') exampleProxy) \<and>
     ProxyPass (exampleKey ''villip'') \<notin> pending m'"
proof -
  let ?d = "staleDeployment\<lparr>deploymentMeta :=
       (exampleMeta ''villip'')\<lparr>metaAnnotations := [confAnnotation \<mapsto> '''']\<rparr>\<rparr>"
  have rule: "findObj rulesMeta (exampleKey ''tcpexample'') (clRules newRuleCluster) = Some readyRule"
    by (simp add: findObj_def newRuleCluster_def readyRule_def exampleKey_def keyOf_def exampleMeta_def emptyMeta_def)
  have cm: "findObj configMapMeta n (clConfigMaps newRuleCluster) = None" for n
    by (simp add: newRuleCluster_def findObj_def)
  have healthy: "healthyRules exampleLib (exampleKey ''tcpexample'') newRuleCluster"
    by (simp add: healthyRules_def rule cm)
      (simp add: newRuleCluster_def exampleCluster_def readyRule_def exampleLib_def exampleMeta_def emptyMeta_def)
  have phase: "rulesPhase exampleLib newRuleCluster (exampleKey ''tcpexample'') = Unrendered"
    by (simp add: rulesPhase_def rule cm) (simp add: readyRule_def exampleMeta_def emptyMeta_def)
  have proxy: "findObj proxyMeta (exampleKey ''villip'') (clProxies newRuleCluster) = Some exampleProxy"
    using example_findProxy by (simp add: newRuleCluster_def exampleCluster_def)
  have dep: "findObj deploymentMeta (exampleKey ''villip'') (clDeployments newRuleCluster) = Some ?d"
    by (simp add: findObj_def newRuleCluster_def exampleKey_def keyOf_def exampleMeta_def emptyMeta_def)
  have "selectedNames newRuleCluster exampleProxy = []"
    by (simp add: selectedNames_def selectConfigMaps_def newRuleCluster_def)
  then have al: "rulesetsAligned newRuleCluster exampleProxy ?d"
    by (simp add: rulesetsAligned_def sortStrings_def)
  have labels: "matchLabels \<lparr>matchLabels = [''ruleset'' \<mapsto> ''villiptests'', ''basedon'' \<mapsto> ''port'']\<rparr> \<subseteq>\<^sub>m
      metaLabels (rulesMeta readyRule)"
    by (simp add: readyRule_def)
  let ?m = "\<lparr>world = newRuleCluster, pending = {RulesPass (exampleKey ''tcpexample'')}\<rparr>"
  show ?thesis
    using new_rule_unnoticed [OF behavesLike_store [of examplePolicy exampleLib], of "exampleKey ''tcpexample''" ?m
        readyRule "exampleKey ''villip''" exampleProxy ?d, OF _ _ _ _ _ _ _ _ _ labels]
      exampleLib_laws healthy phase rule proxy dep al
    by (simp add: store_calls(1) example_rulesets exampleKey_def Let_def)
qed

end
