(* ===== verification/Observation.thy ===== *)
theory Observation
  imports Work_Queue
begin

text \<open>
  What a pass may rely on although the world changes under it.  A part of a pass that did not
  wake the proxy left the objects of its name as they were in what the operator sees of the
  world (\<open>view\<close>), whoever wrote; so what was read at different moments still holds at the end.
  The locale \<open>observed\<close> draws the conclusion for a machine whose passes are interrupted; it is
  interpreted on the server in use by others (\<open>Concurrent_Queue\<close>) and on a client that reads
  from a cache (\<open>Stale_Queue\<close>).
\<close>

section \<open>Parts of a pass\<close>

text \<open>
  A predicate on the view and on whether the proxy \<open>n\<close> was woken, stable under changes of the
  view.
\<close>

definition followsChanges :: "lib \<Rightarrow> namespacedName \<Rightarrow> (bool \<Rightarrow> cluster \<Rightarrow> bool) \<Rightarrow> bool" where
  "followsChanges l n P \<longleftrightarrow>
     (\<forall>b c c'. P b c \<longrightarrow> ownedCluster l n c \<longrightarrow> ownedCluster l n c' \<longrightarrow>
        P (b \<or> ProxyPass n \<in> set (woken l c c')) c')"

text \<open>A computation that keeps every such predicate.\<close>

definition attentive :: "((bool \<Rightarrow> cluster \<Rightarrow> bool) \<Rightarrow> 'v \<Rightarrow> bool) \<Rightarrow> ('v, 'a) go \<Rightarrow> bool" where
  "attentive Inv m \<longleftrightarrow> (\<forall>P. maintains (Inv P) (\<lambda>_. True) m)"

lemma attentive_weaken: "(\<And>P. maintains (Inv P) Q m) \<Longrightarrow> attentive Inv m"
  by (simp add: attentive_def maintains_def)

lemma attentive_known:
  assumes "\<And>P. maintains (knowing l n (Inv P) {} {}) (\<lambda>_. True) m"
    and "\<And>P s. Inv P s \<Longrightarrow> libLaws l \<and> controllerOfLaw l"
  shows "attentive Inv m"
proof -
  have "knowing l n (Inv P) {} {} = Inv P" for P
    using assms(2) [of P] by (auto simp: knowing_def)
  then show ?thesis using assms(1) by (simp add: attentive_def)
qed

lemma sameNamed_refl [simp]: "sameNamed n c c"
  by (simp add: sameNamed_def)

lemma sameNamed_trans: "sameNamed n a b \<Longrightarrow> sameNamed n b c \<Longrightarrow> sameNamed n a c"
  by (simp add: sameNamed_def)

lemma follows_woken: "followsChanges l n (\<lambda>b _. b)"
  by (simp add: followsChanges_def)

lemma follows_same: "followsChanges l n (\<lambda>b c. b \<or> sameNamed n c0 c)"
  unfolding followsChanges_def
proof (intro allI impI)
  fix b c c'
  assume "b \<or> sameNamed n c0 c" and own: "ownedCluster l n c" "ownedCluster l n c'"
  then show "(b \<or> ProxyPass n \<in> set (woken l c c')) \<or> sameNamed n c0 c'"
    using asleep_sameNamed [OF own] sameNamed_trans [of n c0 c c'] by blast
qed

section \<open>What was read\<close>

text \<open>The part of \<open>settled\<close> that is about the Deployment and the Service.\<close>

definition workloadSettled :: "lib \<Rightarrow> namespacedName \<Rightarrow> cluster \<Rightarrow> bool" where
  "workloadSettled l n c \<longleftrightarrow>
     (case findObj proxyMeta n (clProxies c) of
        None \<Rightarrow> True
      | Some p \<Rightarrow>
          metaDeletionTimestamp (proxyMeta p) \<noteq> None \<or>
          (\<exists>d s. findObj deploymentMeta n (clDeployments c) = Some d \<and>
             findObj serviceMeta n (clServices c) = Some s \<and>
             deploymentReplicas (deploymentSpec d) = Some (specSize (proxySpec p)) \<and> portsAligned l p d s))"

lemma settled_workload:
  "workloadSettled l n c \<Longrightarrow>
     (\<And>p. findObj proxyMeta n (clProxies c) = Some p \<Longrightarrow> metaDeletionTimestamp (proxyMeta p) = None \<Longrightarrow>
        availableNow l c n) \<Longrightarrow> settled l n c"
  by (auto simp: settled_def workloadSettled_def split: option.splits)

lemma sameNamed_proxy:
  assumes "sameNamed n c c'" and "findObj proxyMeta n (clProxies c) = Some p"
  obtains q where "findObj proxyMeta n (clProxies c') = Some q" and "proxySpec q = proxySpec p"
    and "metaName (proxyMeta q) = metaName (proxyMeta p)"
    and "metaDeletionTimestamp (proxyMeta q) = metaDeletionTimestamp (proxyMeta p)"
proof -
  obtain q where q: "findObj proxyMeta n (clProxies c') = Some q"
    "proxyMeta_update unversioned p = proxyMeta_update unversioned q"
    using assms by (cases "findObj proxyMeta n (clProxies c')") (auto simp: sameNamed_def)
  from plain_proxy [OF q(2)] q(1) that show thesis by blast
qed

lemma sameNamed_deployment:
  assumes "sameNamed n c c'" and "findObj deploymentMeta n (clDeployments c) = Some d"
  obtains e where "findObj deploymentMeta n (clDeployments c') = Some e" and "deploymentSpec e = deploymentSpec d"
  using assms plain_workload(1)
  by (cases "findObj deploymentMeta n (clDeployments c')") (auto simp: sameNamed_def)

lemma sameNamed_service:
  assumes "sameNamed n c c'" and "findObj serviceMeta n (clServices c) = Some s"
  obtains t where "findObj serviceMeta n (clServices c') = Some t" and "serviceSpec t = serviceSpec s"
  using assms plain_workload(2)
  by (cases "findObj serviceMeta n (clServices c')") (auto simp: sameNamed_def)

text \<open>The three objects, read at three moments, seen at the end.\<close>

lemma workload_by_reads:
  assumes "findObj proxyMeta n (clProxies c1) = Some p" and "sameNamed n c1 c"
    and "findObj deploymentMeta n (clDeployments c2) = Some d" and "sameNamed n c2 c"
    and "findObj serviceMeta n (clServices c3) = Some s" and "sameNamed n c3 c"
    and "deploymentReplicas (deploymentSpec d) = Some (specSize (proxySpec p))" and "portsAligned l p d s"
  shows "workloadSettled l n c"
proof -
  obtain q where q: "findObj proxyMeta n (clProxies c) = Some q" "proxySpec q = proxySpec p"
    by (rule sameNamed_proxy [OF assms(2,1)])
  obtain e where e: "findObj deploymentMeta n (clDeployments c) = Some e" "deploymentSpec e = deploymentSpec d"
    by (rule sameNamed_deployment [OF assms(4,3)])
  obtain u where u: "findObj serviceMeta n (clServices c) = Some u" "serviceSpec u = serviceSpec s"
    by (rule sameNamed_service [OF assms(6,5)])
  show ?thesis using q e u assms(7,8) by (simp add: workloadSettled_def portsAligned_def)
qed

lemma workload_sameNamed:
  assumes "sameNamed n c c'" and "workloadSettled l n c"
  shows "workloadSettled l n c'"
proof (cases "findObj proxyMeta n (clProxies c)")
  case None
  then have "findObj proxyMeta n (clProxies c') = None"
    using assms(1) by (simp add: sameNamed_def)
  then show ?thesis by (simp add: workloadSettled_def)
next
  case (Some p)
  obtain q where q: "findObj proxyMeta n (clProxies c') = Some q"
    "metaDeletionTimestamp (proxyMeta q) = metaDeletionTimestamp (proxyMeta p)"
    by (rule sameNamed_proxy [OF assms(1) Some])
  show ?thesis
  proof (cases "metaDeletionTimestamp (proxyMeta p) = None")
    case True
    then obtain d s where "findObj deploymentMeta n (clDeployments c) = Some d"
      "findObj serviceMeta n (clServices c) = Some s"
      "deploymentReplicas (deploymentSpec d) = Some (specSize (proxySpec p))" "portsAligned l p d s"
      using assms(2) Some by (auto simp: workloadSettled_def)
    then show ?thesis using workload_by_reads [OF Some assms(1) _ assms(1) _ assms(1)] by blast
  qed (use q in \<open>simp add: workloadSettled_def\<close>)
qed

section \<open>The machine\<close>

text \<open>
  As in \<open>Work_Queue\<close>, with passes during which the world changes.  A pass starts in a world that
  \<open>starts\<close> relates to the present one, and raises the requests \<open>woke\<close>; between passes the world
  may change as \<open>edits\<close> allows.
\<close>

inductive busyStep ::
  "('w \<Rightarrow> 'v) \<Rightarrow> 'w reconciler \<Rightarrow> ('v \<Rightarrow> cluster) \<Rightarrow> ('v \<Rightarrow> request set) \<Rightarrow> ('v \<Rightarrow> 'v \<Rightarrow> bool) \<Rightarrow> ('v \<Rightarrow> 'v \<Rightarrow> bool) \<Rightarrow>
     'w machine \<Rightarrow> 'w machine \<Rightarrow> bool"
  for \<alpha> r view woke starts edits where
  pass: "q \<in> pending m \<Longrightarrow> starts (\<alpha> (world m)) (\<alpha> w) \<Longrightarrow> passOf r q w = (again, w') \<Longrightarrow>
    pending m - {q} \<union> (if again then {q} else {}) \<union> woke (\<alpha> w') \<subseteq> waiting \<Longrightarrow>
    busyStep \<alpha> r view woke starts edits m \<lparr>world = w', pending = waiting\<rparr>"
| edit: "edits (\<alpha> (world m)) (\<alpha> w') \<Longrightarrow>
    pending m \<union> set (woken (lib r) (view (\<alpha> (world m))) (view (\<alpha> w'))) \<subseteq> waiting \<Longrightarrow>
    busyStep \<alpha> r view woke starts edits m \<lparr>world = w', pending = waiting\<rparr>"

inductive busyReach ::
  "('w \<Rightarrow> 'v) \<Rightarrow> 'w reconciler \<Rightarrow> ('v \<Rightarrow> cluster) \<Rightarrow> ('v \<Rightarrow> request set) \<Rightarrow> ('v \<Rightarrow> 'v \<Rightarrow> bool) \<Rightarrow> ('v \<Rightarrow> 'v \<Rightarrow> bool) \<Rightarrow>
     'w machine \<Rightarrow> 'w machine \<Rightarrow> bool"
  for \<alpha> r view woke starts edits m0 where
  start: "busyReach \<alpha> r view woke starts edits m0 m0"
| step: "busyReach \<alpha> r view woke starts edits m0 m \<Longrightarrow> busyStep \<alpha> r view woke starts edits m m' \<Longrightarrow>
    busyReach \<alpha> r view woke starts edits m0 m'"

section \<open>The contract\<close>

locale observed =
  fixes r :: "'v reconciler" and l :: lib and n :: namespacedName
    and view :: "'v \<Rightarrow> cluster" and woke :: "'v \<Rightarrow> request set" and calm :: "'v \<Rightarrow> bool"
    and Inv :: "(bool \<Rightarrow> cluster \<Rightarrow> bool) \<Rightarrow> 'v \<Rightarrow> bool"
    and starts :: "'v \<Rightarrow> 'v \<Rightarrow> bool" and edits :: "'v \<Rightarrow> 'v \<Rightarrow> bool"
  assumes own_lib: "lib r = l"
    and inv: "\<And>P s. Inv P s \<longleftrightarrow> followsChanges l n P \<and> calm s \<and> P (ProxyPass n \<in> woke s) (view s)"
    and owned_view: "\<And>s. calm s \<Longrightarrow> ownedCluster l n (view s)"
    and started: "\<And>s s'. calm s \<Longrightarrow> starts s s' \<Longrightarrow> calm s' \<and> view s' = view s"
    and edited: "\<And>s s'. calm s \<Longrightarrow> edits s s' \<Longrightarrow> calm s'"
    and requests: "\<And>k. attentive Inv (apiGetProxy r k)" "\<And>k. attentive Inv (apiGetDeployment r k)"
      "\<And>k. attentive Inv (apiGetService r k)"
    and parts: "\<And>p d. attentive Inv (isRulesetsChanged r p d)"
      "\<And>p k. attentive Inv (villipProxyMarkedToBeDeleted r p k)"
      "\<And>p c. attentive Inv (setProxyStatus r p c)"
    and passes: "\<And>k. attentive Inv (reconcileProxy r k)" "\<And>k. attentive Inv (reconcileRules r k)"
    and gotProxy: "\<And>k s p s'. run_state (apiGetProxy r k) s = (Inr p, s') \<Longrightarrow>
      findObj proxyMeta k (clProxies (view s')) = Some p"
    and missedProxy: "\<And>k s e s'. calm s \<Longrightarrow> run_state (apiGetProxy r k) s = (Inl e, s') \<Longrightarrow> isNotFound e \<Longrightarrow>
      findObj proxyMeta k (clProxies (view s')) = None"
    and gotDeployment: "\<And>k s d s'. run_state (apiGetDeployment r k) s = (Inr d, s') \<Longrightarrow>
      findObj deploymentMeta k (clDeployments (view s')) = Some d"
    and gotService: "\<And>k s v s'. run_state (apiGetService r k) s = (Inr v, s') \<Longrightarrow>
      findObj serviceMeta k (clServices (view s')) = Some v"
begin

lemma attentive_keeps:
  assumes "attentive Inv m" and "run_state m s = (x, s')" and "Inv P s"
  shows "Inv P s'"
  using maintainsD [OF spec [OF assms(1) [unfolded attentive_def], of P] assms(3,2)] by blast

lemma attentive_calm:
  assumes "attentive Inv m" and "calm s" and "run_state m s = (x, s')"
  shows "calm s'"
  using attentive_keeps [OF assms(1,3), of "\<lambda>_ _. True"] assms(2) by (simp add: inv followsChanges_def)

lemma attentive_asleep:
  assumes "attentive Inv m" and "calm s" and "run_state m s = (x, s')" and "ProxyPass n \<notin> woke s'"
  shows "ProxyPass n \<notin> woke s" and "sameNamed n (view s) (view s')"
proof -
  show "ProxyPass n \<notin> woke s"
    using attentive_keeps [OF assms(1,3), of "\<lambda>b _. b"] assms(2,4) by (auto simp: inv follows_woken)
  have "Inv (\<lambda>b c. b \<or> sameNamed n (view s) c) s" using assms(2) by (simp add: inv follows_same)
  from attentive_keeps [OF assms(1,3) this] show "sameNamed n (view s) (view s')"
    using assms(4) by (simp add: inv)
qed

text \<open>A quiet pass that did not wake its proxy.\<close>

lemma quiet_workload:
  assumes "calm s" and "ProxyPass n \<notin> woke s'"
    and "run_state (reconcileProxy r n) s = (Value (noRequeue, None), s')"
  shows "workloadSettled l n (view s') \<and>
    (\<forall>p. findObj proxyMeta n (clProxies (view s')) = Some p \<longrightarrow> metaDeletionTimestamp (proxyMeta p) = None \<longrightarrow>
      (\<exists>p0 s4 q. calm s4 \<and> keyOf (proxyMeta p0) = n \<and>
        proxySpec p = proxySpec p0 \<and> metaName (proxyMeta p) = metaName (proxyMeta p0) \<and>
        run_state (setProxyStatus r p0 (proxyAvailable p0 (specSize (proxySpec p0)))) s4 = ((None, q), s')))"
  using assms(3)
proof (cases rule: quiet_run)
  case (missing e)
  then have "findObj proxyMeta n (clProxies (view s')) = None" by (intro missedProxy [OF assms(1)])
  then show ?thesis by (simp add: workloadSettled_def)
next
  case (deleting p s1)
  note p = gotProxy [OF deleting(1)]
  have same: "sameNamed n (view s1) (view s')"
    by (rule attentive_asleep [OF parts(2) attentive_calm [OF requests(1) assms(1) deleting(1)] deleting(3) assms(2)])
  obtain q where "findObj proxyMeta n (clProxies (view s')) = Some q"
    "metaDeletionTimestamp (proxyMeta q) = metaDeletionTimestamp (proxyMeta p)"
    by (rule sameNamed_proxy [OF same p])
  then show ?thesis using deleting(2) by (auto simp: workloadSettled_def)
next
  case (aligned p s1)
  note p = gotProxy [OF aligned(1)]
  have key: "keyOf (proxyMeta p) = n" by (rule findObj_key [OF p])
  obtain d s2 where d: "run_state (apiGetDeployment r n) s1 = (Inr d, s2)"
    "deploymentReplicas (deploymentSpec d) = Some (specSize (proxySpec p))"
    "run_state (reconcileProxyRulesets r n p d) s2 = (Value (noRequeue, None), s')"
    by (rule quiet_deployment [OF aligned(3)]) (simp add: key)
  obtain x s3 where x: "run_state (isRulesetsChanged r p d) s2 = ((False, x), s3)"
    "run_state (reconcileProxyService r n p d) s3 = (Value (noRequeue, None), s')"
    by (rule quiet_rulesets [OF d(3)])
  obtain v s4 q where v: "run_state (apiGetService r n) s3 = (Inr v, s4)" "portsAligned l p d v"
    "run_state (setProxyStatus r p (proxyAvailable p (specSize (proxySpec p)))) s4 = ((None, q), s')"
    by (rule quiet_service [OF x(2)]) (simp add: key own_lib)
  have c1: "calm s1" by (rule attentive_calm [OF requests(1) assms(1) aligned(1)])
  have c2: "calm s2" by (rule attentive_calm [OF requests(2) c1 d(1)])
  have c3: "calm s3" by (rule attentive_calm [OF parts(1) c2 x(1)])
  have c4: "calm s4" by (rule attentive_calm [OF requests(3) c3 v(1)])
  note a4 = attentive_asleep [OF parts(3) c4 v(3) assms(2)]
  note a3 = attentive_asleep [OF requests(3) c3 v(1) a4(1)]
  note a2 = attentive_asleep [OF parts(1) c2 x(1) a3(1)]
  note a1 = attentive_asleep [OF requests(2) c1 d(1) a2(1)]
  have s2: "sameNamed n (view s2) (view s')"
    by (rule sameNamed_trans [OF a2(2) sameNamed_trans [OF a3(2) a4(2)]])
  have s1: "sameNamed n (view s1) (view s')" by (rule sameNamed_trans [OF a1(2) s2])
  have "workloadSettled l n (view s')"
    by (rule workload_by_reads [OF p s1 gotDeployment [OF d(1)] s2 gotService [OF v(1)] a4(2) d(2) v(2)])
  then show ?thesis using sameNamed_proxy [OF s1 p] c4 key v(3) by (metis option.inject)
qed

lemma calm_passOf:
  assumes "calm s" and "passOf r q s = (again, s')"
  shows "calm s' \<and> (ProxyPass n \<notin> woke s' \<longrightarrow> sameNamed n (view s) (view s'))"
proof (cases q)
  case (ProxyPass k)
  then obtain x where "run_state (reconcileProxy r k) s = (x, s')"
    using assms(2) by (auto split: prod.splits)
  then show ?thesis
    using attentive_calm [OF passes(1) assms(1)] attentive_asleep(2) [OF passes(1) assms(1)] by blast
next
  case (RulesPass k)
  then obtain x where "run_state (reconcileRules r k) s = (x, s')"
    using assms(2) by (auto split: prod.splits)
  then show ?thesis
    using attentive_calm [OF passes(2) assms(1)] attentive_asleep(2) [OF passes(2) assms(1)] by blast
qed

text \<open>What quiet passes establish is never lost unnoticed.\<close>

lemma nothing_missed:
  assumes "refines \<alpha> client r"
    and same: "\<forall>c c'. sameNamed n c c' \<longrightarrow> good c \<longrightarrow> good c'"
    and quiet: "\<forall>s s'. calm s \<longrightarrow> ProxyPass n \<notin> woke s' \<longrightarrow>
      run_state (reconcileProxy r n) s = (Value (noRequeue, None), s') \<longrightarrow> good (view s')"
    and "busyStep \<alpha> client view woke starts edits m m'" and calm: "calm (\<alpha> (world m))"
    and before: "ProxyPass n \<in> pending m \<or> good (view (\<alpha> (world m)))"
  shows "calm (\<alpha> (world m')) \<and> (ProxyPass n \<in> pending m' \<or> good (view (\<alpha> (world m'))))"
  using assms(4)
proof cases
  case (pass q w again w' waiting)
  have begun: "calm (\<alpha> w)" "view (\<alpha> w) = view (\<alpha> (world m))" using started [OF calm pass(3)] by simp_all
  have run: "passOf r q (\<alpha> w) = (again, \<alpha> w')" by (rule passOf_refines [OF assms(1) pass(4)])
  note after = calm_passOf [OF begun(1) run]
  have "good (view (\<alpha> w'))" if asleep: "ProxyPass n \<notin> waiting"
  proof (cases "q = ProxyPass n")
    case True
    then show ?thesis using quiet begun(1) run asleep pass(5) by (auto split: if_splits prod.splits)
  next
    case False
    then have "good (view (\<alpha> w))" using before asleep pass(5) begun(2) by auto
    moreover have "sameNamed n (view (\<alpha> w)) (view (\<alpha> w'))" using after asleep pass(5) by blast
    ultimately show ?thesis using same by blast
  qed
  then show ?thesis using after pass(1) by auto
next
  case (edit w' waiting)
  have calm': "calm (\<alpha> w')" by (rule edited [OF calm edit(2)])
  have "good (view (\<alpha> w'))" if asleep: "ProxyPass n \<notin> waiting"
  proof -
    have "ProxyPass n \<notin> set (woken l (view (\<alpha> (world m))) (view (\<alpha> w')))"
      using asleep edit(3) refines_lib [OF assms(1)] own_lib by auto
    then have "sameNamed n (view (\<alpha> (world m))) (view (\<alpha> w'))"
      by (rule asleep_sameNamed [OF owned_view [OF calm] owned_view [OF calm']])
    moreover have "good (view (\<alpha> (world m)))" using before asleep edit(3) by auto
    ultimately show ?thesis using same by blast
  qed
  then show ?thesis using calm' edit(1) by auto
qed

lemma never_missed:
  assumes "refines \<alpha> client r"
    and "\<forall>c c'. sameNamed n c c' \<longrightarrow> good c \<longrightarrow> good c'"
    and "\<forall>s s'. calm s \<longrightarrow> ProxyPass n \<notin> woke s' \<longrightarrow>
      run_state (reconcileProxy r n) s = (Value (noRequeue, None), s') \<longrightarrow> good (view s')"
    and "busyReach \<alpha> client view woke starts edits m0 m" and "calm (\<alpha> (world m0))" and "ProxyPass n \<in> pending m0"
  shows "calm (\<alpha> (world m)) \<and> (ProxyPass n \<in> pending m \<or> good (view (\<alpha> (world m))))"
  using assms(4)
proof induction
  case start
  show ?case using assms(5,6) by simp
next
  case (step m m')
  then show ?case using nothing_missed [OF assms(1-3) step(2)] by blast
qed

end

end
