(* ===== verification/Shared_Store.thy ===== *)
theory Shared_Store
  imports Observation
begin

text \<open>
  The server in use by others while a pass runs.  \<open>sharing r\<close> is a client over a world that
  adds to the state of the server (\<open>base\<close>) the edits others are going to make (\<open>others\<close>) and
  the changes that were made (\<open>history\<close>): before each request of the pass the next edit happens,
  then the request is served.  An edit is any function on the state of the server, so a list of
  edits is any interleaving of the pass with other clients, the other controller among them.
\<close>

section \<open>Requests between edits\<close>

datatype writer = Operator | Somebody

record shared =
  base :: cluster
  others :: "(cluster \<Rightarrow> cluster) list"
  history :: "(writer \<times> cluster \<times> cluster) list"

definition incoming :: "shared \<Rightarrow> cluster" where
  "incoming s = (case others s of [] \<Rightarrow> base s | f # _ \<Rightarrow> f (base s))"

definition meanwhile :: "(cluster, 'a) go \<Rightarrow> (shared, 'a) go" where
  "meanwhile m = State (\<lambda>s.
     case run_state m (incoming s) of
       (x, c) \<Rightarrow>
         (x, \<lparr>base = c, others = tl (others s),
              history = history s @ [(Somebody, base s, incoming s), (Operator, incoming s, c)]\<rparr>))"

definition sharing :: "cluster reconciler \<Rightarrow> shared reconciler" where
  "sharing r =
     \<lparr>lib = lib r,
      apiGetProxy = (\<lambda>n. meanwhile (apiGetProxy r n)),
      apiUpdateProxy = (\<lambda>p. meanwhile (apiUpdateProxy r p)),
      apiUpdateProxyStatus = (\<lambda>p. meanwhile (apiUpdateProxyStatus r p)),
      apiGetRules = (\<lambda>n. meanwhile (apiGetRules r n)),
      apiUpdateRules = (\<lambda>q. meanwhile (apiUpdateRules r q)),
      apiUpdateRulesStatus = (\<lambda>q. meanwhile (apiUpdateRulesStatus r q)),
      apiPatchRules = (\<lambda>q x. meanwhile (apiPatchRules r q x)),
      apiGetDeployment = (\<lambda>n. meanwhile (apiGetDeployment r n)),
      apiCreateDeployment = (\<lambda>d. meanwhile (apiCreateDeployment r d)),
      apiUpdateDeployment = (\<lambda>d. meanwhile (apiUpdateDeployment r d)),
      apiListDeployments = (\<lambda>ns sel. meanwhile (apiListDeployments r ns sel)),
      apiGetService = (\<lambda>n. meanwhile (apiGetService r n)),
      apiCreateService = (\<lambda>s. meanwhile (apiCreateService r s)),
      apiUpdateService = (\<lambda>s. meanwhile (apiUpdateService r s)),
      apiGetConfigMap = (\<lambda>n. meanwhile (apiGetConfigMap r n)),
      apiCreateConfigMap = (\<lambda>m. meanwhile (apiCreateConfigMap r m)),
      apiUpdateConfigMap = (\<lambda>m. meanwhile (apiUpdateConfigMap r m)),
      apiListConfigMaps = (\<lambda>ns sel. meanwhile (apiListConfigMaps r ns sel)),
      recordEvent = (\<lambda>n t x y. meanwhile (recordEvent r n t x y)),
      timeNow = meanwhile (timeNow r),
      timeNowString = meanwhile (timeNowString r)\<rparr>"

lemma sharing_calls [simp]:
  "lib (sharing r) = lib r"
  "apiGetProxy (sharing r) n = meanwhile (apiGetProxy r n)"
  "apiUpdateProxy (sharing r) p = meanwhile (apiUpdateProxy r p)"
  "apiUpdateProxyStatus (sharing r) p = meanwhile (apiUpdateProxyStatus r p)"
  "apiGetRules (sharing r) n = meanwhile (apiGetRules r n)"
  "apiUpdateRules (sharing r) q = meanwhile (apiUpdateRules r q)"
  "apiUpdateRulesStatus (sharing r) q = meanwhile (apiUpdateRulesStatus r q)"
  "apiPatchRules (sharing r) q x = meanwhile (apiPatchRules r q x)"
  "apiGetDeployment (sharing r) n = meanwhile (apiGetDeployment r n)"
  "apiCreateDeployment (sharing r) d = meanwhile (apiCreateDeployment r d)"
  "apiUpdateDeployment (sharing r) d = meanwhile (apiUpdateDeployment r d)"
  "apiListDeployments (sharing r) ns sel = meanwhile (apiListDeployments r ns sel)"
  "apiGetService (sharing r) n = meanwhile (apiGetService r n)"
  "apiCreateService (sharing r) s = meanwhile (apiCreateService r s)"
  "apiUpdateService (sharing r) s = meanwhile (apiUpdateService r s)"
  "apiGetConfigMap (sharing r) n = meanwhile (apiGetConfigMap r n)"
  "apiCreateConfigMap (sharing r) m = meanwhile (apiCreateConfigMap r m)"
  "apiUpdateConfigMap (sharing r) m = meanwhile (apiUpdateConfigMap r m)"
  "apiListConfigMaps (sharing r) ns sel' = meanwhile (apiListConfigMaps r ns sel')"
  "recordEvent (sharing r) n t a b = meanwhile (recordEvent r n t a b)"
  "timeNow (sharing r) = meanwhile (timeNow r)"
  "timeNowString (sharing r) = meanwhile (timeNowString r)"
  by (simp_all add: sharing_def)

lemma run_meanwhile:
  "run_state (meanwhile m) s = (x, s') \<longleftrightarrow>
     (\<exists>c. run_state m (incoming s) = (x, c) \<and>
        s' = \<lparr>base = c, others = tl (others s),
              history = history s @ [(Somebody, base s, incoming s), (Operator, incoming s, c)]\<rparr>)"
  by (auto simp: meanwhile_def split: prod.splits)

lemma incoming_alone [simp]: "others s = [] \<Longrightarrow> incoming s = base s"
  by (simp add: incoming_def)

lemma tl_others: "f \<in> set (tl (others s)) \<Longrightarrow> f \<in> set (others s)"
  by (cases "others s") simp_all

text \<open>What the edits of others keep.\<close>

definition respect :: "(cluster \<Rightarrow> bool) \<Rightarrow> shared \<Rightarrow> bool" where
  "respect C s \<longleftrightarrow> (\<forall>f \<in> set (others s). \<forall>c. C c \<longrightarrow> C (f c))"

lemma respect_incoming: "respect C s \<Longrightarrow> C (base s) \<Longrightarrow> C (incoming s)"
  by (auto simp: respect_def incoming_def split: list.split)

lemma respect_tl: "respect C s \<Longrightarrow> respect C \<lparr>base = b, others = tl (others s), history = h\<rparr>"
  by (auto simp: respect_def dest: tl_others)

section \<open>Reads\<close>

lemma shared_read:
  assumes "run_state (meanwhile (serve (\<lambda>c. (found pol kind n (findObj meta n (field c)), c)))) s = (Inr x, s')"
    and "\<And>c fs. field (c\<lparr>clFaults := fs\<rparr>) = field c"
  shows "findObj meta n (field (base s')) = Some x"
proof -
  obtain c where c: "run_state (serve (\<lambda>c. (found pol kind n (findObj meta n (field c)), c))) (incoming s) = (Inr x, c)"
    and s': "base s' = c"
    using assms(1) by (auto simp: run_meanwhile)
  from read_value [OF c] show ?thesis using s' by auto
qed

lemma shared_missing:
  assumes "run_state (meanwhile (serve (\<lambda>c. (found pol kind n (findObj meta n (field c)), c)))) s = (Inl e, s')"
    and "isNotFound e" and "\<And>e. Some e \<in> set (clFaults (incoming s)) \<Longrightarrow> \<not> isNotFound e"
    and "\<And>c fs. field (c\<lparr>clFaults := fs\<rparr>) = field c"
  shows "findObj meta n (field (base s')) = None"
proof -
  obtain c where c: "run_state (serve (\<lambda>c. (found pol kind n (findObj meta n (field c)), c))) (incoming s) = (Inl e, c)"
    and s': "base s' = c"
    using assms(1) by (auto simp: run_meanwhile)
  have "Some e \<notin> set (clFaults (incoming s))" using assms(2,3) by blast
  with c show ?thesis
    by (cases "clFaults (incoming s)") (auto simp: serve_def found_def s' assms(4) split: option.splits)
qed

section \<open>Requests raised\<close>

text \<open>The requests the changes of the history wake.\<close>

definition raised :: "lib \<Rightarrow> shared \<Rightarrow> request set" where
  "raised l s = (\<Union>(t, c, c') \<in> set (history s). set (woken l c c'))"

text \<open>
  The states in which the objects are owned and others leave them so; \<open>rely\<close> says which changes
  others make.
\<close>

definition calmBase :: "lib \<Rightarrow> namespacedName \<Rightarrow> (cluster \<Rightarrow> cluster \<Rightarrow> bool) \<Rightarrow> shared \<Rightarrow> bool" where
  "calmBase l n rely s \<longleftrightarrow>
     libLaws l \<and> controllerOfLaw l \<and> (\<forall>c c'. rely c c' \<longrightarrow> ownedCluster l n c \<longrightarrow> ownedCluster l n c') \<and>
     ownedCluster l n (base s) \<and> respect (ownedCluster l n) s"

definition interfered ::
  "lib \<Rightarrow> namespacedName \<Rightarrow> (cluster \<Rightarrow> cluster \<Rightarrow> bool) \<Rightarrow> (bool \<Rightarrow> cluster \<Rightarrow> bool) \<Rightarrow> shared \<Rightarrow> bool" where
  "interfered l n rely P s \<longleftrightarrow>
     followsChanges l n P \<and> calmBase l n rely s \<and> P (ProxyPass n \<in> raised l s) (base s)"

text \<open>A pass starts in the present state, with edits to come; between passes others edit, too.\<close>

definition sharedStart :: "(cluster \<Rightarrow> cluster \<Rightarrow> bool) \<Rightarrow> shared \<Rightarrow> shared \<Rightarrow> bool" where
  "sharedStart rely s s' \<longleftrightarrow>
     base s' = base s \<and> history s' = [] \<and> (\<forall>f \<in> set (others s'). \<forall>c. rely c (f c))"

definition sharedEdit :: "(cluster \<Rightarrow> cluster \<Rightarrow> bool) \<Rightarrow> shared \<Rightarrow> shared \<Rightarrow> bool" where
  "sharedEdit rely s s' \<longleftrightarrow>
     rely (base s) (base s') \<and> (\<forall>f \<in> set (others s'). \<forall>c. rely c (f c))"

lemma raised_step:
  "q \<in> raised l \<lparr>base = b, others = f, history = h @ [(t, c, c'), (t', c', c'')]\<rparr> \<longleftrightarrow>
     (q \<in> raised l \<lparr>base = b, others = f, history = h\<rparr> \<or> q \<in> set (woken l c c')) \<or> q \<in> set (woken l c' c'')"
  by (auto simp: raised_def)

lemma raised_history: "raised l \<lparr>base = b, others = f, history = history s\<rparr> = raised l s"
  by (simp add: raised_def)

lemma interfered_meanwhile:
  assumes "maintains (ownedCluster l n) Q m"
  shows "maintains (interfered l n rely P) Q (meanwhile m)"
  unfolding maintains_def
proof (intro allI impI)
  fix s
  assume s: "interfered l n rely P s"
  obtain x c where run: "run_state m (incoming s) = (x, c)" by fastforce
  have own: "ownedCluster l n (base s)" "ownedCluster l n (incoming s)" "ownedCluster l n c" and "Q x"
    using s respect_incoming [of "ownedCluster l n" s] maintainsD [OF assms _ run]
    by (auto simp: interfered_def calmBase_def)
  have P: "followsChanges l n P" "P (ProxyPass n \<in> raised l s) (base s)" using s by (simp_all add: interfered_def)
  note step = P(1) [unfolded followsChanges_def, rule_format]
  have "P ((ProxyPass n \<in> raised l s \<or> ProxyPass n \<in> set (woken l (base s) (incoming s))) \<or>
      ProxyPass n \<in> set (woken l (incoming s) c)) c"
    by (intro step own P(2))
  then show "interfered l n rely P (snd (run_state (meanwhile m) s)) \<and> Q (fst (run_state (meanwhile m) s))"
    using s own \<open>Q x\<close>
    by (simp add: meanwhile_def run interfered_def calmBase_def respect_tl raised_step raised_history)
qed

interpretation shared: owning_client "sharing (storeReconciler pol l)" l n "interfered l n rely P" for pol l n rely P
  by unfold_locales
     (simp_all add: store_lib interfered_meanwhile owned_ticks owned_reads owned_other_writes
        owned_updateDeployment owned_updateService owned_createDeployment owned_createService)

end
