(* ===== verification/Concurrent_Queue.thy ===== *)
theory Concurrent_Queue
  imports Shared_Store
begin

text \<open>
  No drift goes unnoticed when others write between the requests of a pass.
\<close>

section \<open>The server in use is observed\<close>

lemma attentive_shared:
  assumes "\<And>P. maintains (knowing l n (interfered l n rely P) {} {}) (\<lambda>_. True) m"
  shows "attentive (interfered l n rely) m"
  by (rule attentive_known [OF assms]) (simp_all add: interfered_def calmBase_def)

lemma attentive_meanwhile:
  "maintains (ownedCluster l n) Q m \<Longrightarrow> attentive (interfered l n rely) (meanwhile m)"
  by (rule attentive_weaken) (rule interfered_meanwhile)

interpretation busy: observed "sharing (storeReconciler pol l)" l n base "raised l" "calmBase l n rely"
    "interfered l n rely" "sharedStart rely" "sharedEdit rely" for pol l n rely
proof
  show "calmBase l n rely s' \<and> base s' = base s" if "calmBase l n rely s" "sharedStart rely s s'" for s s'
    using that unfolding calmBase_def sharedStart_def respect_def by metis
  show "calmBase l n rely s'" if "calmBase l n rely s" "sharedEdit rely s s'" for s s'
    using that unfolding calmBase_def sharedEdit_def respect_def by metis
  show "findObj proxyMeta k (clProxies (base s')) = Some p"
    if "run_state (apiGetProxy (sharing (storeReconciler pol l)) k) s = (Inr p, s')" for k s p s'
    using that unfolding sharing_calls store_calls by (rule shared_read) simp
  show "findObj deploymentMeta k (clDeployments (base s')) = Some d"
    if "run_state (apiGetDeployment (sharing (storeReconciler pol l)) k) s = (Inr d, s')" for k s d s'
    using that unfolding sharing_calls store_calls by (rule shared_read) simp
  show "findObj serviceMeta k (clServices (base s')) = Some v"
    if "run_state (apiGetService (sharing (storeReconciler pol l)) k) s = (Inr v, s')" for k s v s'
    using that unfolding sharing_calls store_calls by (rule shared_read) simp
  show "findObj proxyMeta k (clProxies (base s')) = None"
    if calm: "calmBase l n rely s" and run: "run_state (apiGetProxy (sharing (storeReconciler pol l)) k) s = (Inl e, s')"
      and "isNotFound e" for k s e s'
  proof -
    have "ownedCluster l n (incoming s)"
      using calm respect_incoming [of "ownedCluster l n" s] by (simp add: calmBase_def)
    then show ?thesis
      using run \<open>isNotFound e\<close> unfolding sharing_calls store_calls
      by (intro shared_missing [where field = clProxies]) (auto simp: ownedCluster_def)
  qed
qed (simp_all only: sharing_calls store_lib interfered_def [symmetric],
  auto intro: attentive_meanwhile owned_reads attentive_shared shared.kept_isRulesetsChanged shared.kept_markedToBeDeleted
    shared.kept_setProxyStatus shared.kept_reconcileProxy shared.kept_reconcileRules simp: calmBase_def interfered_def)

section \<open>A quiet pass settles\<close>

lemma status_stored:
  assumes "run_state (setProxyStatus (sharing (storeReconciler pol l)) p cond) s = ((None, q), s')"
  shows "\<exists>t. proxyConditions (proxyStatus q) = setStatusConditionAt l t (proxyConditions (proxyStatus p)) cond"
    and "findObj proxyMeta (keyOf (proxyMeta p)) (clProxies (base s')) \<in> {None, Some q}"
proof -
  obtain t s1 where t: "run_state (meanwhile (timeNow (storeReconciler pol l))) s = (t, s1)" by fastforce
  let ?p = "p\<lparr>proxyStatus := (proxyStatus p)\<lparr>proxyConditions :=
      setStatusConditionAt l t (proxyConditions (proxyStatus p)) cond\<rparr>\<rparr>"
  have "run_state (meanwhile (apiUpdateProxyStatus (storeReconciler pol l) ?p)) s1 = (Inr q, s')"
    using assms t by (auto simp: setProxyStatus_def setProxyCondition_def run_simps store_lib
        split: prod.splits sum.splits)
  then obtain c where upd: "run_state (apiUpdateProxyStatus (storeReconciler pol l) ?p) (incoming s1) = (Inr q, c)"
    and c: "base s' = c"
    by (auto simp: run_meanwhile)
  obtain b where "storeUpdateProxy pol (\<lambda>old p. old\<lparr>proxyStatus := proxyStatus p\<rparr>) ?p b = (Inr q, c)"
    using upd unfolding store_calls by (rule serve_value)
  then obtain old where old: "findObj proxyMeta (keyOf (proxyMeta p)) (clProxies b) = Some old"
    and q: "q = old\<lparr>proxyStatus := proxyStatus ?p, proxyMeta := nextVersion (proxyMeta old) (proxyMeta old)\<rparr>"
    and w: "c = b\<lparr>clProxies := writeObj proxyMeta q (clProxies b)\<rparr>"
    by (auto simp: storeUpdateProxy_def Let_def split: option.splits)
  show "\<exists>t. proxyConditions (proxyStatus q) = setStatusConditionAt l t (proxyConditions (proxyStatus p)) cond"
    by (auto simp: q)
  have key: "keyOf (proxyMeta q) = keyOf (proxyMeta p)" using findObj_key [OF old] by (simp add: q)
  show "findObj proxyMeta (keyOf (proxyMeta p)) (clProxies (base s')) \<in> {None, Some q}"
    using old by (auto simp: c w writeObj_def key [symmetric] findObj_removeObj findObj_replaceObj_Some)
qed

lemma quiet_shared:
  assumes "calmBase l n rely s" and "ProxyPass n \<notin> raised l s'"
    and "run_state (reconcileProxy (sharing (storeReconciler pol l)) n) s = (Value (noRequeue, None), s')"
  shows "settled l n (base s')"
proof (rule settled_workload)
  note quiet = busy.quiet_workload [OF assms]
  then show "workloadSettled l n (base s')" by blast
  fix p
  assume p: "findObj proxyMeta n (clProxies (base s')) = Some p" "metaDeletionTimestamp (proxyMeta p) = None"
  then obtain p0 s4 q where p0: "keyOf (proxyMeta p0) = n" "proxySpec p = proxySpec p0"
    "metaName (proxyMeta p) = metaName (proxyMeta p0)"
    and st: "run_state (setProxyStatus (sharing (storeReconciler pol l)) p0 (proxyAvailable p0 (specSize (proxySpec p0)))) s4 =
      ((None, q), s')"
    using quiet by blast
  have "p = q" using status_stored(2) [OF st] p(1) p0(1) by auto
  moreover have "libLaws l" using assms(1) by (simp add: calmBase_def)
  ultimately obtain av where av: "conditionOf typeAvailableVillipProxy (proxyConditions (proxyStatus p)) = Some av"
    "sameVerdict av (proxyAvailable p0 (specSize (proxySpec p0)))"
    using status_stored(1) [OF st] libLaws_set_same [of l "proxyAvailable p0 (specSize (proxySpec p0))"]
    by (metis condition.select_convs(1) mkCondition_def proxyAvailable_def)
  have "proxyAvailable p (specSize (proxySpec p)) = proxyAvailable p0 (specSize (proxySpec p0))"
    by (simp only: proxyAvailable_def p0(2,3))
  then show "availableNow l (base s') n" using p(1) av by (simp add: availableNow_def)
qed

text \<open>C4: the operator does not miss a drift even if others write while it works.  Start with the proxy's
  request waiting and let passes over any objects follow in any order, with failing requests,
  resyncs and edits by others, between the passes and between any two requests of a pass, as
  long as the edits leave the Deployment and the Service of the name to the proxy.  Then after
  each pass the request of the proxy waits to be served, or the proxy is gone or going, or its
  Deployment and its Service have the right size and ports and its status says Available.\<close>

theorem no_drift_under_interference:
  assumes "refines \<alpha> r (sharing (storeReconciler pol (lib r)))" and "libLaws (lib r)" and "controllerOfLaw (lib r)"
    and "\<And>c c'. rely c c' \<Longrightarrow> ownedCluster (lib r) n c \<Longrightarrow> ownedCluster (lib r) n c'"
    and "busyReach \<alpha> r base (raised (lib r)) (sharedStart rely) (sharedEdit rely) m0 m"
    and "ownedCluster (lib r) n (base (\<alpha> (world m0)))" and "others (\<alpha> (world m0)) = []" and "ProxyPass n \<in> pending m0"
  shows "ProxyPass n \<in> pending m \<or> settled (lib r) n (base (\<alpha> (world m)))"
proof -
  have "calmBase (lib r) n rely (\<alpha> (world m0))"
    using assms(2-4,6,7) by (auto simp: calmBase_def respect_def)
  moreover have "\<forall>c c'. sameNamed n c c' \<longrightarrow> settled (lib r) n c \<longrightarrow> settled (lib r) n c'"
    using settled_sameNamed by blast
  moreover have "\<forall>s s'. calmBase (lib r) n rely s \<longrightarrow> ProxyPass n \<notin> raised (lib r) s' \<longrightarrow>
      run_state (reconcileProxy (sharing (storeReconciler pol (lib r))) n) s = (Value (noRequeue, None), s') \<longrightarrow>
      settled (lib r) n (base s')"
    using quiet_shared by blast
  ultimately show ?thesis
    using busy.never_missed [OF assms(1) _ _ assms(5) _ assms(8)] by blast
qed

end
