(* ===== verification/Lagging_Store.thy ===== *)
theory Lagging_Store
  imports Shared_Store
begin

text \<open>
  The client of controller-runtime: what it writes goes to the server, what it reads comes from
  a cache that the watch of the server fills, later.  \<open>cached r\<close> is a client over the states of
  both.  Before each request of a pass others may edit the server, and the watch may deliver any
  of it; \<open>moves\<close> is the list of both.  A move that copies the server to the cache before each read
  makes the reads those of \<open>Shared_Store\<close>.
\<close>

section \<open>Reads from the cache, writes to the server\<close>

record lagging =
  server :: cluster
  cache :: cluster
  moves :: "(cluster \<times> cluster \<Rightarrow> cluster \<times> cluster) list"
  changes :: "(writer \<times> cluster \<times> cluster) list"
  delivered :: "(cluster \<times> cluster) list"

definition moved :: "lagging \<Rightarrow> cluster \<times> cluster" where
  "moved s = (case moves s of [] \<Rightarrow> (server s, cache s) | f # _ \<Rightarrow> f (server s, cache s))"

definition toServer :: "(cluster, 'a) go \<Rightarrow> (lagging, 'a) go" where
  "toServer m = State (\<lambda>s.
     case moved s of (v, k) \<Rightarrow>
     case run_state m v of (x, v') \<Rightarrow>
       (x, \<lparr>server = v', cache = k, moves = tl (moves s),
            changes = changes s @ [(Somebody, server s, v), (Operator, v, v')],
            delivered = delivered s @ [(cache s, k)]\<rparr>))"

definition fromCache :: "(cluster, 'a) go \<Rightarrow> (lagging, 'a) go" where
  "fromCache m = State (\<lambda>s.
     case moved s of (v, k) \<Rightarrow>
     case run_state m k of (x, k') \<Rightarrow>
       (x, \<lparr>server = v, cache = k', moves = tl (moves s),
            changes = changes s @ [(Somebody, server s, v)],
            delivered = delivered s @ [(cache s, k')]\<rparr>))"

definition cached :: "cluster reconciler \<Rightarrow> lagging reconciler" where
  "cached r =
     \<lparr>lib = lib r,
      apiGetProxy = (\<lambda>n. fromCache (apiGetProxy r n)),
      apiUpdateProxy = (\<lambda>p. toServer (apiUpdateProxy r p)),
      apiUpdateProxyStatus = (\<lambda>p. toServer (apiUpdateProxyStatus r p)),
      apiGetRules = (\<lambda>n. fromCache (apiGetRules r n)),
      apiUpdateRules = (\<lambda>q. toServer (apiUpdateRules r q)),
      apiUpdateRulesStatus = (\<lambda>q. toServer (apiUpdateRulesStatus r q)),
      apiPatchRules = (\<lambda>q x. toServer (apiPatchRules r q x)),
      apiGetDeployment = (\<lambda>n. fromCache (apiGetDeployment r n)),
      apiCreateDeployment = (\<lambda>d. toServer (apiCreateDeployment r d)),
      apiUpdateDeployment = (\<lambda>d. toServer (apiUpdateDeployment r d)),
      apiListDeployments = (\<lambda>ns sel. fromCache (apiListDeployments r ns sel)),
      apiGetService = (\<lambda>n. fromCache (apiGetService r n)),
      apiCreateService = (\<lambda>s. toServer (apiCreateService r s)),
      apiUpdateService = (\<lambda>s. toServer (apiUpdateService r s)),
      apiGetConfigMap = (\<lambda>n. fromCache (apiGetConfigMap r n)),
      apiCreateConfigMap = (\<lambda>m. toServer (apiCreateConfigMap r m)),
      apiUpdateConfigMap = (\<lambda>m. toServer (apiUpdateConfigMap r m)),
      apiListConfigMaps = (\<lambda>ns sel. fromCache (apiListConfigMaps r ns sel)),
      recordEvent = (\<lambda>n t x y. toServer (recordEvent r n t x y)),
      timeNow = toServer (timeNow r),
      timeNowString = toServer (timeNowString r)\<rparr>"

lemma cached_calls [simp]:
  "lib (cached r) = lib r"
  "apiGetProxy (cached r) n = fromCache (apiGetProxy r n)"
  "apiUpdateProxy (cached r) p = toServer (apiUpdateProxy r p)"
  "apiUpdateProxyStatus (cached r) p = toServer (apiUpdateProxyStatus r p)"
  "apiGetRules (cached r) n = fromCache (apiGetRules r n)"
  "apiUpdateRules (cached r) q = toServer (apiUpdateRules r q)"
  "apiUpdateRulesStatus (cached r) q = toServer (apiUpdateRulesStatus r q)"
  "apiPatchRules (cached r) q x = toServer (apiPatchRules r q x)"
  "apiGetDeployment (cached r) n = fromCache (apiGetDeployment r n)"
  "apiCreateDeployment (cached r) d = toServer (apiCreateDeployment r d)"
  "apiUpdateDeployment (cached r) d = toServer (apiUpdateDeployment r d)"
  "apiListDeployments (cached r) ns sel = fromCache (apiListDeployments r ns sel)"
  "apiGetService (cached r) n = fromCache (apiGetService r n)"
  "apiCreateService (cached r) s = toServer (apiCreateService r s)"
  "apiUpdateService (cached r) s = toServer (apiUpdateService r s)"
  "apiGetConfigMap (cached r) n = fromCache (apiGetConfigMap r n)"
  "apiCreateConfigMap (cached r) m = toServer (apiCreateConfigMap r m)"
  "apiUpdateConfigMap (cached r) m = toServer (apiUpdateConfigMap r m)"
  "apiListConfigMaps (cached r) ns sel' = fromCache (apiListConfigMaps r ns sel')"
  "recordEvent (cached r) n t a b = toServer (recordEvent r n t a b)"
  "timeNow (cached r) = toServer (timeNow r)"
  "timeNowString (cached r) = toServer (timeNowString r)"
  by (simp_all add: cached_def)

lemma tl_moves: "f \<in> set (tl (moves s)) \<Longrightarrow> f \<in> set (moves s)"
  by (cases "moves s") simp_all

text \<open>What the moves keep.\<close>

definition orderly :: "(cluster \<times> cluster \<Rightarrow> bool) \<Rightarrow> lagging \<Rightarrow> bool" where
  "orderly C s \<longleftrightarrow> (\<forall>f \<in> set (moves s). \<forall>x. C x \<longrightarrow> C (f x))"

lemma orderly_moved: "orderly C s \<Longrightarrow> C (server s, cache s) \<Longrightarrow> C (moved s)"
  by (auto simp: orderly_def moved_def split: list.split)

lemma orderly_tl:
  "orderly C s \<Longrightarrow> orderly C \<lparr>server = v, cache = k, moves = tl (moves s), changes = h, delivered = h'\<rparr>"
  by (auto simp: orderly_def dest: tl_moves)

section \<open>Reads\<close>

lemma cached_read:
  assumes "run_state (fromCache (serve (\<lambda>c. (found pol kind n (findObj meta n (field c)), c)))) s = (Inr x, s')"
    and "\<And>c fs. field (c\<lparr>clFaults := fs\<rparr>) = field c"
  shows "findObj meta n (field (cache s')) = Some x"
proof -
  obtain v k where m: "moved s = (v, k)" by fastforce
  obtain k' where k': "run_state (serve (\<lambda>c. (found pol kind n (findObj meta n (field c)), c))) k = (Inr x, k')"
    and s': "cache s' = k'"
    using assms(1) by (auto simp: fromCache_def m split: prod.splits)
  from read_value [OF k'] show ?thesis using s' by auto
qed

lemma cached_missing:
  assumes "run_state (fromCache (serve (\<lambda>c. (found pol kind n (findObj meta n (field c)), c)))) s = (Inl e, s')"
    and "isNotFound e" and "\<And>e. Some e \<in> set (clFaults (snd (moved s))) \<Longrightarrow> \<not> isNotFound e"
    and "\<And>c fs. field (c\<lparr>clFaults := fs\<rparr>) = field c"
  shows "findObj meta n (field (cache s')) = None"
proof -
  obtain v k where m: "moved s = (v, k)" by fastforce
  obtain k' where k': "run_state (serve (\<lambda>c. (found pol kind n (findObj meta n (field c)), c))) k = (Inl e, k')"
    and s': "cache s' = k'"
    using assms(1) by (auto simp: fromCache_def m split: prod.splits)
  have "Some e \<notin> set (clFaults k)" using assms(2,3) by (auto simp: m)
  with k' show ?thesis
    by (cases "clFaults k") (auto simp: serve_def found_def s' assms(4) split: option.splits)
qed

section \<open>Requests heard of\<close>

text \<open>The controllers are woken when the cache changes.\<close>

definition heard :: "lib \<Rightarrow> lagging \<Rightarrow> request set" where
  "heard l s = (\<Union>(c, c') \<in> set (delivered s). set (woken l c c'))"

definition bothOwned :: "lib \<Rightarrow> namespacedName \<Rightarrow> cluster \<times> cluster \<Rightarrow> bool" where
  "bothOwned l n x \<longleftrightarrow> ownedCluster l n (fst x) \<and> ownedCluster l n (snd x)"

text \<open>
  The states in which the objects of both are owned and the moves leave them so; \<open>rely\<close> says
  which moves there are.
\<close>

definition calmCache ::
  "lib \<Rightarrow> namespacedName \<Rightarrow> (cluster \<times> cluster \<Rightarrow> cluster \<times> cluster \<Rightarrow> bool) \<Rightarrow> lagging \<Rightarrow> bool" where
  "calmCache l n rely s \<longleftrightarrow>
     libLaws l \<and> controllerOfLaw l \<and> (\<forall>x x'. rely x x' \<longrightarrow> bothOwned l n x \<longrightarrow> bothOwned l n x') \<and>
     bothOwned l n (server s, cache s) \<and> orderly (bothOwned l n) s"

definition lagged ::
  "lib \<Rightarrow> namespacedName \<Rightarrow> (cluster \<times> cluster \<Rightarrow> cluster \<times> cluster \<Rightarrow> bool) \<Rightarrow> (bool \<Rightarrow> cluster \<Rightarrow> bool) \<Rightarrow>
     lagging \<Rightarrow> bool" where
  "lagged l n rely P s \<longleftrightarrow>
     followsChanges l n P \<and> calmCache l n rely s \<and> P (ProxyPass n \<in> heard l s) (cache s)"

text \<open>A pass starts in the present state, with moves to come; between passes there are moves, too.\<close>

definition cachedStart :: "(cluster \<times> cluster \<Rightarrow> cluster \<times> cluster \<Rightarrow> bool) \<Rightarrow> lagging \<Rightarrow> lagging \<Rightarrow> bool" where
  "cachedStart rely s s' \<longleftrightarrow>
     server s' = server s \<and> cache s' = cache s \<and> changes s' = [] \<and> delivered s' = [] \<and>
     (\<forall>f \<in> set (moves s'). \<forall>x. rely x (f x))"

definition cachedMove :: "(cluster \<times> cluster \<Rightarrow> cluster \<times> cluster \<Rightarrow> bool) \<Rightarrow> lagging \<Rightarrow> lagging \<Rightarrow> bool" where
  "cachedMove rely s s' \<longleftrightarrow>
     rely (server s, cache s) (server s', cache s') \<and> (\<forall>f \<in> set (moves s'). \<forall>x. rely x (f x))"

lemma heard_step:
  "q \<in> heard l \<lparr>server = v, cache = k, moves = f, changes = h, delivered = delivered s @ [(c, c')]\<rparr> \<longleftrightarrow>
     q \<in> heard l s \<or> q \<in> set (woken l c c')"
  by (auto simp: heard_def)

lemma lagged_step:
  assumes "lagged l n rely P s" and "ownedCluster l n v'" and "ownedCluster l n k'"
  shows "lagged l n rely P \<lparr>server = v', cache = k', moves = tl (moves s), changes = h,
    delivered = delivered s @ [(cache s, k')]\<rparr>"
proof -
  have "followsChanges l n P" "P (ProxyPass n \<in> heard l s) (cache s)" "ownedCluster l n (cache s)"
    using assms(1) by (simp_all add: lagged_def calmCache_def bothOwned_def)
  then have "P (ProxyPass n \<in> heard l s \<or> ProxyPass n \<in> set (woken l (cache s) k')) k'"
    using assms(3) unfolding followsChanges_def by blast
  then show ?thesis
    using assms by (simp add: lagged_def calmCache_def bothOwned_def heard_step orderly_tl)
qed

lemma lagged_moved:
  "lagged l n rely P s \<Longrightarrow> moved s = (v, k) \<Longrightarrow> ownedCluster l n v \<and> ownedCluster l n k"
  using orderly_moved [of "bothOwned l n" s] by (simp add: lagged_def calmCache_def bothOwned_def)

lemma lagged_toServer:
  assumes "maintains (ownedCluster l n) Q m"
  shows "maintains (lagged l n rely P) Q (toServer m)"
  unfolding maintains_def
proof (intro allI impI)
  fix s
  assume s: "lagged l n rely P s"
  obtain v k where m: "moved s = (v, k)" by fastforce
  obtain x v' where run: "run_state m v = (x, v')" by fastforce
  have "ownedCluster l n v' \<and> Q x" "ownedCluster l n k"
    using maintainsD [OF assms _ run] lagged_moved [OF s m] by simp_all
  then show "lagged l n rely P (snd (run_state (toServer m) s)) \<and> Q (fst (run_state (toServer m) s))"
    using lagged_step [OF s] by (simp add: toServer_def m run)
qed

lemma lagged_fromCache:
  assumes "maintains (ownedCluster l n) Q m"
  shows "maintains (lagged l n rely P) Q (fromCache m)"
  unfolding maintains_def
proof (intro allI impI)
  fix s
  assume s: "lagged l n rely P s"
  obtain v k where m: "moved s = (v, k)" by fastforce
  obtain x k' where run: "run_state m k = (x, k')" by fastforce
  have "ownedCluster l n k' \<and> Q x" "ownedCluster l n v"
    using maintainsD [OF assms _ run] lagged_moved [OF s m] by simp_all
  then show "lagged l n rely P (snd (run_state (fromCache m) s)) \<and> Q (fst (run_state (fromCache m) s))"
    using lagged_step [OF s] by (simp add: fromCache_def m run)
qed

interpretation lagging: owning_client "cached (storeReconciler pol l)" l n "lagged l n rely P" for pol l n rely P
  by unfold_locales
     (simp_all add: store_lib lagged_toServer lagged_fromCache owned_ticks owned_reads owned_other_writes
        owned_updateDeployment owned_updateService owned_createDeployment owned_createService)

end
