(* ===== verification/Stale_Queue.thy ===== *)
theory Stale_Queue
  imports Lagging_Store
begin

text \<open>
  No drift goes unnoticed by a client that reads from a cache: what the pass read may be out of
  date, but then the news are still to come, and they wake the controller.
\<close>

lemma attentive_lagging:
  assumes "\<And>P. maintains (knowing l n (lagged l n rely P) {} {}) (\<lambda>_. True) m"
  shows "attentive (lagged l n rely) m"
  by (rule attentive_known [OF assms]) (simp_all add: lagged_def calmCache_def)

lemma attentive_fromCache:
  "maintains (ownedCluster l n) Q m \<Longrightarrow> attentive (lagged l n rely) (fromCache m)"
  by (rule attentive_weaken) (rule lagged_fromCache)

interpretation stale: observed "cached (storeReconciler pol l)" l n cache "heard l" "calmCache l n rely"
    "lagged l n rely" "cachedStart rely" "cachedMove rely" for pol l n rely
proof
  show "calmCache l n rely s' \<and> cache s' = cache s" if "calmCache l n rely s" "cachedStart rely s s'" for s s'
    using that unfolding calmCache_def cachedStart_def orderly_def by metis
  show "calmCache l n rely s'" if "calmCache l n rely s" "cachedMove rely s s'" for s s'
    using that unfolding calmCache_def cachedMove_def orderly_def by metis
  show "findObj proxyMeta k (clProxies (cache s')) = Some p"
    if "run_state (apiGetProxy (cached (storeReconciler pol l)) k) s = (Inr p, s')" for k s p s'
    using that unfolding cached_calls store_calls by (rule cached_read) simp
  show "findObj deploymentMeta k (clDeployments (cache s')) = Some d"
    if "run_state (apiGetDeployment (cached (storeReconciler pol l)) k) s = (Inr d, s')" for k s d s'
    using that unfolding cached_calls store_calls by (rule cached_read) simp
  show "findObj serviceMeta k (clServices (cache s')) = Some v"
    if "run_state (apiGetService (cached (storeReconciler pol l)) k) s = (Inr v, s')" for k s v s'
    using that unfolding cached_calls store_calls by (rule cached_read) simp
  show "findObj proxyMeta k (clProxies (cache s')) = None"
    if calm: "calmCache l n rely s" and run: "run_state (apiGetProxy (cached (storeReconciler pol l)) k) s = (Inl e, s')"
      and "isNotFound e" for k s e s'
  proof -
    have "ownedCluster l n (snd (moved s))"
      using calm orderly_moved [of "bothOwned l n" s] by (simp add: calmCache_def bothOwned_def)
    then show ?thesis
      using run \<open>isNotFound e\<close> unfolding cached_calls store_calls
      by (intro cached_missing [where field = clProxies]) (auto simp: ownedCluster_def)
  qed
qed (simp_all only: cached_calls store_lib lagged_def [symmetric],
  auto intro: attentive_fromCache owned_reads attentive_lagging lagging.kept_isRulesetsChanged lagging.kept_markedToBeDeleted
    lagging.kept_setProxyStatus lagging.kept_reconcileProxy lagging.kept_reconcileRules
    simp: calmCache_def lagged_def bothOwned_def)

text \<open>C5: nor does the operator miss a drift because it reads from a cache.  Writes go to the server,
  reads come from a cache that hears of changes later and is what wakes the controllers.  Start
  with the proxy's request waiting and let passes follow in any order, with failing requests,
  edits by others and news for the cache between any two requests.  Then after each pass the
  request of the proxy waits to be served, or, as far as the cache has heard, the proxy is gone
  or going, or its Deployment and its Service have the right size and ports; and once the cache
  has heard all about the objects of the name, that is the state of the server.\<close>

theorem no_drift_with_stale_reads:
  assumes "refines \<alpha> r (cached (storeReconciler pol (lib r)))" and "libLaws (lib r)" and "controllerOfLaw (lib r)"
    and "\<And>x x'. rely x x' \<Longrightarrow> bothOwned (lib r) n x \<Longrightarrow> bothOwned (lib r) n x'"
    and "busyReach \<alpha> r cache (heard (lib r)) (cachedStart rely) (cachedMove rely) m0 m"
    and "bothOwned (lib r) n (server (\<alpha> (world m0)), cache (\<alpha> (world m0)))" and "moves (\<alpha> (world m0)) = []"
    and "ProxyPass n \<in> pending m0"
  shows "ProxyPass n \<in> pending m \<or>
    workloadSettled (lib r) n (cache (\<alpha> (world m))) \<and>
    (sameNamed n (cache (\<alpha> (world m))) (server (\<alpha> (world m))) \<longrightarrow>
       workloadSettled (lib r) n (server (\<alpha> (world m))))"
proof -
  have "calmCache (lib r) n rely (\<alpha> (world m0))"
    using assms(2-4,6,7) by (auto simp: calmCache_def orderly_def)
  moreover have "\<forall>c c'. sameNamed n c c' \<longrightarrow> workloadSettled (lib r) n c \<longrightarrow> workloadSettled (lib r) n c'"
    using workload_sameNamed by blast
  moreover have "\<forall>s s'. calmCache (lib r) n rely s \<longrightarrow> ProxyPass n \<notin> heard (lib r) s' \<longrightarrow>
      run_state (reconcileProxy (cached (storeReconciler pol (lib r))) n) s = (Value (noRequeue, None), s') \<longrightarrow>
      workloadSettled (lib r) n (cache s')"
    using stale.quiet_workload by blast
  ultimately show ?thesis
    using stale.never_missed [OF assms(1) _ _ assms(5) _ assms(8)] workload_sameNamed by blast
qed

end
