(* ===== verification/Lost_Update.thy ===== *)
theory Lost_Update
  imports Lagging_Store
begin

text \<open>
  No update is lost.  The API server refuses an update whose resource version is not the stored
  one, and the reconcilers send what they read, with their edits, at the version they read it,
  which may be an old one, since they read from a cache.  So whatever others change before the
  write survives: what a request of the operator does change in a Deployment or a Service are
  the fields the operator manages.
\<close>

section \<open>Versions of an object list\<close>

definition storedIn :: "('a \<Rightarrow> objectMeta) \<Rightarrow> 'a list \<Rightarrow> bool" where
  "storedIn meta xs \<longleftrightarrow>
     distinct (map (\<lambda>x. keyOf (meta x)) xs) \<and> (\<forall>x \<in> set xs. \<not> finalized (meta x))"

text \<open>The object \<open>x\<close> is still there, or a later version of it.\<close>

definition laterIn :: "('a \<Rightarrow> objectMeta) \<Rightarrow> 'a \<Rightarrow> 'a list \<Rightarrow> bool" where
  "laterIn meta x xs \<longleftrightarrow>
     (\<exists>y. findObj meta (keyOf (meta x)) xs = Some y \<and>
        (y = x \<or> metaResourceVersion (meta x) < metaResourceVersion (meta y)))"

text \<open>Objects do not go away, and a change gives an object a later version.\<close>

definition forwardIn :: "('a \<Rightarrow> objectMeta) \<Rightarrow> 'a list \<Rightarrow> 'a list \<Rightarrow> bool" where
  "forwardIn meta xs ys \<longleftrightarrow>
     (\<forall>k x. findObj meta k xs = Some x \<longrightarrow>
        (\<exists>y. findObj meta k ys = Some y \<and>
           (y = x \<or> metaResourceVersion (meta x) < metaResourceVersion (meta y))))"

text \<open>Objects do not go away, and keep what \<open>plain\<close> leaves of them.\<close>

definition gentleIn :: "('a \<Rightarrow> 'b) \<Rightarrow> ('a \<Rightarrow> objectMeta) \<Rightarrow> 'a list \<Rightarrow> 'a list \<Rightarrow> bool" where
  "gentleIn plain meta xs ys \<longleftrightarrow>
     (\<forall>k x. findObj meta k xs = Some x \<longrightarrow> (\<exists>y. findObj meta k ys = Some y \<and> plain y = plain x))"

lemma gentleIn_refl [simp]: "gentleIn plain meta xs xs"
  by (simp add: gentleIn_def)

lemma laterIn_self: "findObj meta k xs = Some x \<Longrightarrow> laterIn meta x xs"
  using findObj_key [of meta k xs x] by (auto simp: laterIn_def)

lemma laterIn_forward:
  assumes "laterIn meta x xs" and "forwardIn meta xs ys"
  shows "laterIn meta x ys"
proof -
  obtain y where y: "findObj meta (keyOf (meta x)) xs = Some y"
    "y = x \<or> metaResourceVersion (meta x) < metaResourceVersion (meta y)"
    using assms(1) by (auto simp: laterIn_def)
  obtain z where z: "findObj meta (keyOf (meta x)) ys = Some z"
    "z = y \<or> metaResourceVersion (meta y) < metaResourceVersion (meta z)"
    using assms(2) y(1) unfolding forwardIn_def by blast
  then show ?thesis using y(2) by (auto simp: laterIn_def)
qed

lemma replace_lists:
  assumes "findObj meta k xs = Some old" and "keyOf (meta new) = k"
    and "metaResourceVersion (meta new) = Suc (metaResourceVersion (meta old))" and "\<not> finalized (meta new)"
  shows "storedIn meta xs \<Longrightarrow> storedIn meta (replaceObj meta new xs)"
    and "forwardIn meta xs (replaceObj meta new xs)"
    and "laterIn meta new (replaceObj meta new xs)"
    and "plain new = plain old \<Longrightarrow> gentleIn plain meta xs (replaceObj meta new xs)"
proof -
  have keys: "map (\<lambda>x. keyOf (meta x)) (replaceObj meta new xs) = map (\<lambda>x. keyOf (meta x)) xs"
    by (simp add: replaceObj_def)
  have "\<forall>x \<in> set xs. \<not> finalized (meta x) \<Longrightarrow> \<forall>x \<in> set (replaceObj meta new xs). \<not> finalized (meta x)"
    using assms(4) by (auto simp: replaceObj_def)
  then show "storedIn meta xs \<Longrightarrow> storedIn meta (replaceObj meta new xs)"
    by (simp add: storedIn_def keys)
  have found: "findObj meta j (replaceObj meta new xs) =
      (case findObj meta j xs of None \<Rightarrow> None | Some y \<Rightarrow> if k = j then Some new else Some y)" for j
    using assms(2) by (simp add: findObj_replaceObj split: option.split)
  show "forwardIn meta xs (replaceObj meta new xs)"
    using assms(1,3) by (auto simp: forwardIn_def found)
  show "laterIn meta new (replaceObj meta new xs)"
    using assms(1,2) by (auto simp: laterIn_def found)
  show "plain new = plain old \<Longrightarrow> gentleIn plain meta xs (replaceObj meta new xs)"
    using assms(1) by (auto simp: gentleIn_def found)
qed

lemma snoc_lists:
  assumes "findObj meta (keyOf (meta new)) xs = None" and "\<not> finalized (meta new)"
  shows "storedIn meta xs \<Longrightarrow> storedIn meta (xs @ [new])"
    and "forwardIn meta xs (xs @ [new])" and "gentleIn plain meta xs (xs @ [new])"
proof -
  show "storedIn meta xs \<Longrightarrow> storedIn meta (xs @ [new])"
    using assms by (auto simp: storedIn_def findObj_def find_None_iff)
qed (simp_all add: forwardIn_def gentleIn_def findObj_snoc)

section \<open>The invariant\<close>

definition stored :: "cluster \<Rightarrow> bool" where
  "stored c \<longleftrightarrow> storedIn deploymentMeta (clDeployments c) \<and> storedIn serviceMeta (clServices c)"

definition versioned :: "deployment set \<Rightarrow> service set \<Rightarrow> cluster \<Rightarrow> bool" where
  "versioned S T c \<longleftrightarrow>
     stored c \<and> (\<forall>d \<in> S. laterIn deploymentMeta d (clDeployments c)) \<and>
     (\<forall>s \<in> T. laterIn serviceMeta s (clServices c))"

text \<open>What others do, and what a request of the operator does.\<close>

definition forward :: "cluster \<Rightarrow> cluster \<Rightarrow> bool" where
  "forward c c' \<longleftrightarrow>
     (stored c \<longrightarrow> stored c') \<and>
     forwardIn deploymentMeta (clDeployments c) (clDeployments c') \<and>
     forwardIn serviceMeta (clServices c) (clServices c')"

definition gentle :: "cluster \<Rightarrow> cluster \<Rightarrow> bool" where
  "gentle c c' \<longleftrightarrow>
     gentleIn unmanaged deploymentMeta (clDeployments c) (clDeployments c') \<and>
     gentleIn unmanagedService serviceMeta (clServices c) (clServices c')"

text \<open>The cache is behind the server: it has the present version of an object, or an older one.\<close>

definition behind :: "cluster \<times> cluster \<Rightarrow> bool" where
  "behind x \<longleftrightarrow> versioned (set (clDeployments (snd x))) (set (clServices (snd x))) (fst x)"

text \<open>What may happen meanwhile: others move the server forward, and the cache stays behind it.\<close>

definition onward :: "(cluster \<times> cluster \<Rightarrow> cluster \<times> cluster) \<Rightarrow> bool" where
  "onward f \<longleftrightarrow> (\<forall>x. behind x \<longrightarrow> forward (fst x) (fst (f x)) \<and> behind (f x))"

definition versionsKept :: "lib \<Rightarrow> deployment set \<Rightarrow> service set \<Rightarrow> lagging \<Rightarrow> bool" where
  "versionsKept l S T s \<longleftrightarrow>
     libLaws l \<and>
     versioned (S \<union> set (clDeployments (cache s))) (T \<union> set (clServices (cache s))) (server s) \<and>
     (\<forall>f \<in> set (moves s). onward f) \<and>
     (\<forall>c c'. (Operator, c, c') \<in> set (changes s) \<longrightarrow> gentle c c')"

lemma versioned_union:
  "versioned (S \<union> S') (T \<union> T') c \<longleftrightarrow> versioned S T c \<and> versioned S' T' c"
  by (auto simp: versioned_def)

lemma versionsKept_behind:
  "versionsKept l S T s \<longleftrightarrow>
     libLaws l \<and> versioned S T (server s) \<and> behind (server s, cache s) \<and>
     (\<forall>f \<in> set (moves s). onward f) \<and>
     (\<forall>c c'. (Operator, c, c') \<in> set (changes s) \<longrightarrow> gentle c c')"
  by (auto simp: versionsKept_def behind_def versioned_union)

lemma versioned_forward: "versioned S T c \<Longrightarrow> forward c c' \<Longrightarrow> versioned S T c'"
  by (auto simp: versioned_def forward_def intro: laterIn_forward)

text \<open>A request that may learn Deployments and Services from its answer.\<close>

definition careful ::
  "deployment set \<Rightarrow> service set \<Rightarrow> ('a \<Rightarrow> deployment set) \<Rightarrow> ('a \<Rightarrow> service set) \<Rightarrow> (cluster, 'a) go \<Rightarrow> bool" where
  "careful S T D E m \<longleftrightarrow>
     (\<forall>c x c'. versioned S T c \<longrightarrow> run_state m c = (x, c') \<longrightarrow>
        versioned (D x \<union> S) (E x \<union> T) c' \<and> gentle c c')"

lemma versions_moved:
  assumes "versionsKept l S T s" and "moved s = (v, k)"
  shows "versioned S T v" and "behind (v, k)"
proof -
  have s: "versioned S T (server s)" "behind (server s, cache s)" "\<forall>f \<in> set (moves s). onward f"
    using assms(1) by (simp_all add: versionsKept_behind)
  have "forward (server s) v \<and> behind (v, k)" if "moves s = f # fs" for f fs
  proof -
    have "onward f" "f (server s, cache s) = (v, k)"
      using that s(3) assms(2) by (simp_all add: moved_def)
    then show ?thesis using s(2) unfolding onward_def by (metis fst_conv)
  qed
  then show "versioned S T v" and "behind (v, k)"
    using s assms(2) versioned_forward by (auto simp: moved_def split: list.splits)
qed

lemma careful_toServer:
  assumes "\<And>S' T'. libLaws l \<Longrightarrow> S \<subseteq> S' \<Longrightarrow> T \<subseteq> T' \<Longrightarrow> careful S' T' D E m"
  shows "triple (versionsKept l S T) (toServer m) (\<lambda>x. versionsKept l (D x \<union> S) (E x \<union> T))"
  unfolding triple_def
proof (intro allI impI)
  fix s
  assume s: "versionsKept l S T s"
  obtain v k where m: "moved s = (v, k)" by fastforce
  obtain x v' where run: "run_state m v = (x, v')" by fastforce
  let ?S = "S \<union> set (clDeployments k)" and ?T = "T \<union> set (clServices k)"
  have "versioned ?S ?T v"
    using versions_moved [OF s m] by (simp add: versioned_union behind_def)
  moreover have "careful ?S ?T D E m" using assms s by (simp add: versionsKept_def)
  ultimately have "versioned (D x \<union> ?S) (E x \<union> ?T) v' \<and> gentle v v'"
    using run unfolding careful_def by blast
  then show "versionsKept l (D (fst (run_state (toServer m) s)) \<union> S) (E (fst (run_state (toServer m) s)) \<union> T)
      (snd (run_state (toServer m) s))"
    using s by (auto simp: toServer_def m run versionsKept_behind versioned_union behind_def dest: tl_moves)
qed

lemma careful_keeps:
  assumes "\<And>S' T'. libLaws l \<Longrightarrow> S \<subseteq> S' \<Longrightarrow> T \<subseteq> T' \<Longrightarrow> careful S' T' (\<lambda>_. {}) (\<lambda>_. {}) m"
  shows "maintains (versionsKept l S T) (\<lambda>_. True) (toServer m)"
  using careful_toServer [of l S T "\<lambda>_. {}" "\<lambda>_. {}" m] assms by (simp add: triple_def maintains_def)

text \<open>A read, and the objects its answer has.\<close>

definition reading ::
  "('a \<Rightarrow> deployment set) \<Rightarrow> ('a \<Rightarrow> service set) \<Rightarrow> (cluster, 'a) go \<Rightarrow> bool" where
  "reading D E m \<longleftrightarrow>
     (\<forall>k x k'. run_state m k = (x, k') \<longrightarrow>
        clDeployments k' = clDeployments k \<and> clServices k' = clServices k \<and>
        D x \<subseteq> set (clDeployments k) \<and> E x \<subseteq> set (clServices k))"

lemma reading_fromCache:
  assumes "reading D E m"
  shows "triple (versionsKept l S T) (fromCache m) (\<lambda>x. versionsKept l (D x \<union> S) (E x \<union> T))"
  unfolding triple_def
proof (intro allI impI)
  fix s
  assume s: "versionsKept l S T s"
  obtain v k where m: "moved s = (v, k)" by fastforce
  obtain x k' where run: "run_state m k = (x, k')" by fastforce
  have same: "clDeployments k' = clDeployments k" "clServices k' = clServices k"
    and in_cache: "D x \<subseteq> set (clDeployments k)" "E x \<subseteq> set (clServices k)"
    using assms run unfolding reading_def by blast+
  have "versioned S T v" "behind (v, k)" by (rule versions_moved [OF s m])+
  moreover from this have "versioned (D x) (E x) v"
    using in_cache by (auto simp: behind_def versioned_def)
  ultimately have "versioned (D x \<union> S) (E x \<union> T) v" "behind (v, k')"
    by (simp_all add: versioned_union behind_def same)
  then show "versionsKept l (D (fst (run_state (fromCache m) s)) \<union> S) (E (fst (run_state (fromCache m) s)) \<union> T)
      (snd (run_state (fromCache m) s))"
    using s by (auto simp: fromCache_def m run versionsKept_behind dest: tl_moves)
qed

lemma reading_keeps:
  "reading (\<lambda>_. {}) (\<lambda>_. {}) m \<Longrightarrow> maintains (versionsKept l S T) (\<lambda>_. True) (fromCache m)"
  using reading_fromCache [of "\<lambda>_. {}" "\<lambda>_. {}" m l S T] by (simp add: triple_def maintains_def)

section \<open>Requests\<close>

lemma careful_serve:
  assumes "\<And>c x c'. versioned S T c \<Longrightarrow> f c = (x, c') \<Longrightarrow> versioned (D x \<union> S) (E x \<union> T) c' \<and> gentle c c'"
    and "\<And>e. D (Inl e) = {}" and "\<And>e. E (Inl e) = {}"
  shows "careful S T D E (serve f)"
  unfolding careful_def
proof (intro allI impI)
  fix c x c'
  assume c: "versioned S T c" and run: "run_state (serve f) c = (x, c')"
  have c0: "versioned S T (c\<lparr>clFaults := fs\<rparr>)" for fs using c by (simp add: versioned_def stored_def)
  have faults: "gentle (c\<lparr>clFaults := fs\<rparr>) b \<longleftrightarrow> gentle c b" "gentle c (c\<lparr>clFaults := fs\<rparr>)" for fs b
    by (simp_all add: gentle_def)
  show "versioned (D x \<union> S) (E x \<union> T) c' \<and> gentle c c'"
    using run assms(1) [OF c] assms(1) [OF c0] c0 assms(2,3)
    by (auto simp: serve_def faults split: list.splits option.splits)
qed

text \<open>Requests that leave Deployments and Services alone.\<close>

lemma careful_aside:
  assumes "\<And>c. clDeployments (snd (f c)) = clDeployments c \<and> clServices (snd (f c)) = clServices c"
  shows "careful S T (\<lambda>_. {}) (\<lambda>_. {}) (serve f)"
proof (rule careful_serve)
  show "versioned ({} \<union> S) ({} \<union> T) c' \<and> gentle c c'" if "versioned S T c" "f c = (x, c')" for c x c'
    using assms [of c] that by (simp add: versioned_def stored_def gentle_def)
qed simp_all

lemma careful_ticks:
  "careful S T (\<lambda>_. {}) (\<lambda>_. {}) (timeNow (storeReconciler pol l))"
  "careful S T (\<lambda>_. {}) (\<lambda>_. {}) (timeNowString (storeReconciler pol l))"
  "careful S T (\<lambda>_. {}) (\<lambda>_. {}) (recordEvent (storeReconciler pol l) n t x y)"
  by (auto simp: careful_def store_calls versioned_def stored_def gentle_def)

lemma careful_asides:
  "careful S T (\<lambda>_. {}) (\<lambda>_. {}) (apiUpdateProxy (storeReconciler pol l) p)"
  "careful S T (\<lambda>_. {}) (\<lambda>_. {}) (apiUpdateProxyStatus (storeReconciler pol l) p)"
  "careful S T (\<lambda>_. {}) (\<lambda>_. {}) (apiUpdateRules (storeReconciler pol l) q)"
  "careful S T (\<lambda>_. {}) (\<lambda>_. {}) (apiUpdateRulesStatus (storeReconciler pol l) q)"
  "careful S T (\<lambda>_. {}) (\<lambda>_. {}) (apiPatchRules (storeReconciler pol l) q x)"
  "careful S T (\<lambda>_. {}) (\<lambda>_. {}) (apiCreateConfigMap (storeReconciler pol l) cm)"
  "careful S T (\<lambda>_. {}) (\<lambda>_. {}) (apiUpdateConfigMap (storeReconciler pol l) cm)"
  by (simp_all only: store_calls)
     (rule careful_aside;
      simp add: storeUpdateProxy_def storeUpdateRules_def storePatchRules_def storeCreateConfigMap_def
        storeUpdateConfigMap_def Let_def split: option.split)+

lemma reading_serve:
  assumes "\<And>c. D (g c) \<subseteq> set (clDeployments c)" and "\<And>c. E (g c) \<subseteq> set (clServices c)"
    and "\<And>e. D (Inl e) = {}" and "\<And>e. E (Inl e) = {}"
  shows "reading D E (serve (\<lambda>c. (g c, c)))"
proof -
  have "D (g (c\<lparr>clFaults := fs\<rparr>)) \<subseteq> set (clDeployments c)" "E (g (c\<lparr>clFaults := fs\<rparr>)) \<subseteq> set (clServices c)" for c fs
    using assms(1,2) [of "c\<lparr>clFaults := fs\<rparr>"] by simp_all
  then show ?thesis
    using assms by (auto simp: reading_def serve_def split: list.splits option.splits)
qed

lemma reading_requests:
  "reading (\<lambda>_. {}) (\<lambda>_. {}) (apiGetProxy (storeReconciler pol l) n)"
  "reading (\<lambda>_. {}) (\<lambda>_. {}) (apiGetRules (storeReconciler pol l) n)"
  "reading (\<lambda>_. {}) (\<lambda>_. {}) (apiGetConfigMap (storeReconciler pol l) n)"
  "reading (\<lambda>_. {}) (\<lambda>_. {}) (apiListConfigMaps (storeReconciler pol l) ns sel)"
  "reading (\<lambda>x. {d. x = Inr d}) (\<lambda>_. {}) (apiGetDeployment (storeReconciler pol l) n)"
  "reading (\<lambda>_. {}) (\<lambda>x. {s. x = Inr s}) (apiGetService (storeReconciler pol l) n)"
  "reading (\<lambda>x. {d. \<exists>ds. x = Inr ds \<and> d \<in> set ds}) (\<lambda>_. {}) (apiListDeployments (storeReconciler pol l) ns sel')"
  by (simp_all only: store_calls)
     (rule reading_serve; auto simp: found_def selectDeployments_def split: option.splits dest: findObj_in)+

lemma unmanaged_write:
  assumes "metaDeletionTimestamp (deploymentMeta d) = metaDeletionTimestamp m"
  shows "unmanaged ((encodeDeployment d)\<lparr>deploymentMeta := nextVersion m (deploymentMeta d)\<rparr>) = unmanaged d"
proof -
  have idem: "jsonList (jsonList ps) = jsonList ps" for ps :: "'a slice"
    by (cases ps rule: jsonList.cases) simp_all
  show ?thesis
    using assms
    by (simp add: unmanaged_def encodeDeployment_def unmanagedContainers_def nextVersion_def Let_def idem comp_def
        split: list.split)
qed

lemma unmanagedService_write:
  assumes "metaDeletionTimestamp (serviceMeta s) = metaDeletionTimestamp m"
  shows "unmanagedService ((encodeService s)\<lparr>serviceMeta := nextVersion m (serviceMeta s)\<rparr>) = unmanagedService s"
  using assms by (simp add: unmanagedService_def encodeService_def nextVersion_def)

text \<open>An update the server accepts is one of the stored version.\<close>

lemma accepted_update:
  assumes "storedIn meta xs" and "laterIn meta x0 xs" and "findObj meta (keyOf m) xs = Some old"
    and "updateError pol kind (meta old) m = None" and "meta new = nextVersion (meta old) m"
    and "keyOf m = keyOf (meta x0)" and "metaResourceVersion m = metaResourceVersion (meta x0)"
    and "metaFinalizers m = metaFinalizers (meta x0)"
    and "metaDeletionTimestamp (meta old) = metaDeletionTimestamp (meta x0) \<Longrightarrow> plain new = plain x0"
  shows "storedIn meta (writeObj meta new xs)" and "forwardIn meta xs (writeObj meta new xs)"
    and "laterIn meta new (writeObj meta new xs)" and "gentleIn plain meta xs (writeObj meta new xs)"
proof -
  have old: "old = x0"
    using assms(2-4,6,7) by (auto simp: laterIn_def updateError_def split: if_splits)
  have "\<not> finalized (meta old)" using assms(1) findObj_in [OF assms(3)] by (simp add: storedIn_def)
  then have alive: "\<not> finalized (meta new)"
    using assms(8) by (simp add: assms(5) old finalized_def nextVersion_def)
  then have w: "writeObj meta new xs = replaceObj meta new xs" by (simp add: writeObj_def)
  have key: "keyOf (meta new) = keyOf m" by (simp add: assms(5))
  have version: "metaResourceVersion (meta new) = Suc (metaResourceVersion (meta old))"
    by (simp add: assms(5) nextVersion_def)
  note r = replace_lists [OF assms(3) key version alive]
  show "storedIn meta (writeObj meta new xs)" using r(1) assms(1) by (simp add: w)
  show "forwardIn meta xs (writeObj meta new xs)" "laterIn meta new (writeObj meta new xs)"
    using r(2,3) by (simp_all add: w)
  show "gentleIn plain meta xs (writeObj meta new xs)" using r(4) assms(9) by (simp add: w old)
qed

lemma careful_updateDeployment:
  assumes "known S d"
  shows "careful S T (\<lambda>x. {d. x = Inr d}) (\<lambda>_. {}) (apiUpdateDeployment (storeReconciler pol l) d)"
  unfolding store_calls
proof (rule careful_serve)
  fix c x c'
  assume c: "versioned S T c" and run: "storeUpdateDeployment pol d c = (x, c')"
  show "versioned ({d. x = Inr d} \<union> S) ({} \<union> T) c' \<and> gentle c c'"
  proof (cases x)
    case (Inl e)
    then have "c' = c" using run by (auto simp: storeUpdateDeployment_def Let_def split: option.splits if_splits)
    then show ?thesis using c Inl by (simp add: gentle_def)
  next
    case (Inr new)
    obtain old where old: "findObj deploymentMeta (keyOf (deploymentMeta d)) (clDeployments c) = Some old"
      "updateError pol ''Deployment'' (deploymentMeta old) (deploymentMeta d) = None"
      and new: "new = (encodeDeployment d)\<lparr>deploymentMeta := nextVersion (deploymentMeta old) (deploymentMeta d)\<rparr>"
      and c': "c' = c\<lparr>clDeployments := writeObj deploymentMeta new (clDeployments c)\<rparr>"
      using run Inr by (auto simp: storeUpdateDeployment_def Let_def split: option.splits if_splits)
    obtain d0 where d0: "d0 \<in> S" "unmanaged d = unmanaged d0"
      "metaResourceVersion (deploymentMeta d) = metaResourceVersion (deploymentMeta d0)"
      using assms by (auto simp: known_def editOf_def)
    note meta = unmanaged_meta [OF d0(2)]
    have plain: "unmanaged new = unmanaged d0"
      if "metaDeletionTimestamp (deploymentMeta old) = metaDeletionTimestamp (deploymentMeta d0)"
      using unmanaged_write [of d "deploymentMeta old"] that meta(4) d0(2) by (simp add: new)
    have "storedIn deploymentMeta (clDeployments c)" "laterIn deploymentMeta d0 (clDeployments c)"
      using c d0(1) by (simp_all add: versioned_def stored_def)
    note a = accepted_update [OF this old _ meta(1) d0(3) meta(3) plain]
    show ?thesis
      using c a laterIn_forward [OF _ a(2)] by (auto simp: new Inr c' versioned_def stored_def gentle_def)
  qed
qed simp_all

lemma careful_updateService:
  assumes "knownService T s"
  shows "careful S T (\<lambda>_. {}) (\<lambda>_. {}) (apiUpdateService (storeReconciler pol l) s)"
  unfolding store_calls
proof (rule careful_serve)
  fix c x c'
  assume c: "versioned S T c" and run: "storeUpdateService pol s c = (x, c')"
  show "versioned ({} \<union> S) ({} \<union> T) c' \<and> gentle c c'"
  proof (cases x)
    case (Inl e)
    then have "c' = c" using run by (auto simp: storeUpdateService_def Let_def split: option.splits)
    then show ?thesis using c by (simp add: gentle_def)
  next
    case (Inr new)
    obtain old where old: "findObj serviceMeta (keyOf (serviceMeta s)) (clServices c) = Some old"
      "updateError pol ''Service'' (serviceMeta old) (serviceMeta s) = None"
      and new: "new = (encodeService s)\<lparr>serviceMeta := nextVersion (serviceMeta old) (serviceMeta s)\<rparr>"
      and c': "c' = c\<lparr>clServices := writeObj serviceMeta new (clServices c)\<rparr>"
      using run Inr by (auto simp: storeUpdateService_def Let_def split: option.splits)
    obtain s0 where s0: "s0 \<in> T" "unmanagedService s = unmanagedService s0"
      "metaResourceVersion (serviceMeta s) = metaResourceVersion (serviceMeta s0)"
      using assms by (auto simp: knownService_def editOfService_def)
    note meta = unmanagedService_meta [OF s0(2)]
    have plain: "unmanagedService new = unmanagedService s0"
      if "metaDeletionTimestamp (serviceMeta old) = metaDeletionTimestamp (serviceMeta s0)"
      using unmanagedService_write [of s "serviceMeta old"] that meta(4) s0(2) by (simp add: new)
    have "storedIn serviceMeta (clServices c)" "laterIn serviceMeta s0 (clServices c)"
      using c s0(1) by (simp_all add: versioned_def stored_def)
    note a = accepted_update [OF this old _ meta(1) s0(3) meta(3) plain]
    show ?thesis
      using c a laterIn_forward [OF _ a(2)] by (auto simp: new c' versioned_def stored_def gentle_def)
  qed
qed simp_all

lemma careful_createDeployment:
  assumes "metaDeletionTimestamp (deploymentMeta d) = None"
  shows "careful S T (\<lambda>_. {}) (\<lambda>_. {}) (apiCreateDeployment (storeReconciler pol l) d)"
  unfolding store_calls
proof (rule careful_serve)
  fix c x c'
  assume c: "versioned S T c" and run: "storeCreateDeployment pol d c = (x, c')"
  let ?new = "encodeDeployment d"
  have "deploymentMeta ?new = deploymentMeta d" by (simp add: encodeDeployment_def Let_def)
  then have "c' = c \<or> c' = c\<lparr>clDeployments := clDeployments c @ [?new]\<rparr> \<and>
      findObj deploymentMeta (keyOf (deploymentMeta ?new)) (clDeployments c) = None \<and> \<not> finalized (deploymentMeta ?new)"
    using run assms by (auto simp: storeCreateDeployment_def Let_def not_finalized split: option.splits)
  then show "versioned ({} \<union> S) ({} \<union> T) c' \<and> gentle c c'"
    using c snoc_lists [of deploymentMeta ?new "clDeployments c"]
    by (auto simp: versioned_def stored_def gentle_def intro: laterIn_forward)
qed simp_all

lemma careful_createService:
  assumes "metaDeletionTimestamp (serviceMeta s) = None"
  shows "careful S T (\<lambda>_. {}) (\<lambda>_. {}) (apiCreateService (storeReconciler pol l) s)"
  unfolding store_calls
proof (rule careful_serve)
  fix c x c'
  assume c: "versioned S T c" and run: "storeCreateService pol s c = (x, c')"
  let ?new = "encodeService s"
  have "serviceMeta ?new = serviceMeta s" by (simp add: encodeService_def)
  then have "c' = c \<or> c' = c\<lparr>clServices := clServices c @ [?new]\<rparr> \<and>
      findObj serviceMeta (keyOf (serviceMeta ?new)) (clServices c) = None \<and> \<not> finalized (serviceMeta ?new)"
    using run assms by (auto simp: storeCreateService_def Let_def not_finalized split: option.splits)
  then show "versioned ({} \<union> S) ({} \<union> T) c' \<and> gentle c c'"
    using c snoc_lists [of serviceMeta ?new "clServices c"]
    by (auto simp: versioned_def stored_def gentle_def intro: laterIn_forward)
qed simp_all

section \<open>Whole passes\<close>

lemma careful_more:
  "known S d \<Longrightarrow> S \<subseteq> S' \<Longrightarrow> careful S' T' (\<lambda>x. {d. x = Inr d}) (\<lambda>_. {}) (apiUpdateDeployment (storeReconciler pol l) d)"
  "knownService T s \<Longrightarrow> T \<subseteq> T' \<Longrightarrow> careful S' T' (\<lambda>_. {}) (\<lambda>_. {}) (apiUpdateService (storeReconciler pol l) s)"
  by (rule careful_updateDeployment; auto simp: known_def) (rule careful_updateService; auto simp: knownService_def)

lemma versions_learn:
  "triple (versionsKept l S T) (fromCache (apiGetDeployment (storeReconciler pol l) n))
     (\<lambda>x. versionsKept l ({d. x = Inr d} \<union> S) T)"
  "triple (versionsKept l S T) (fromCache (apiListDeployments (storeReconciler pol l) ns sel))
     (\<lambda>x. versionsKept l ({d. \<exists>ds. x = Inr ds \<and> d \<in> set ds} \<union> S) T)"
  "triple (versionsKept l S T) (fromCache (apiGetService (storeReconciler pol l) n))
     (\<lambda>x. versionsKept l S ({s. x = Inr s} \<union> T))"
  using reading_fromCache [OF reading_requests(5), of l S T pol l n]
    reading_fromCache [OF reading_requests(7), of l S T pol l ns sel]
    reading_fromCache [OF reading_requests(6), of l S T pol l n] by simp_all

lemma versions_updateDeployment:
  assumes "known S d"
  shows "triple (versionsKept l S T) (toServer (apiUpdateDeployment (storeReconciler pol l) d))
    (\<lambda>x. versionsKept l ({d. x = Inr d} \<union> S) T)"
proof -
  have "triple (versionsKept l S T) (toServer (apiUpdateDeployment (storeReconciler pol l) d))
      (\<lambda>x. versionsKept l ({d. x = Inr d} \<union> S) ({} \<union> T))"
    by (rule careful_toServer) (rule careful_more(1) [OF assms])
  then show ?thesis by simp
qed

lemma versions_updateService:
  "knownService T s \<Longrightarrow> maintains (versionsKept l S T) (\<lambda>_. True) (toServer (apiUpdateService (storeReconciler pol l) s))"
  by (intro careful_keeps careful_more(2))

interpretation versions: careful_client "cached (storeReconciler pol l)"
    "\<lambda>m. libLaws l \<longrightarrow> metaDeletionTimestamp m = None" "versionsKept l" for pol l
proof
  show "versionsKept l S' T' w \<Longrightarrow> S \<subseteq> S' \<Longrightarrow> T \<subseteq> T' \<Longrightarrow> versionsKept l S T w" for S S' T T' w
    by (auto simp: versionsKept_def versioned_def)
  show "libLaws l \<longrightarrow> metaDeletionTimestamp m' = None"
    if set: "setControllerReference (lib (cached (storeReconciler pol l))) (ProxyOwner p) m = Inr m'"
      and m: "metaOwnerReferences m = []" "metaDeletionTimestamp m = None" "keyOf m = keyOf (proxyMeta p)" for p m m'
  proof
    assume laws: "libLaws l"
    have "metaNamespace m = metaNamespace (ownerMeta (ProxyOwner p))"
      using arg_cong [OF m(3), of nnNamespace] by (simp add: ownerMeta_def)
    then obtain ref where "setControllerReference l (ProxyOwner p) m = Inr (m\<lparr>metaOwnerReferences := [ref]\<rparr>)"
      by (rule libLaws_owner [OF laws m(1)])
    then show "metaDeletionTimestamp m' = None" using set m(2) by (auto simp: store_lib)
  qed
  show "maintains (versionsKept l {} T) (\<lambda>_. True) (apiCreateDeployment (cached (storeReconciler pol l)) d)"
    if "libLaws l \<longrightarrow> metaDeletionTimestamp (deploymentMeta d) = None" for T d
    unfolding cached_calls by (intro careful_keeps careful_createDeployment) (use that in simp)
  show "maintains (versionsKept l S {}) (\<lambda>_. True) (apiCreateService (cached (storeReconciler pol l)) s)"
    if "libLaws l \<longrightarrow> metaDeletionTimestamp (serviceMeta s) = None" for S s
    unfolding cached_calls by (intro careful_keeps careful_createService) (use that in simp)
qed (simp_all add: versions_learn versions_updateDeployment versions_updateService careful_keeps reading_keeps reading_requests careful_ticks
    careful_asides)

lemma versions_passOf:
  assumes "versionsKept l {} {} s" and "passOf (cached (storeReconciler pol l)) q s = (again, s')"
  shows "versionsKept l {} {} s'"
proof (cases q)
  case (ProxyPass n)
  then obtain x where "run_state (reconcileProxy (cached (storeReconciler pol l)) n) s = (x, s')"
    using assms(2) by (auto split: prod.splits)
  from maintainsD [OF versions.kept_reconcileProxy assms(1) this] show ?thesis by simp
next
  case (RulesPass n)
  then obtain x where "run_state (reconcileRules (cached (storeReconciler pol l)) n) s = (x, s')"
    using assms(2) by (auto split: prod.splits)
  from maintainsD [OF versions.kept_reconcileRules assms(1) this] show ?thesis by simp
qed

text \<open>C9: no update is lost.  While a pass of either reconciler runs, let others write between any two of
  its requests, and let what it reads be out of date, as long as others do not delete Deployments
  or Services and the server gives what they change a later version.  Then every request of the
  pass leaves each Deployment and each Service on the server in place, and changes at most what
  the operator manages: of a Deployment the replicas, the annotations (its own and the
  template's), the volumes, the ports and mounts of the first container; of a Service the
  ports.\<close>

theorem no_lost_update:
  assumes "refines \<alpha> r (cached (storeReconciler pol (lib r)))" and "libLaws (lib r)"
    and "behind (server (\<alpha> w), cache (\<alpha> w))" and "changes (\<alpha> w) = []"
    and "\<And>f. f \<in> set (moves (\<alpha> w)) \<Longrightarrow> onward f"
    and "passOf r q w = (again, w')" and "(Operator, c, c') \<in> set (changes (\<alpha> w'))"
  shows "(\<forall>k d. findObj deploymentMeta k (clDeployments c) = Some d \<longrightarrow>
      (\<exists>d'. findObj deploymentMeta k (clDeployments c') = Some d' \<and> unmanaged d' = unmanaged d)) \<and>
    (\<forall>k s. findObj serviceMeta k (clServices c) = Some s \<longrightarrow>
      (\<exists>s'. findObj serviceMeta k (clServices c') = Some s' \<and> unmanagedService s' = unmanagedService s))"
proof -
  have "versionsKept (lib r) {} {} (\<alpha> w)"
    using assms(2-5) by (simp add: versionsKept_behind) (simp add: versioned_def behind_def)
  then have "versionsKept (lib r) {} {} (\<alpha> w')"
    by (rule versions_passOf [OF _ passOf_refines [OF assms(1,6)]])
  then have "gentle c c'" using assms(7) by (simp add: versionsKept_def)
  then show ?thesis by (simp add: gentle_def gentleIn_def)
qed

end
