(* ===== verification/Interference_Example.thy ===== *)
theory Interference_Example
  imports Concurrent_Queue Stale_Queue Lost_Update Queue_Drain
begin

text \<open>
  A proxy at rest with its Deployment and its Service.  A pass over it during which somebody
  deletes the Deployment, a pass that reads a Deployment from the cache that is deleted already,
  and a pass that resizes the Deployment while somebody changes its image.
\<close>

section \<open>A proxy at rest\<close>

definition restMeta :: objectMeta where
  "restMeta = (exampleMeta ''villip'')\<lparr>metaOwnerReferences := [exampleOwner (ProxyOwner exampleProxy)]\<rparr>"

definition restProxy :: villipProxy where
  "restProxy = exampleProxy
     \<lparr>proxyMeta := (proxyMeta exampleProxy)\<lparr>metaFinalizers := [villipproxyFinalizer]\<rparr>,
      proxySpec := (proxySpec exampleProxy)\<lparr>specRuleset := []\<rparr>,
      proxyStatus := \<lparr>proxyConditions = [proxyAvailable exampleProxy 2]\<rparr>\<rparr>"

definition restDeployment :: deployment where
  "restDeployment =
     (deploymentObject exampleLib restProxy Map.empty [] [] Map.empty)\<lparr>deploymentMeta := restMeta\<rparr>"

definition restService :: service where
  "restService =
     \<lparr>serviceMeta = restMeta,
      serviceSpec = \<lparr>servicePorts = portsForVillipProxyService exampleLib (specPorts (proxySpec restProxy)),
                     serviceSelector = Map.empty\<rparr>\<rparr>"

definition restCluster :: cluster where
  "restCluster = exampleCluster
     \<lparr>clProxies := [restProxy], clDeployments := [restDeployment], clServices := [restService]\<rparr>"

lemma rest_sel:
  "proxyMeta restProxy = (exampleMeta ''villip'')\<lparr>metaFinalizers := [villipproxyFinalizer]\<rparr>"
  "specRuleset (proxySpec restProxy) = []" "specSize (proxySpec restProxy) = 2"
  "proxyConditions (proxyStatus restProxy) = [proxyAvailable exampleProxy 2]"
  "deploymentMeta restDeployment = restMeta" "serviceMeta restService = restMeta"
  "deploymentReplicas (deploymentSpec restDeployment) = Some 2"
  "podContainers (templateSpec (deploymentSpec restDeployment)) = [villipContainer exampleLib restProxy []]"
  "containerPorts (villipContainer exampleLib restProxy []) =
     portsForVillipProxyDeployment (specPorts (proxySpec restProxy))"
  "servicePorts (serviceSpec restService) = portsForVillipProxyService exampleLib (specPorts (proxySpec restProxy))"
  by (simp_all add: restProxy_def restDeployment_def restService_def deploymentObject_def villipContainer_def
      exampleProxy_def exampleSpec_def)

lemma rest_found:
  "findObj proxyMeta (exampleKey ''villip'') [restProxy] = Some restProxy"
  "findObj deploymentMeta (exampleKey ''villip'') [restDeployment] = Some restDeployment"
  "findObj serviceMeta (exampleKey ''villip'') [restService] = Some restService"
  "keyOf (proxyMeta restProxy) = exampleKey ''villip''"
  "metaAnnotations restMeta = Map.empty" "metaDeletionTimestamp (proxyMeta restProxy) = None"
  "villipproxyFinalizer \<in> set (metaFinalizers (proxyMeta restProxy))"
  by (simp_all add: findObj_def rest_sel restMeta_def exampleMeta_def emptyMeta_def keyOf_def exampleKey_def)

text \<open>A pass that reads the three objects and writes the status is quiet.\<close>

lemma rest_quiet:
  assumes "lib r = exampleLib"
    and "run_state (apiGetProxy r (exampleKey ''villip'')) w = (Inr restProxy, w1)"
    and "run_state (apiGetDeployment r (exampleKey ''villip'')) w1 = (Inr restDeployment, w2)"
    and "run_state (apiGetService r (exampleKey ''villip'')) w2 = (Inr restService, w3)"
    and "run_state (setProxyStatus r restProxy (proxyAvailable restProxy 2)) w3 = ((None, q), w4)"
  shows "passOf r (ProxyPass (exampleKey ''villip'')) w = (False, w4)"
proof -
  have "run_state (reconcileProxyService r (exampleKey ''villip'') restProxy restDeployment) w2 =
      (Value (noRequeue, None), w4)"
    by (simp add: reconcileProxyService_def managePortChange_def rest_sel(2-) rest_found run_simps assms)
  then have "run_state (reconcileProxy r (exampleKey ''villip'')) w = (Value (noRequeue, None), w4)"
    by (simp add: reconcileProxy_def reconcileProxyDeployment_def reconcileProxyRulesets_def isRulesetsChanged_def
        run_simps assms rest_sel(2-) rest_found exampleLib_laws Let_def)
  then show ?thesis by simp
qed

lemma rest_owned: "ownedCluster exampleLib n (restCluster\<lparr>clDeployments := ds\<rparr>) \<longleftrightarrow> (\<forall>d \<in> set ds. ownOk exampleLib n (deploymentMeta d))"
  "ownedCluster exampleLib n restCluster"
proof -
  have "ownerRequest exampleLib ''VillipProxy'' restMeta = Some (keyOf restMeta)"
    by (simp add: ownerRequest_def restMeta_def exampleLib_def exampleOwner_def groupVersionV1_def exampleProxy_def
        exampleMeta_def emptyMeta_def keyOf_def)
  then show "ownedCluster exampleLib n (restCluster\<lparr>clDeployments := ds\<rparr>) \<longleftrightarrow> (\<forall>d \<in> set ds. ownOk exampleLib n (deploymentMeta d))"
    "ownedCluster exampleLib n restCluster"
    by (simp_all add: ownedCluster_def restCluster_def exampleCluster_def rest_sel(5,6) ownOk_def)
qed

lemma rest_clean: "clFaults restCluster = []" "clProxies restCluster = [restProxy]"
    "clDeployments restCluster = [restDeployment]" "clServices restCluster = [restService]"
  by (simp_all add: restCluster_def exampleCluster_def)

text \<open>Writing the status of the proxy, when nothing fails.\<close>

lemma rest_written:
  assumes "clFaults c = []" and "clProxies c = [restProxy]"
  shows "\<exists>q c'. storeUpdateProxy examplePolicy (\<lambda>old p. old\<lparr>proxyStatus := proxyStatus p\<rparr>)
      (restProxy\<lparr>proxyStatus := st\<rparr>) c = (Inr q, c') \<and>
    c' = c\<lparr>clProxies := [q]\<rparr> \<and> proxyMeta q = bump (proxyMeta restProxy)"
proof -
  have "\<not> finalized (bump (proxyMeta restProxy))" by (simp add: finalized_def rest_found)
  then show ?thesis
    using assms by (simp add: storeUpdateProxy_def rest_found Let_def writeObj_def replaceObj_def)
qed

lemma rest_unsettled:
  assumes "clProxies c = [q]" and "keyOf (proxyMeta q) = exampleKey ''villip''"
    and "metaDeletionTimestamp (proxyMeta q) = None" and "clDeployments c = []"
  shows "\<not> workloadSettled exampleLib (exampleKey ''villip'') c"
  using assms by (simp add: workloadSettled_def findObj_def)

section \<open>A deletion during the pass is noticed\<close>

text \<open>The edits, one before each request: the last one deletes the Deployment.\<close>

definition disturbed :: shared where
  "disturbed = \<lparr>base = restCluster, others = [\<lambda>c. c, \<lambda>c. c, \<lambda>c. c, \<lambda>c. c\<lparr>clDeployments := []\<rparr>], history = []\<rparr>"

definition restShared :: shared where
  "restShared = \<lparr>base = restCluster, others = [], history = []\<rparr>"

abbreviation "sharedReconciler \<equiv> sharing exampleReconciler"

lemma disturbed_run:
  obtains q s' where "passOf sharedReconciler (ProxyPass (exampleKey ''villip'')) disturbed = (False, s')"
    and "clDeployments (base s') = []" and "clProxies (base s') = [q]" and "proxyMeta q = bump (proxyMeta restProxy)"
proof -
  let ?drop = "\<lambda>c::cluster. c\<lparr>clDeployments := []\<rparr>"
  obtain s1 where s1: "run_state (apiGetProxy sharedReconciler (exampleKey ''villip'')) disturbed = (Inr restProxy, s1)"
    "base s1 = restCluster" "others s1 = [\<lambda>c. c, \<lambda>c. c, ?drop]"
    by (simp add: meanwhile_def incoming_def disturbed_def store_calls serve_def rest_clean rest_found)
  obtain s2 where s2: "run_state (apiGetDeployment sharedReconciler (exampleKey ''villip'')) s1 = (Inr restDeployment, s2)"
    "base s2 = restCluster" "others s2 = [\<lambda>c. c, ?drop]"
    using s1(2,3) by (simp add: meanwhile_def incoming_def store_calls serve_def rest_clean rest_found)
  obtain s3 where s3: "run_state (apiGetService sharedReconciler (exampleKey ''villip'')) s2 = (Inr restService, s3)"
    "base s3 = restCluster" "others s3 = [?drop]"
    using s2(2,3) by (simp add: meanwhile_def incoming_def store_calls serve_def rest_clean rest_found)
  let ?c = "restCluster\<lparr>clDeployments := [], clClock := Suc (clClock restCluster)\<rparr>"
  obtain q c' where q: "storeUpdateProxy examplePolicy (\<lambda>old p. old\<lparr>proxyStatus := proxyStatus p\<rparr>)
      (restProxy\<lparr>proxyStatus := (proxyStatus restProxy)\<lparr>proxyConditions := setStatusConditionAt exampleLib
        (clockTime examplePolicy (clClock restCluster)) (proxyConditions (proxyStatus restProxy))
        (proxyAvailable restProxy 2)\<rparr>\<rparr>) ?c = (Inr q, c')"
    and c': "c' = ?c\<lparr>clProxies := [q]\<rparr>" "proxyMeta q = bump (proxyMeta restProxy)"
    using rest_written [of ?c] by (fastforce simp: rest_clean)
  obtain s4 where s4: "run_state (setProxyStatus sharedReconciler restProxy (proxyAvailable restProxy 2)) s3 = ((None, q), s4)"
    "base s4 = c'"
    using s3(2,3) q by (simp add: setProxyStatus_def setProxyCondition_def run_simps meanwhile_def incoming_def
        store_calls serve_def rest_clean)
  have "passOf sharedReconciler (ProxyPass (exampleKey ''villip'')) disturbed = (False, s4)"
    by (rule rest_quiet [OF _ s1(1) s2(1) s3(1) s4(1)]) (simp add: store_lib)
  then show thesis by (rule that [of s4 q]) (simp_all add: s4(2) c')
qed

abbreviation "ownedBefore \<equiv>
  (\<lambda>c c'. ownedCluster exampleLib (exampleKey ''villip'') c \<longrightarrow> ownedCluster exampleLib (exampleKey ''villip'') c')"

definition restMachine :: "shared machine" where
  "restMachine = \<lparr>world = restShared, pending = {ProxyPass (exampleKey ''villip'')}\<rparr>"

text \<open>The pass itself is quiet, yet its request waits again.\<close>

lemma no_drift_under_interference_witness:
  "\<exists>m. busyStep (\<lambda>s. s) sharedReconciler base (raised exampleLib) (sharedStart ownedBefore) (sharedEdit ownedBefore)
       restMachine m \<and>
     passOf sharedReconciler (ProxyPass (exampleKey ''villip'')) disturbed = (False, world m) \<and>
     clDeployments (base (world m)) = [] \<and> ProxyPass (exampleKey ''villip'') \<in> pending m"
proof -
  let ?n = "exampleKey ''villip''"
  obtain q s' where run: "passOf sharedReconciler (ProxyPass ?n) disturbed = (False, s')"
    and s': "clDeployments (base s') = []" "clProxies (base s') = [q]" "proxyMeta q = bump (proxyMeta restProxy)"
    by (rule disturbed_run)
  let ?m = "\<lparr>world = s', pending = raised exampleLib s'\<rparr>"
  have step: "busyStep (\<lambda>s. s) sharedReconciler base (raised exampleLib) (sharedStart ownedBefore) (sharedEdit ownedBefore)
      restMachine ?m"
    by (rule busyStep.pass [OF _ _ run])
       (simp_all add: restMachine_def restShared_def sharedStart_def disturbed_def store_lib ownedCluster_def)
  have "\<not> workloadSettled exampleLib ?n (base s')"
    by (rule rest_unsettled [OF s'(2) _ _ s'(1)]) (simp_all add: s'(3) rest_found)
  then have "\<not> settled exampleLib ?n (base s')"
    by (auto simp: settled_def workloadSettled_def split: option.splits)
  then have "ProxyPass ?n \<in> pending ?m"
    using no_drift_under_interference [of "\<lambda>s. s" sharedReconciler examplePolicy ownedBefore ?n restMachine ?m]
      busyReach.step [OF busyReach.start step] rest_owned(2)
    by (simp add: refines_refl store_lib exampleLib_laws example_controllerOf restMachine_def restShared_def)
  with step run s' show ?thesis by (intro exI [of _ ?m]) simp
qed

section \<open>News that come late\<close>

text \<open>The Deployment is gone from the server; the cache hears of it after the reads of the pass.\<close>

definition outdated :: lagging where
  "outdated =
     \<lparr>server = restCluster\<lparr>clDeployments := []\<rparr>, cache = restCluster,
      moves = [\<lambda>x. x, \<lambda>x. x, \<lambda>x. x, \<lambda>(v, k). (v, k\<lparr>clDeployments := []\<rparr>)], changes = [], delivered = []\<rparr>"

abbreviation "cachedReconciler \<equiv> cached exampleReconciler"

lemma outdated_run:
  obtains s' where "passOf cachedReconciler (ProxyPass (exampleKey ''villip'')) outdated = (False, s')"
    and "cache s' = restCluster\<lparr>clDeployments := []\<rparr>"
proof -
  let ?k = "restCluster\<lparr>clDeployments := []\<rparr>"
  let ?drop = "\<lambda>(v, k). (v, k\<lparr>clDeployments := []\<rparr>)"
  obtain s1 where s1: "run_state (apiGetProxy cachedReconciler (exampleKey ''villip'')) outdated = (Inr restProxy, s1)"
    "server s1 = ?k" "cache s1 = restCluster" "moves s1 = [\<lambda>x. x, \<lambda>x. x, ?drop]"
    by (simp add: fromCache_def moved_def outdated_def store_calls serve_def rest_clean rest_found)
  obtain s2 where s2: "run_state (apiGetDeployment cachedReconciler (exampleKey ''villip'')) s1 = (Inr restDeployment, s2)"
    "server s2 = ?k" "cache s2 = restCluster" "moves s2 = [\<lambda>x. x, ?drop]"
    using s1(2-) by (simp add: fromCache_def moved_def store_calls serve_def rest_clean rest_found)
  obtain s3 where s3: "run_state (apiGetService cachedReconciler (exampleKey ''villip'')) s2 = (Inr restService, s3)"
    "server s3 = ?k" "cache s3 = restCluster" "moves s3 = [?drop]"
    using s2(2-) by (simp add: fromCache_def moved_def store_calls serve_def rest_clean rest_found)
  let ?c = "?k\<lparr>clClock := Suc (clClock restCluster)\<rparr>"
  obtain q c' where q: "storeUpdateProxy examplePolicy (\<lambda>old p. old\<lparr>proxyStatus := proxyStatus p\<rparr>)
      (restProxy\<lparr>proxyStatus := (proxyStatus restProxy)\<lparr>proxyConditions := setStatusConditionAt exampleLib
        (clockTime examplePolicy (clClock restCluster)) (proxyConditions (proxyStatus restProxy))
        (proxyAvailable restProxy 2)\<rparr>\<rparr>) ?c = (Inr q, c')"
    using rest_written [of ?c] by (fastforce simp: rest_clean)
  obtain s4 where s4: "run_state (setProxyStatus cachedReconciler restProxy (proxyAvailable restProxy 2)) s3 = ((None, q), s4)"
    "cache s4 = ?k"
    using s3(2-) q by (simp add: setProxyStatus_def setProxyCondition_def run_simps toServer_def moved_def
        store_calls serve_def rest_clean)
  have "passOf cachedReconciler (ProxyPass (exampleKey ''villip'')) outdated = (False, s4)"
    by (rule rest_quiet [OF _ s1(1) s2(1) s3(1) s4(1)]) (simp add: store_lib)
  then show thesis by (rule that) (rule s4(2))
qed

abbreviation "bothOwnedBefore \<equiv>
  (\<lambda>x x'. bothOwned exampleLib (exampleKey ''villip'') x \<longrightarrow> bothOwned exampleLib (exampleKey ''villip'') x')"

definition outdatedMachine :: "lagging machine" where
  "outdatedMachine = \<lparr>world = outdated\<lparr>moves := []\<rparr>, pending = {ProxyPass (exampleKey ''villip'')}\<rparr>"

text \<open>The pass, which saw the deleted Deployment, is quiet; its request waits again.\<close>

lemma no_drift_with_stale_reads_witness:
  "\<exists>m. busyStep (\<lambda>s. s) cachedReconciler cache (heard exampleLib) (cachedStart bothOwnedBefore)
       (cachedMove bothOwnedBefore) outdatedMachine m \<and>
     passOf cachedReconciler (ProxyPass (exampleKey ''villip'')) outdated = (False, world m) \<and>
     clDeployments (cache (world m)) = [] \<and> ProxyPass (exampleKey ''villip'') \<in> pending m"
proof -
  let ?n = "exampleKey ''villip''"
  obtain s' where run: "passOf cachedReconciler (ProxyPass ?n) outdated = (False, s')"
    and s': "cache s' = restCluster\<lparr>clDeployments := []\<rparr>"
    by (rule outdated_run)
  let ?m = "\<lparr>world = s', pending = heard exampleLib s'\<rparr>"
  have owned: "bothOwned exampleLib ?n (restCluster\<lparr>clDeployments := []\<rparr>, restCluster)"
    by (simp add: bothOwned_def rest_owned)
  have step: "busyStep (\<lambda>s. s) cachedReconciler cache (heard exampleLib) (cachedStart bothOwnedBefore)
      (cachedMove bothOwnedBefore) outdatedMachine ?m"
    by (rule busyStep.pass [OF _ _ run])
       (auto simp: outdatedMachine_def cachedStart_def outdated_def bothOwned_def ownedCluster_def)
  have "\<not> workloadSettled exampleLib ?n (cache s')"
    by (rule rest_unsettled [of _ restProxy]) (simp_all add: s' rest_clean rest_found)
  then have "ProxyPass ?n \<in> pending ?m"
    using no_drift_with_stale_reads [of "\<lambda>s. s" cachedReconciler examplePolicy bothOwnedBefore ?n outdatedMachine ?m]
      busyReach.step [OF busyReach.start step] owned
    by (simp add: refines_refl store_lib exampleLib_laws example_controllerOf outdatedMachine_def outdated_def)
  with step run s' show ?thesis by (intro exI [of _ ?m]) simp
qed

section \<open>The new image survives\<close>

definition newImage :: "deployment \<Rightarrow> deployment" where
  "newImage d =
     (setFirstContainer (\<lambda>c. c\<lparr>containerImage := ''mirror/villip:latest''\<rparr>) d)\<lparr>deploymentMeta := bump (deploymentMeta d)\<rparr>"

definition smallDeployment :: deployment where
  "smallDeployment = setReplicas 1 restDeployment"

definition smallCluster :: cluster where
  "smallCluster = restCluster\<lparr>clDeployments := [smallDeployment]\<rparr>"

definition changeImages :: "cluster \<Rightarrow> cluster" where
  "changeImages c = c\<lparr>clDeployments := map newImage (clDeployments c)\<rparr>"

text \<open>
  The image is changed, and the cache hears of it, between the read of the proxy and the read of
  the Deployment.
\<close>

definition changing :: lagging where
  "changing =
     \<lparr>server = smallCluster, cache = smallCluster,
      moves = [\<lambda>x. x, \<lambda>(v, k). (changeImages v, changeImages v)], changes = [], delivered = []\<rparr>"

lemma findObj_map:
  "(\<And>x. keyOf (meta (f x)) = keyOf (meta x)) \<Longrightarrow> findObj meta k (map f xs) = map_option f (findObj meta k xs)"
  by (induction xs) (auto simp: findObj_def)

lemma changeImages_forward: "forward c (changeImages c)"
proof -
  have key: "keyOf (deploymentMeta (newImage d)) = keyOf (deploymentMeta d)" for d
    by (simp add: newImage_def)
  have "storedIn deploymentMeta xs \<Longrightarrow> storedIn deploymentMeta (map newImage xs)" for xs
    by (simp add: storedIn_def comp_def key) (simp add: newImage_def)
  moreover have "forwardIn deploymentMeta xs (map newImage xs)" for xs
    by (auto simp: forwardIn_def findObj_map [where meta = deploymentMeta and f = newImage, OF key]) (simp add: newImage_def bump_def)
  moreover have "forwardIn serviceMeta ys ys" for ys by (simp add: forwardIn_def)
  ultimately show ?thesis by (simp add: forward_def stored_def changeImages_def)
qed

lemma laterIn_stored: "storedIn meta xs \<Longrightarrow> x \<in> set xs \<Longrightarrow> laterIn meta x xs"
  by (induction xs) (auto simp: storedIn_def laterIn_def findObj_def)

lemma behind_self: "stored c \<Longrightarrow> behind (c, c)"
  by (simp add: behind_def versioned_def stored_def laterIn_stored)

lemma changing_onward: "f \<in> set (moves changing) \<Longrightarrow> onward f"
proof -
  have "behind (v, k) \<Longrightarrow> behind (changeImages v, changeImages v)" for v k
    using changeImages_forward [of v] by (intro behind_self) (simp add: behind_def versioned_def forward_def)
  moreover have "forward v v" for v by (auto simp: forward_def forwardIn_def)
  ultimately show "f \<in> set (moves changing) \<Longrightarrow> onward f"
    using changeImages_forward by (auto simp: changing_def onward_def)
qed

lemma changing_run:
  obtains s' c c' d where "passOf cachedReconciler (ProxyPass (exampleKey ''villip'')) changing = (True, s')"
    and "(Operator, c, c') \<in> set (changes s')" and "clDeployments c = [newImage smallDeployment]"
    and "clDeployments c' = [d]" and "deploymentReplicas (deploymentSpec d) = Some 2"
proof -
  let ?c = "smallCluster\<lparr>clDeployments := [newImage smallDeployment]\<rparr>"
  let ?d = "setReplicas 2 (newImage smallDeployment)"
  let ?new = "(encodeDeployment ?d)\<lparr>deploymentMeta := bump (deploymentMeta ?d)\<rparr>"
  let ?c' = "?c\<lparr>clDeployments := [?new]\<rparr>"
  have meta: "deploymentMeta smallDeployment = restMeta" "deploymentMeta (newImage d) = bump (deploymentMeta d)"
    "deploymentReplicas (deploymentSpec (newImage d)) = deploymentReplicas (deploymentSpec d)"
    "deploymentReplicas (deploymentSpec smallDeployment) = Some 1"
    "deploymentMatchLabels (deploymentSpec (newImage d)) = deploymentMatchLabels (deploymentSpec d)"
    "deploymentMatchLabels (deploymentSpec (setReplicas k d)) = deploymentMatchLabels (deploymentSpec d)" for d k
    by (simp_all add: setReplicas_def smallDeployment_def newImage_def rest_sel setFirstContainer_def Let_def split: list.split)
  have key: "keyOf restMeta = exampleKey ''villip''" "\<not> finalized restMeta"
    by (simp_all add: restMeta_def exampleMeta_def emptyMeta_def keyOf_def exampleKey_def finalized_def)
  have clean: "clFaults smallCluster = []" "clProxies smallCluster = [restProxy]"
    "clDeployments smallCluster = [smallDeployment]"
    by (simp_all add: smallCluster_def restCluster_def exampleCluster_def)
  have at: "findObj deploymentMeta (exampleKey ''villip'') [newImage smallDeployment] = Some (newImage smallDeployment)"
    by (simp add: findObj_def meta key)
  have update: "storeUpdateDeployment examplePolicy ?d ?c = (Inr ?new, ?c')"
    by (simp add: storeUpdateDeployment_def Let_def meta key at examplePolicy_def writeObj_def replaceObj_def)
  obtain s1 where s1: "run_state (apiGetProxy cachedReconciler (exampleKey ''villip'')) changing = (Inr restProxy, s1)"
    "server s1 = smallCluster" "cache s1 = smallCluster" "moves s1 = [\<lambda>(v, k). (changeImages v, changeImages v)]"
    by (simp add: fromCache_def moved_def changing_def store_calls serve_def clean rest_found)
  obtain s2 where s2: "run_state (apiGetDeployment cachedReconciler (exampleKey ''villip'')) s1 =
      (Inr (newImage smallDeployment), s2)" "server s2 = ?c" "moves s2 = []"
    using s1(2-) by (simp add: fromCache_def moved_def changeImages_def store_calls serve_def clean at)
  obtain s3 where s3: "run_state (apiUpdateDeployment cachedReconciler ?d) s2 = (Inr ?new, s3)"
    "(Operator, ?c, ?c') \<in> set (changes s3)"
    using s2(2-) by (simp add: toServer_def moved_def store_calls serve_def clean update)
  have "run_state (reconcileProxy cachedReconciler (exampleKey ''villip'')) changing = (Value (requeueMinute, None), s3)"
    by (simp add: reconcileProxy_def reconcileProxyDeployment_def deploymentUpdate_def
        run_simps s1(1) s2(1) s3(1) meta rest_sel(2-) rest_found store_lib exampleLib_laws Let_def del: cached_calls(2-))
  then have "passOf cachedReconciler (ProxyPass (exampleKey ''villip'')) changing = (True, s3)" by simp
  moreover have "deploymentReplicas (deploymentSpec ?new) = Some 2" by (simp add: encodeDeployment_def Let_def)
  ultimately show thesis using s3(2) by (intro that [of s3 ?c ?c' ?new]) simp_all
qed

text \<open>The images of the containers are not managed.\<close>

lemma unmanaged_images:
  "map containerImage (podContainers (templateSpec (deploymentSpec (unmanaged d)))) =
     map containerImage (podContainers (templateSpec (deploymentSpec d)))"
  by (cases "podContainers (templateSpec (deploymentSpec d))")
     (simp_all add: unmanaged_def unmanagedContainers_def Let_def comp_def)

lemma no_lost_update_witness:
  "\<exists>s' d. passOf cachedReconciler (ProxyPass (exampleKey ''villip'')) changing = (True, s') \<and>
     (\<exists>c c'. (Operator, c, c') \<in> set (changes s') \<and> clDeployments c' = [d]) \<and>
     deploymentReplicas (deploymentSpec d) = Some 2 \<and>
     map containerImage (podContainers (templateSpec (deploymentSpec d))) = [''mirror/villip:latest'']"
proof -
  let ?n = "exampleKey ''villip''"
  obtain s' c c' d where run: "passOf cachedReconciler (ProxyPass ?n) changing = (True, s')"
    and own: "(Operator, c, c') \<in> set (changes s')"
    and c: "clDeployments c = [newImage smallDeployment]" "clDeployments c' = [d]"
    and size: "deploymentReplicas (deploymentSpec d) = Some 2"
    by (rule changing_run)
  have key: "keyOf restMeta = ?n" "metaDeletionTimestamp restMeta = None"
    by (simp_all add: restMeta_def exampleMeta_def emptyMeta_def keyOf_def exampleKey_def)
  have meta: "deploymentMeta smallDeployment = restMeta" "deploymentMeta (newImage smallDeployment) = bump restMeta"
    by (simp_all add: smallDeployment_def newImage_def rest_sel)
  have "stored smallCluster"
    by (simp add: stored_def storedIn_def smallCluster_def restCluster_def meta rest_sel(6) not_finalized key)
  then have start: "behind (server changing, cache changing)" "changes changing = []"
    by (simp_all add: changing_def behind_self)
  have "(\<exists>d'. findObj deploymentMeta ?n (clDeployments c') = Some d' \<and> unmanaged d' = unmanaged (newImage smallDeployment))"
    using no_lost_update [of "\<lambda>s. s" cachedReconciler examplePolicy changing "ProxyPass ?n" True s' c c']
      changing_onward start run own
    by (simp add: refines_refl store_lib exampleLib_laws c findObj_def meta key)
  then have "unmanaged d = unmanaged (newImage smallDeployment)"
    by (auto simp: c findObj_def split: if_splits)
  from arg_cong [OF this, of "\<lambda>d. map containerImage (podContainers (templateSpec (deploymentSpec d)))"]
  have image: "map containerImage (podContainers (templateSpec (deploymentSpec d))) = [''mirror/villip:latest'']"
    unfolding unmanaged_images
    by (simp add: newImage_def smallDeployment_def setReplicas_def setFirstContainer_def Let_def rest_sel(8))
  show ?thesis by (intro exI conjI) (rule run, rule own, rule c(2), rule size, rule image)
qed

end
