(* ===== verification/Go_Text.thy ===== *)
theory Go_Text
  imports Go_Strings "HOL-Library.Sublist"
begin

text \<open>
  Searching and scanning text, as far as the helpers of the tests use it: \<open>strings.Index\<close>,
  \<open>strings.Contains\<close>, \<open>strings.Replace\<close> without a limit, \<open>strings.TrimPrefix\<close>,
  and the lines of a \<open>bufio.Scanner\<close>.
\<close>

section \<open>Substrings\<close>

text \<open>The index of the first occurrence; \<open>None\<close> is -1.\<close>

fun stringsIndex :: "string \<Rightarrow> string \<Rightarrow> nat option" where
  "stringsIndex [] sub = (if sub = [] then Some 0 else None)"
| "stringsIndex (c # s) sub =
     (if prefix sub (c # s) then Some 0 else map_option Suc (stringsIndex s sub))"

definition stringsContains :: "string \<Rightarrow> string \<Rightarrow> bool" where
  "stringsContains s sub \<longleftrightarrow> stringsIndex s sub \<noteq> None"

definition trimPrefix :: "string \<Rightarrow> string \<Rightarrow> string" where
  "trimPrefix s p = (if prefix p s then drop (length p) s else s)"

text \<open>\<open>strings.Replace(s, old, new, -1)\<close> for an \<open>old\<close> that is not empty.\<close>

fun replaceAll :: "string \<Rightarrow> string \<Rightarrow> string \<Rightarrow> string" where
  "replaceAll old new [] = []"
| "replaceAll old new (c # s) =
     (if prefix old (c # s) then new @ replaceAll old new (drop (length old - 1) s)
      else c # replaceAll old new s)"

lemma stringsIndex_Some:
  "stringsIndex s sub = Some i \<longleftrightarrow>
     (\<exists>post. s = take i s @ sub @ post) \<and> i \<le> length s \<and> (\<forall>j < i. \<not> prefix sub (drop j s))"
proof (induction s arbitrary: i)
  case Nil
  then show ?case by auto
next
  case (Cons c s)
  show ?case
  proof (cases i)
    case 0
    then show ?thesis by (auto simp: prefix_def)
  next
    case (Suc k)
    have "(\<forall>j < Suc k. \<not> prefix sub (drop j (c # s))) \<longleftrightarrow>
        \<not> prefix sub (c # s) \<and> (\<forall>j < k. \<not> prefix sub (drop j s))"
      by (auto simp: less_Suc_eq_0_disj)
    then show ?thesis using Cons [of k] by (auto simp: Suc)
  qed
qed

lemma stringsContains_iff: "stringsContains s sub \<longleftrightarrow> sublist sub s"
proof (induction s)
  case Nil
  then show ?case by (auto simp: stringsContains_def)
next
  case (Cons c s)
  then show ?case by (auto simp: stringsContains_def sublist_Cons_right)
qed

lemma trimPrefix_append [simp]: "trimPrefix (p @ s) p = s"
  by (simp add: trimPrefix_def)

section \<open>Lines\<close>

abbreviation newline :: char where
  "newline \<equiv> CHR 0x0A"

definition dropCR :: "string \<Rightarrow> string" where
  "dropCR l = (if l \<noteq> [] \<and> last l = CHR 0x0D then butlast l else l)"

text \<open>A final newline ends the last line and starts no other.\<close>

definition lineTokens :: "string \<Rightarrow> string list" where
  "lineTokens s = (let ls = splitString newline s in if last ls = [] then butlast ls else ls)"

text \<open>The buffer of a scanner holds 64 KiB: it stops at a line that does not fit.\<close>

definition maxScanTokenSize :: nat where
  "maxScanTokenSize = 64 * 1024"

definition scanLines :: "string \<Rightarrow> string list" where
  "scanLines s = map dropCR (takeWhile (\<lambda>l. length l < maxScanTokenSize) (lineTokens s))"

text \<open>Lines that a scanner returns as they are.\<close>

definition plainLine :: "string \<Rightarrow> bool" where
  "plainLine l \<longleftrightarrow> newline \<notin> set l \<and> length l < maxScanTokenSize \<and> dropCR l = l"

lemma scanLines_join:
  assumes "ls \<noteq> []" and "\<forall>l \<in> set ls. plainLine l"
  shows "last ls \<noteq> [] \<Longrightarrow> scanLines (joinStrings [newline] ls) = ls"
    and "scanLines (joinStrings [newline] ls @ [newline]) = ls"
proof -
  have split: "splitString newline (joinStrings [newline] ks) = ks" if "ks \<noteq> []" "\<forall>l \<in> set ks. newline \<notin> set l" for ks
    by (rule split_join [OF that])
  have all: "takeWhile (\<lambda>l. length l < maxScanTokenSize) ls = ls" "map dropCR ls = ls"
    using assms(2) by (simp_all add: plainLine_def map_idI)
  have nl: "\<forall>l \<in> set ls. newline \<notin> set l" using assms(2) by (simp add: plainLine_def)
  show "last ls \<noteq> [] \<Longrightarrow> scanLines (joinStrings [newline] ls) = ls"
    by (simp add: scanLines_def lineTokens_def split [OF assms(1) nl] all)
  have "joinStrings [newline] ls @ [newline] = joinStrings [newline] (ls @ [[]])"
    using assms(1) by (induction "[newline]" ls rule: joinStrings.induct) auto
  moreover have "splitString newline (joinStrings [newline] (ls @ [[]])) = ls @ [[]]"
    by (rule split) (use nl in auto)
  ultimately show "scanLines (joinStrings [newline] ls @ [newline]) = ls"
    by (simp add: scanLines_def lineTokens_def all)
qed

lemma scanLines_none: "scanLines [] = []"
  by (simp add: scanLines_def lineTokens_def)

lemma sublist_after: "sublist p z \<Longrightarrow> sublist p (x @ c # z)"
  by (induction x) (auto simp: sublist_Cons_right)

text \<open>A word without the separator lies within one piece of a split.\<close>

lemma sublist_pieces:
  assumes "c \<notin> set w" and "w \<noteq> []"
  shows "sublist w s \<longleftrightarrow> (\<exists>p \<in> set (splitString c s). sublist w p)"
proof
  assume "\<exists>p \<in> set (splitString c s). sublist w p"
  then obtain p where p: "p \<in> set (splitString c s)" "sublist w p" by blast
  have "sublist p (joinStrings [c] ps)" if "p \<in> set ps" for ps
    using that
  proof (induction "[c]" ps rule: joinStrings.induct)
    case (3 x y ps)
    then show ?case by (auto intro: sublist_after sublist_appendI [of x "[]", simplified])
  qed auto
  from this [OF p(1)] p(2) show "sublist w s" by (auto intro: sublist_order.order_trans)
next
  have "\<exists>p \<in> set (splitString c s). sublist w p" if "s = xs @ w @ ys" for xs ys
    using that
  proof (induction xs arbitrary: s)
    case Nil
    have "\<exists>y zs. splitString c (w @ ys) = (w @ y) # zs" using assms(1)
    proof (induction w)
      case (Cons a w)
      then obtain y zs where "splitString c (w @ ys) = (w @ y) # zs" by auto
      with Cons.prems show ?case by auto
    qed (cases "splitString c ys"; simp)
    with Nil show ?case by (auto intro: sublist_appendI)
  next
    case (Cons x xs)
    then obtain p where p: "p \<in> set (splitString c (xs @ w @ ys))" "sublist w p" by auto
    show ?case
    proof (cases "splitString c (xs @ w @ ys)")
      case Nil
      then show ?thesis by simp
    next
      case (Cons q qs)
      with p show ?thesis using \<open>s = (x # xs) @ w @ ys\<close>
        by (auto simp: sublist_Cons_right)
    qed
  qed
  then show "sublist w s \<Longrightarrow> \<exists>p \<in> set (splitString c s). sublist w p" by (auto simp: sublist_def)
qed

end
