(* ===== verification/Test_Utils.thy ===== *)
theory Test_Utils
  imports Go_Text
begin

text \<open>
  The helpers of the end-to-end tests (\<open>test/utils/utils.go\<close>): commands run in the project
  directory, the installation of the operators the tests need, and the edit that takes lines of
  a kustomization out of their comment.  The operating system is a parameter.
\<close>

section \<open>The operating system\<close>

text \<open>\<open>cmdDir\<close> and \<open>cmdEnv\<close> are empty in what \<open>exec.Command\<close> returns.\<close>

record shellCommand =
  cmdArgs :: "string list"
  cmdDir :: string
  cmdEnv :: "string list"

definition execCommand :: "string \<Rightarrow> string list \<Rightarrow> shellCommand" where
  "execCommand name args = \<lparr>cmdArgs = name # args, cmdDir = '''', cmdEnv = []\<rparr>"

record 'w osApi =
  osGetwd :: "('w, string \<times> goError option) go"
  osChdir :: "string \<Rightarrow> ('w, goError option) go"
  osEnviron :: "('w, string list) go"
  osLookupEnv :: "string \<Rightarrow> ('w, string option) go"
  osReadFile :: "string \<Rightarrow> ('w, goError + string) go"
  osWriteFile :: "string \<Rightarrow> string \<Rightarrow> nat \<Rightarrow> ('w, goError option) go"
  combinedOutput :: "shellCommand \<Rightarrow> ('w, string \<times> goError option) go"
  ginkgoWrite :: "string \<Rightarrow> ('w, unit) go"

section \<open>Running commands\<close>

definition warnError :: "'w osApi \<Rightarrow> goError \<Rightarrow> ('w, unit) go" where
  "warnError os err = ginkgoWrite os (''warning: '' @ errorText err @ [newline])"

definition getProjectDir :: "'w osApi \<Rightarrow> ('w, string \<times> goError option) go" where
  "getProjectDir os = do {
     (wd, err) \<leftarrow> osGetwd os;
     (case err of
        Some e \<Rightarrow> ret (wd, Some e)
      | None \<Rightarrow> ret (replaceAll ''/test/e2e'' '''' wd, None))
   }"

text \<open>The error of \<open>GetProjectDir\<close> is dropped and that of \<open>Chdir\<close> only printed.\<close>

definition runCommand :: "'w osApi \<Rightarrow> shellCommand \<Rightarrow> ('w, string \<times> goError option) go" where
  "runCommand os cmd = do {
     (dir, _) \<leftarrow> getProjectDir os;
     err \<leftarrow> osChdir os dir;
     (case err of
        None \<Rightarrow> ret ()
      | Some e \<Rightarrow> ginkgoWrite os (''chdir dir: '' @ errorText e @ [newline]));
     env \<leftarrow> osEnviron os;
     ginkgoWrite os (''running: '' @ joinStrings '' '' (cmdArgs cmd) @ [newline]);
     (output, err) \<leftarrow> combinedOutput os (cmd\<lparr>cmdDir := dir, cmdEnv := env @ [''GO111MODULE=on'']\<rparr>);
     (case err of
        Some e \<Rightarrow> ret (output, Some (errorf (joinStrings '' '' (cmdArgs cmd) @ '' failed with error: ('' @
          errorText e @ '') '' @ output)))
      | None \<Rightarrow> ret (output, None))
   }"

definition getNonEmptyLines :: "string \<Rightarrow> string list" where
  "getNonEmptyLines output = filter (\<lambda>element. element \<noteq> '''') (splitString newline output)"

section \<open>The operators the tests need\<close>

definition prometheusOperatorURL :: "string \<Rightarrow> string" where
  "prometheusOperatorURL v =
     ''https://github.com/prometheus-operator/prometheus-operator/releases/download/'' @ v @ ''/bundle.yaml''"

definition certmanagerURLTmpl :: "string \<Rightarrow> string" where
  "certmanagerURLTmpl v =
     ''https://github.com/cert-manager/cert-manager/releases/download/'' @ v @ ''/cert-manager.yaml''"

definition prometheusOperatorVersion :: string where
  "prometheusOperatorVersion = ''v0.77.1''"

definition certmanagerVersion :: string where
  "certmanagerVersion = ''v1.16.3''"

definition installPrometheusOperator :: "'w osApi \<Rightarrow> ('w, goError option) go" where
  "installPrometheusOperator os = do {
     (_, err) \<leftarrow> runCommand os
       (execCommand ''kubectl'' [''create'', ''-f'', prometheusOperatorURL prometheusOperatorVersion]);
     ret err
   }"

definition warnIfFailed :: "'w osApi \<Rightarrow> shellCommand \<Rightarrow> ('w, unit) go" where
  "warnIfFailed os cmd = do {
     (_, err) \<leftarrow> runCommand os cmd;
     (case err of None \<Rightarrow> ret () | Some e \<Rightarrow> warnError os e)
   }"

definition uninstallPrometheusOperator :: "'w osApi \<Rightarrow> ('w, unit) go" where
  "uninstallPrometheusOperator os =
     warnIfFailed os
       (execCommand ''kubectl'' [''delete'', ''-f'', prometheusOperatorURL prometheusOperatorVersion])"

definition uninstallCertManager :: "'w osApi \<Rightarrow> ('w, unit) go" where
  "uninstallCertManager os =
     warnIfFailed os (execCommand ''kubectl'' [''delete'', ''-f'', certmanagerURLTmpl certmanagerVersion])"

definition installCertManager :: "'w osApi \<Rightarrow> ('w, goError option) go" where
  "installCertManager os = do {
     (_, err) \<leftarrow> runCommand os
       (execCommand ''kubectl'' [''apply'', ''-f'', certmanagerURLTmpl certmanagerVersion]);
     (case err of
        Some e \<Rightarrow> ret (Some e)
      | None \<Rightarrow> do {
          (_, err) \<leftarrow> runCommand os
            (execCommand ''kubectl'' [''wait'', ''deployment.apps/cert-manager-webhook'',
               ''--for'', ''condition=Available'', ''--namespace'', ''cert-manager'', ''--timeout'', ''5m'']);
          ret err
        })
   }"

definition prometheusCRDs :: "string list" where
  "prometheusCRDs =
     [''prometheuses.monitoring.coreos.com'', ''prometheusrules.monitoring.coreos.com'',
      ''prometheusagents.monitoring.coreos.com'']"

definition certManagerCRDs :: "string list" where
  "certManagerCRDs =
     [''certificates.cert-manager.io'', ''issuers.cert-manager.io'', ''clusterissuers.cert-manager.io'',
      ''certificaterequests.cert-manager.io'', ''orders.acme.cert-manager.io'',
      ''challenges.acme.cert-manager.io'']"

text \<open>The common shape of the two checks: one loop over the names, one over the lines.\<close>

definition crdsListed :: "'w osApi \<Rightarrow> shellCommand \<Rightarrow> string list \<Rightarrow> ('w, bool) go" where
  "crdsListed os cmd crds = do {
     (output, err) \<leftarrow> runCommand os cmd;
     (case err of
        Some _ \<Rightarrow> ret False
      | None \<Rightarrow>
          ret (list_ex (\<lambda>crd. list_ex (\<lambda>line. stringsContains line crd) (getNonEmptyLines output)) crds))
   }"

definition isPrometheusCRDsInstalled :: "'w osApi \<Rightarrow> ('w, bool) go" where
  "isPrometheusCRDsInstalled os =
     crdsListed os
       (execCommand ''kubectl'' [''get'', ''crds'', ''-o'', ''custom-columns=NAME:.metadata.name''])
       prometheusCRDs"

definition isCertManagerCRDsInstalled :: "'w osApi \<Rightarrow> ('w, bool) go" where
  "isCertManagerCRDsInstalled os =
     crdsListed os (execCommand ''kubectl'' [''get'', ''crds'']) certManagerCRDs"

definition loadImageToKindClusterWithName :: "'w osApi \<Rightarrow> string \<Rightarrow> ('w, goError option) go" where
  "loadImageToKindClusterWithName os name = do {
     found \<leftarrow> osLookupEnv os ''KIND_CLUSTER'';
     (_, err) \<leftarrow> runCommand os
       (execCommand ''kind'' [''load'', ''docker-image'', name, ''--name'',
          (case found of None \<Rightarrow> ''kind'' | Some v \<Rightarrow> v)]);
     ret err
   }"

section \<open>Taking code out of its comment\<close>

text \<open>The loop of the scanner: a newline goes between two lines, none after the last.\<close>

fun writeUncommented :: "string \<Rightarrow> string list \<Rightarrow> string" where
  "writeUncommented pre [] = []"
| "writeUncommented pre [l] = trimPrefix l pre"
| "writeUncommented pre (l # l' # ls) = trimPrefix l pre @ [newline] @ writeUncommented pre (l' # ls)"

definition uncommentCode :: "'w osApi \<Rightarrow> string \<Rightarrow> string \<Rightarrow> string \<Rightarrow> ('w, goError option) go" where
  "uncommentCode os filename target pre = do {
     res \<leftarrow> osReadFile os filename;
     (case res of
        Inl err \<Rightarrow> ret (Some err)
      | Inr content \<Rightarrow>
          (case stringsIndex content target of
             None \<Rightarrow> ret (Some (errorf (''unable to find the code '' @ target @ '' to be uncomment'')))
           | Some idx \<Rightarrow>
               if scanLines target = [] then ret None
               else osWriteFile os filename
                 (take idx content @ writeUncommented pre (scanLines target) @
                  drop (idx + length target) content) 420))
   }"

section \<open>Properties\<close>

lemma writeUncommented_join: "writeUncommented pre ls = joinStrings [newline] (map (\<lambda>l. trimPrefix l pre) ls)"
  by (induction pre ls rule: writeUncommented.induct) simp_all

text \<open>Looking for a name in the lines is looking for it in the output.\<close>

lemma contains_in_lines:
  assumes "newline \<notin> set crd" and "crd \<noteq> ''''"
  shows "list_ex (\<lambda>line. stringsContains line crd) (getNonEmptyLines output) \<longleftrightarrow> stringsContains output crd"
proof -
  have "list_ex (\<lambda>line. stringsContains line crd) (getNonEmptyLines output) \<longleftrightarrow>
      (\<exists>p \<in> set (splitString newline output). sublist crd p)"
    using assms(2) by (auto simp: list_ex_iff getNonEmptyLines_def stringsContains_iff)
  then show ?thesis
    using sublist_pieces [OF assms, where s = "output"] by (simp add: stringsContains_iff)
qed

lemma crdsListed_run:
  assumes "run_state (runCommand os cmd) w = ((output, err), w')"
    and "\<forall>crd \<in> set crds. newline \<notin> set crd \<and> crd \<noteq> ''''"
  shows "run_state (crdsListed os cmd crds) w =
    (err = None \<and> (\<exists>crd \<in> set crds. sublist crd output), w')"
proof -
  have "list_ex (\<lambda>crd. list_ex (\<lambda>line. stringsContains line crd) (getNonEmptyLines output)) crds \<longleftrightarrow>
      (\<exists>crd \<in> set crds. sublist crd output)"
    using assms(2) contains_in_lines by (auto simp: list_ex_iff [of _ crds] stringsContains_iff)
  then show ?thesis
    using assms(1) by (simp add: crdsListed_def run_simps split: option.split)
qed

lemma crds_installed:
  assumes "run_state (runCommand os (execCommand ''kubectl'' [''get'', ''crds''])) w = ((out, err), w')"
  shows "run_state (isCertManagerCRDsInstalled os) w =
    (err = None \<and> (\<exists>crd \<in> set certManagerCRDs. sublist crd out), w')"
  unfolding isCertManagerCRDsInstalled_def
  by (rule crdsListed_run [OF assms]) (simp add: certManagerCRDs_def)

text \<open>Where the first occurrence of the target is, its lines are written without the prefix.\<close>

lemma uncommentCode_run:
  assumes "run_state (osReadFile os filename) w = (Inr (before @ target @ after), w')"
    and "\<forall>j < length before. \<not> prefix target (drop j (before @ target @ after))"
    and "scanLines target \<noteq> []"
  shows "run_state (uncommentCode os filename target pre) w =
    run_state (osWriteFile os filename
      (before @ joinStrings [newline] (map (\<lambda>l. trimPrefix l pre) (scanLines target)) @ after) 420) w'"
proof -
  have "stringsIndex (before @ target @ after) target = Some (length before)"
    using assms(2) by (simp add: stringsIndex_Some)
  then show ?thesis
    using assms(1,3) by (simp add: uncommentCode_def run_simps writeUncommented_join)
qed

text \<open>Without an occurrence, and when the file cannot be read, nothing is written.\<close>

lemma uncommentCode_fails:
  "run_state (osReadFile os filename) w = (Inl err, w') \<Longrightarrow>
     run_state (uncommentCode os filename target pre) w = (Some err, w')"
  "run_state (osReadFile os filename) w = (Inr content, w') \<Longrightarrow> \<not> sublist target content \<Longrightarrow>
     run_state (uncommentCode os filename target pre) w =
       (Some (errorf (''unable to find the code '' @ target @ '' to be uncomment'')), w')"
  using stringsContains_iff [of content target]
  by (simp_all add: uncommentCode_def run_simps stringsContains_def)

text \<open>C39: the edit of a kustomization.  Let the target be some lines behind the prefix, with or
  without a newline at the end.  Where its first occurrence is, the file gets the lines without
  the prefix, and the text before and after it stays.  The newline at the end of a target is
  not written back: what follows the target continues its last line.\<close>

theorem uncomment_code_exact:
  assumes "run_state (osReadFile os filename) w = (Inr (before @ target @ after), w')"
    and "\<forall>j < length before. \<not> prefix target (drop j (before @ target @ after))"
    and "target = joinStrings [newline] (map (\<lambda>l. pre @ l) ls) @ tail"
    and "tail = [newline] \<or> tail = '''' \<and> pre @ last ls \<noteq> ''''"
    and "ls \<noteq> []" and "\<forall>l \<in> set ls. plainLine (pre @ l)"
  shows "run_state (uncommentCode os filename target pre) w =
    run_state (osWriteFile os filename (before @ joinStrings [newline] ls @ after) 420) w'"
proof -
  let ?ks = "map (\<lambda>l. pre @ l) ls"
  have "\<forall>k \<in> set ?ks. plainLine k" using assms(6) by simp
  then have scan: "scanLines target = ?ks"
    using scanLines_join [of ?ks] assms(3,4,5) by (auto simp: last_map)
  have "map (\<lambda>l. trimPrefix l pre) ?ks = ls" by (simp add: comp_def)
  then show ?thesis
    using uncommentCode_run [OF assms(1,2)] assms(5) by (simp add: scan)
qed

text \<open>An operating system with one file.\<close>

definition oneFile :: "string osApi" where
  "oneFile =
     \<lparr>osGetwd = ret ('''', None), osChdir = (\<lambda>d. ret None), osEnviron = ret [], osLookupEnv = (\<lambda>k. ret None),
      osReadFile = (\<lambda>f. do { c \<leftarrow> State_Monad.get; ret (Inr c) }),
      osWriteFile = (\<lambda>f c perm. do { State_Monad.set c; ret None }),
      combinedOutput = (\<lambda>cmd. ret ('''', None)), ginkgoWrite = (\<lambda>t. ret ())\<rparr>"

lemma uncomment_code_exact_witness:
  "run_state (uncommentCode oneFile ''f'' (''#- a'' @ [newline] @ ''#- b'' @ [newline]) ''#'')
     (''resources:'' @ [newline] @ ''#- a'' @ [newline] @ ''#- b'' @ [newline] @ ''- c'') =
   (None, ''resources:'' @ [newline] @ ''- a'' @ [newline] @ ''- b- c'')"
proof -
  let ?before = "''resources:'' @ [newline]"
  let ?target = "''#- a'' @ [newline] @ ''#- b'' @ [newline]"
  have read: "run_state (osReadFile oneFile ''f'') (?before @ ?target @ ''- c'') =
      (Inr (?before @ ?target @ ''- c''), ?before @ ?target @ ''- c'')"
    by (simp add: oneFile_def run_simps)
  have first: "\<forall>j < length ?before. \<not> prefix ?target (drop j (?before @ ?target @ ''- c''))"
    by (simp add: less_Suc_eq all_conj_distrib eval_nat_numeral)
  have plain: "\<forall>l \<in> set [''- a'', ''- b'']. plainLine (''#'' @ l)"
    by (simp add: plainLine_def dropCR_def maxScanTokenSize_def)
  have saved: "run_state (osWriteFile oneFile ''f'' c 420) w = (None, c)" for c w
    by (simp add: oneFile_def run_simps)
  show ?thesis
    using uncomment_code_exact [OF read first, of "''#''" "[''- a'', ''- b'']" "[newline]"] plain
    by (simp add: saved)
qed

end
