(* ===== verification/Spec2Isabelle.thy ===== *)
theory Spec2Isabelle
  imports Proxy_Witnesses Proxy_Deletion Proxy_Safety Rules_Properties Operator_Schedule Isolation
    Operator_Protocol Manager_Witnesses Deep_Copy_Properties Queue_Blindspot Interference_Example Test_Utils
begin

text \<open>
  A model of the villip operator, a Kubernetes operator in Go with two controllers and the
  program that starts them.  A \<open>VillipProxy\<close> becomes a Deployment and a Service; a
  \<open>VillipRules\<close> becomes a ConfigMap that the proxies whose rulesets select it mount.

  \<^bold>\<open>Parts of the program and the theories that model them.\<close>

  \<^item> \<open>api/v1\<close>: the two resources and their group.  \<open>Api_Types\<close> has them as records with
    Go's field widths, beside the Kubernetes objects the code builds; \<open>Manager_Setup\<close> has
    the kinds registered with the scheme.  \<open>Deep_Copy\<close> has the generated methods of
    \<open>zz_generated.deepcopy.go\<close>, over the model of memory in \<open>Go_Memory\<close>.
  \<^item> \<open>internal/controller/villipproxy_controller*.go\<close>: the proxy controller.
    \<open>Proxy_Ports\<close> and \<open>Proxy_Service\<close> (\<open>villipproxy_controller service.go\<close>),
    \<open>Proxy_Deployment\<close> (\<open>... deployments.go\<close>), \<open>Proxy_Controller\<close> (\<open>... steps.go\<close>
    and \<open>Reconcile\<close>).
  \<^item> \<open>internal/controller/villiprules_controller*.go\<close>: the rules controller.
    \<open>Rules_Checksum\<close> over \<open>Sha256\<close> (\<open>sumVillipRulesData\<close>), \<open>Rules_Controller\<close>
    (\<open>... configmap.go\<close>, \<open>... steps.go\<close>, \<open>Reconcile\<close> and the owner index).
  \<^item> \<open>cmd/main.go\<close> and both \<open>SetupWithManager\<close>: \<open>Manager_Flags\<close> over \<open>Go_Flags\<close>
    (the command line), \<open>Manager_Setup\<close>, and \<open>Manager_Main\<close> over \<open>Go_Slices\<close> and
    \<open>Go_Filepath\<close> (start-up, TLS options, certificate files, exit codes).
  \<^item> \<open>test/utils/utils.go\<close>: the helpers of the end-to-end tests.  \<open>Test_Utils\<close> over
    \<open>Go_Text\<close> (searching and scanning text).
  \<^item> Go's standard library, as far as it is used, is modelled with the code: \<open>Go_Strings\<close>
    (printing, joining, splitting, sorting), \<open>Go_Text\<close>, \<open>Sha256\<close>, \<open>Go_Flags\<close>,
    \<open>Go_Slices\<close>, \<open>Go_Filepath\<close>.

  A handler is a computation of the library's state monad over a world \<open>'w\<close>
  (\<open>Prelude\<close>); an error is a value, a run-time panic is \<open>Panic\<close>.  What is not in the
  repository is a parameter: \<open>Reconciler\<close> has the client, recorder and clock
  (\<open>'w reconciler\<close>) and the pure helpers of the Kubernetes libraries (\<open>lib\<close>),
  \<open>Manager_Setup\<close> the manager (\<open>managerApi\<close>), \<open>Deep_Copy\<close> the methods of foreign
  structs (\<open>foreignCopies\<close>), \<open>Test_Utils\<close> the operating system (\<open>osApi\<close>).  Long Go
  functions are cut into definitions along their early returns (\<open>reconcileProxy\<close>,
  \<open>reconcileProxyDeployment\<close>, \<open>reconcileProxyRulesets\<close>,
  \<open>reconcileProxyService\<close> are the parts of one \<open>Reconcile\<close>).

  \<^bold>\<open>How the parts interact.\<close>  The controllers share no memory.  They meet in the API server and
  in one annotation, \<open>villip.carmier.fr/conf\<close>: the proxy controller writes the names of the
  mounted ConfigMaps, the rules controller splits it to find the Deployments to restart when a
  rule changes.  \<open>Conf_Annotation\<close> states that protocol as a locale and interprets it on
  the two expressions of the code; \<open>Operator_Protocol\<close> draws the conclusion.

  \<^bold>\<open>The server.\<close>  Properties that need a server assume \<open>behavesLike\<close> (\<open>Cluster_Store\<close>):
  seen through an abstraction function, the client's calls have the effect of an executable
  reference server with the documented behaviour (optimistic locking by resource version,
  separate status writes, finalizers and deletion, the immutable selector of a Deployment, nil for
  empty lists, arbitrary admission), in which any request may fail.  Failures follow a schedule in the state
  (\<open>clFaults\<close>), so a statement for all clusters is one for all ways of failing; a failed
  request is one that was not executed.  \<open>libLaws\<close> are the documented laws of the helpers.
  Where a property needs writes to be admitted, it assumes \<open>admitsValid\<close>: the server admits
  what its documented validation allows, spelled out in \<open>Api_Validation\<close> (syntax of names,
  labels, annotations and finalizers, selector and template, ports, volumes, mounts, probes, owner
  references), with \<open>valueLaws\<close> for two helpers whose values end up in validated fields.
  \<open>Valid_Objects\<close> shows that what the operator builds and how it edits is valid, for
  proxies it describes; the Deployment of one whose version label is not a label value is refused.
  The reference server satisfies \<open>behavesLike\<close> itself, and every property has a witness on
  it.  \<open>Store_Transfer\<close> carries results from the reference server to any such client;
  \<open>Store_Run\<close> evaluates the steps on it.

  \<^bold>\<open>What the lemmas show.\<close>

  \<^item> Convergence (\<open>Ranked_Loop\<close>, \<open>Proxy_Convergence\<close>, \<open>Proxy_Loop\<close>,
    \<open>Rules_Convergence\<close>, \<open>Rules_Loop\<close>): a proxy and a rule go through phases; every
    pass is a step of an abstract machine over them, and the rank of the phase bounds the
    number of passes until everything agrees: seven to align a proxy and one to report it,
    hence eight; three for a rule.  Both loops are instances of one locale.
  \<^item> Composition (\<open>Store_Frame\<close>, \<open>Rules_Frame\<close>, \<open>Operator_Schedule\<close>,
    \<open>Isolation\<close>): whatever requests fail, a pass changes only objects of its key, but for the
    Deployments that a pass over a rule rolls out; and a proxy converges under every interleaving
    with passes over other proxies and over rules in sync.
  \<^item> The protocol between the two controllers and the server (\<open>Conf_Annotation\<close>,
    \<open>Operator_Protocol\<close>): the annotation that one writes and the other splits, which rules a
    proxy mounts, and when the built objects pass validation.
  \<^item> Safety and results (\<open>Proxy_Safety\<close>, \<open>Proxy_Properties\<close>,
    \<open>Rules_Properties\<close>): a quiet pass means an aligned workload, no pass panics, what a
    pass may return, what the built objects look like, which changes are detected.
  \<^item> The work queues (\<open>Events\<close>, \<open>Work_Queue\<close>, \<open>Queue_Drain\<close>,
    \<open>Queue_Blindspot\<close>): a machine with the requests that wait, in which a pass or an edit by
    somebody else wakes the controllers that \<open>SetupWithManager\<close> made watch the changed object.
    No drift of a watched object stays unnoticed; the queue of a proxy drains under every
    interleaving with passes over other proxies and over rules in sync, after at most nine passes
    over the proxy (the rank of its phase, one to report it, one that writes nothing new);
    but a rule that starts to match wakes nobody.
  \<^item> Invariants of whole passes (\<open>Invariants\<close>, \<open>Rolling_Client\<close>,
    \<open>Careful_Client\<close>, \<open>Ownership\<close>): the contract of a client whose invariant may know the
    Deployments that were listed so far, and keeps it when one of them is sent back with a reload
    stamp, is a locale in which the rules reconciler is walked through once.  A locale that gives
    it, of clients whose invariant also knows what the proxy controller read, does the same for
    the proxy reconciler.  A third, of clients that keep the owner references of objects, gives
    the second.  They are interpreted five times: the server, seen from one key, only has its
    Deployment rolled out; the server keeps the owner references, which lead an event back to the
    proxy; so does the server in use by others, and the server behind a cache; and the versions
    of what was read stay true.
  \<^item> Concurrency (\<open>Observation\<close>, \<open>Shared_Store\<close>, \<open>Concurrent_Queue\<close>,
    \<open>Lagging_Store\<close>, \<open>Stale_Queue\<close>, \<open>Lost_Update\<close>): others write between any two
    requests of a pass, and reads may come from a cache that hears of it later.  Still no drift
    stays unnoticed, although a pass puts together what it read at different moments: the
    argument is the locale \<open>observed\<close>, of a client some part of whose state is what it sees
    and what wakes it, interpreted for the server in use by others and for the cache.  And no
    update is lost: a request of the operator changes only managed fields of the stored version,
    however old what it read.  \<open>Interference_Example\<close> has runs of each.
  \<^item> Ends (\<open>Proxy_Deletion\<close>, \<open>Rules_Properties\<close>): deletion with one finalizer, with
    several, and without the operator's own.
  \<^item> Start-up (\<open>Manager_Properties\<close>): the order of the steps and the exit codes, TLS and
    certificates of the two servers, the meaning of the command line.
  \<^item> Copies (\<open>Go_Memory\<close>, \<open>Deep_Copy_Laws\<close>, \<open>Deep_Copy_Properties\<close>): the contract of
    a deep copy is a locale; pairs, structs, slices, maps and pointers of things with the
    contract have it again, so every generated method has it, given that the foreign ones
    do.  A copy reads like the original and shares no memory with it.
  \<^item> Test helpers (\<open>Test_Utils\<close>): what the edit that removes a comment prefix writes, and
    that looking for a resource in the lines of an output is looking for it in the output.

  Several properties state what the code does where that is not what it means to do: a Service
  that selects no pods, the version label of an image with a registry port (and the Deployment
  that is refused for it), a rollout that passes over proxies with a managed-by label of their own,
  an existing Deployment that keeps the image of an older spec, rulesets that are
  forgotten after a failed list, an update failure reported as success, finalizers removed by
  stale indices, an index on a kind that does not exist, a proxy without ports that is never
  done, a proxy that is not told of a new rule, and two TLS option lists that are only independent
  by the growth of \<open>append\<close>.

  \<^bold>\<open>Simplifications.\<close>  In the statements about loops and schedules passes run one after the other
  and nobody else writes; in the machine of \<open>Work_Queue\<close> others write between passes.  In
  \<open>Shared_Store\<close> they write between any two requests of a pass: one pass is looked at, and the
  rest of the world, a pass of the other controller included, is an arbitrary list of edits
  under a rely condition (that the workload of the name keeps its owner, or that objects are not
  deleted and their versions grow).  Reads see the present state of the server, except in
  \<open>Lagging_Store\<close>: there they see a cache, and the moves between two requests change the
  server, the cache or both.
  The machines have controller-runtime's documented behaviour: an event names the controlling
  owner of the old and the new version, matched by kind and group version; a request waits once
  however often it is asked for; a pass that fails, panics or asks for a rerun puts its request
  back, without the delay; a write that changes the resource version only is no event, since the
  server does not store it.  Further requests, as from a resync, are allowed in the statement
  about drifts and left out of the others.
  Resource versions count writes.  A string is a list of bytes.  Log output is dropped.
  The reference server moves the resource version with every accepted write, also one that says
  the same again.  Objects are values: the reconcilers read into fresh variables and never keep a pointer
  across a call, and what the cache hands out is a deep copy, so nothing is shared; in
  \<open>Deep_Copy\<close>, which is about sharing, the same structs live in memory.  Kubernetes structs have the
  fields the code names.

  \<^bold>\<open>Not modelled.\<close>  The tests themselves.  The YAML manifests: consulted for field types only.  The
  encoding of a rule to YAML and the deep structure of a rule's filter are the parameter
  \<open>yamlMarshal\<close>.
\<close>

end
